(* ===== verification/Zwal_Prelude.thy ===== *)
theory Zwal_Prelude
  imports Main "HOL-Library.Word"
begin

text \<open>
  Shared vocabulary of the development: machine integers and byte strings, the status values of
  RocksDB (\<^verbatim>\<open>rocksdb-raw/include/rocksdb/status.h\<close>, \<^verbatim>\<open>io_status.h\<close>), the fact collections
  the component theories feed, and the generic lemmas on lists and words they share.

  Conventions used everywhere:
  \<^item> \<^verbatim>\<open>uint8_t\<close>, \<^verbatim>\<open>uint32_t\<close>, \<^verbatim>\<open>uint64_t\<close> (and \<^verbatim>\<open>size_t\<close>) are words of 8, 32 and 64 bits, so
    \<open>+\<close> and \<open>-\<close> wrap around as in C++;
  \<^item> a \<^verbatim>\<open>std::string\<close> or a \<^verbatim>\<open>Slice\<close> is the list of its bytes;
  \<^item> a function whose C++ original may wait forever, loop forever or run into undefined behaviour
    returns an \<open>option\<close>, and \<open>None\<close> stands for each of the three;
  \<^item> \<^verbatim>\<open>assert\<close> is compiled out (the build instructions use \<^verbatim>\<open>DEBUG_LEVEL=0\<close>), so it is not
    part of any definition.
\<close>

unbundle bit_operations_syntax

type_synonym byte = "8 word"
type_synonym u16 = "16 word"
type_synonym u32 = "32 word"
type_synonym u64 = "64 word"
type_synonym bytes = "byte list"

named_theorems codec_simps \<open>evaluation of encoders and decoders on encoded input\<close>
named_theorems len_simps \<open>lengths of encodings\<close>
named_theorems u64_simps \<open>moving 64-bit arithmetic to the natural numbers\<close>

section \<open>Status values\<close>

text \<open>
  The status codes of \<^verbatim>\<open>Status::Code\<close> the code uses. \<^verbatim>\<open>NoSpace\<close> and \<^verbatim>\<open>PathNotFound\<close> are not
  codes of their own: both are \<^verbatim>\<open>kIOError\<close> with a sub-code.
\<close>

datatype status_code =
    kOk | kNotFound | kCorruption | kNotSupported | kInvalidArgument | kIOError | kAborted

datatype status =
    OK | NotFound | Corruption | NotSupported | InvalidArgument | IOError | NoSpace | PathNotFound
  | Aborted

primrec code :: "status \<Rightarrow> status_code" where
  "code OK = kOk"
| "code NotFound = kNotFound"
| "code Corruption = kCorruption"
| "code NotSupported = kNotSupported"
| "code InvalidArgument = kInvalidArgument"
| "code IOError = kIOError"
| "code NoSpace = kIOError"
| "code PathNotFound = kIOError"
| "code Aborted = kAborted"

text \<open>\<^verbatim>\<open>Status::ok\<close>, and \<^verbatim>\<open>IOStatus::operator==\<close>, which compares the codes only.\<close>

definition ok :: "status \<Rightarrow> bool" where
  "ok s \<longleftrightarrow> code s = kOk"

definition status_eq :: "status \<Rightarrow> status \<Rightarrow> bool" where
  "status_eq s t \<longleftrightarrow> code s = code t"

definition IsNotFound :: "status \<Rightarrow> bool" where
  "IsNotFound s \<longleftrightarrow> code s = kNotFound"

lemma ok_iff [simp]: "ok s \<longleftrightarrow> s = OK"
  by (cases s) (simp_all add: ok_def)

lemma status_eq_OK [simp]: "status_eq s OK \<longleftrightarrow> s = OK"
  by (cases s) (simp_all add: status_eq_def)

lemma IsNotFound_iff [simp]: "IsNotFound s \<longleftrightarrow> s = NotFound"
  by (cases s) (simp_all add: IsNotFound_def)

section \<open>Strings\<close>

text \<open>The bytes of a string literal.\<close>

definition str :: "string \<Rightarrow> bytes" where
  "str s = map of_char s"

text \<open>\<^verbatim>\<open>ends_with\<close> compares the two strings from the back.\<close>

definition ends_with :: "bytes \<Rightarrow> bytes \<Rightarrow> bool" where
  "ends_with value ending \<longleftrightarrow>
     (if length ending > length value then False
      else take (length ending) (rev value) = rev ending)"

lemma ends_with_append: "ends_with value ending \<longleftrightarrow> (\<exists>p. value = p @ ending)"
proof
  assume "ends_with value ending"
  then have le: "length ending \<le> length value"
    and eq: "take (length ending) (rev value) = rev ending"
    by (auto simp: ends_with_def split: if_splits)
  have "drop (length value - length ending) value = ending"
    using eq le by (simp add: take_rev)
  then show "\<exists>p. value = p @ ending"
    by (metis append_take_drop_id)
next
  assume "\<exists>p. value = p @ ending"
  then show "ends_with value ending"
    by (auto simp: ends_with_def)
qed

section \<open>Lists\<close>

lemma nth_map_update: "i < length xs \<Longrightarrow> map f (xs[i := y]) = (map f xs)[i := f y]"
  by (simp add: map_update)

lemma list_update_const_map: "i < length xs \<Longrightarrow> f y = f (xs ! i) \<Longrightarrow> map f (xs[i := y]) = map f xs"
  by (simp add: map_update list_update_same_conv)

lemma set_update_ball:
  "\<forall>x \<in> set xs. P x \<Longrightarrow> P y \<Longrightarrow> \<forall>x \<in> set (xs[i := y]). P x"
  using set_update_subset_insert by fastforce

section \<open>Words\<close>

lemma unat_add_no_wrap [u64_simps]:
  fixes a b :: "'a::len word"
  shows "unat a + unat b < 2 ^ LENGTH('a) \<Longrightarrow> unat (a + b) = unat a + unat b"
  by (simp add: unat_word_ariths)

lemma unat_diff_le [u64_simps]:
  fixes a b :: "'a::len word"
  shows "b \<le> a \<Longrightarrow> unat (a - b) = unat a - unat b"
  by (simp add: unat_sub word_le_nat_alt)

lemma unat_of_nat_small [u64_simps]:
  "n < 2 ^ LENGTH('a) \<Longrightarrow> unat (of_nat n :: 'a::len word) = n"
  by (simp add: unat_of_nat take_bit_nat_eq_self)

lemma unat_lt2p: "unat (x :: 'a::len word) < 2 ^ LENGTH('a)"
  by (rule unsigned_less)

lemma bit_255_int [simp]: "bit (255 :: int) n \<longleftrightarrow> n < 8"
proof -
  have "(255 :: int) = mask 8" by (simp add: mask_eq_exp_minus_1)
  then show ?thesis by (simp only: bit_mask_iff) auto
qed

lemma bit_127_int [simp]: "bit (127 :: int) n \<longleftrightarrow> n < 7"
proof -
  have "(127 :: int) = mask 7" by (simp add: mask_eq_exp_minus_1)
  then show ?thesis by (simp only: bit_mask_iff) auto
qed

lemma bit_128_int [simp]: "bit (128 :: int) n \<longleftrightarrow> n = 7"
proof -
  have "(128 :: int) = 2 ^ 7" by simp
  then show ?thesis by (simp only: bit_exp_iff) auto
qed

lemma ucast_and_255 [simp]: "(ucast (x AND 255 :: 'a::len word) :: byte) = ucast x"
  by (rule bit_word_eqI) (auto simp: bit_simps dest: bit_imp_le_length)

lemma bit_less_exp:
  fixes v :: "'a::len word"
  assumes "unat v < 2 ^ k" and "k \<le> n"
  shows "\<not> bit v n"
proof -
  have "take_bit k v = v"
    using assms(1) by (metis unsigned_take_bit_eq take_bit_nat_eq_self unsigned_word_eqI)
  then have "bit v n = bit (take_bit k v) n" by simp
  then show ?thesis using assms(2) by (simp add: bit_take_bit_iff)
qed

lemma unat_drop_bit_div: "unat (drop_bit k v) = unat v div 2 ^ k" for v :: "'a::len word"
  by (metis unat_drop_bit_eq drop_bit_eq_div)

lemma unat_ucast_up:
  assumes "LENGTH('a) \<le> LENGTH('b)"
  shows "unat (ucast (x :: 'a::len word) :: 'b::len word) = unat x"
proof -
  have "unat x < 2 ^ LENGTH('a)" by (rule unsigned_less)
  also have "(2::nat) ^ LENGTH('a) \<le> 2 ^ LENGTH('b)" using assms by (rule power_increasing) simp
  finally show ?thesis by (simp add: unsigned_ucast_eq take_bit_nat_eq_self)
qed

lemma ucast_of_nat_down:
  assumes "LENGTH('b) \<le> LENGTH('a)"
  shows "(ucast (of_nat n :: 'a::len word) :: 'b::len word) = of_nat n"
proof -
  have "unat (ucast (of_nat n :: 'a word) :: 'b word) = unat (of_nat n :: 'b word)"
    using assms by (simp add: unsigned_of_nat unsigned_ucast_eq take_bit_take_bit min_def)
  then show ?thesis by (rule unsigned_word_eqI)
qed

lemma unat_exp: "k < LENGTH('a) \<Longrightarrow> unat (2 ^ k :: 'a::len word) = 2 ^ k"
  using unat_of_nat_small [where 'a = 'a, of "2 ^ k"] by simp

end
