(* ===== verification/Coding.thy ===== *)
theory Coding
  imports Zwal_Prelude
begin

text \<open>
  RocksDB's integer and string encodings (\<^verbatim>\<open>rocksdb-raw/util/coding_lean.h\<close>, \<^verbatim>\<open>coding.h\<close>,
  \<^verbatim>\<open>coding.cc\<close>), the alphabet of every record ZenFS and the write-ahead log put on disk.

  A \<^verbatim>\<open>Slice*\<close> that a \<^verbatim>\<open>Get\<close> routine consumes is the list of the remaining bytes. The routine
  returns the value it found, \<open>None\<close> for the C++ result \<^verbatim>\<open>false\<close>, and the bytes that are left;
  both are returned on failure too, since \<^verbatim>\<open>GetLengthPrefixedSlice\<close> can fail after it has moved
  past the length.
\<close>

section \<open>Fixed-width integers\<close>

definition EncodeFixed16 :: "u16 \<Rightarrow> bytes" where
  "EncodeFixed16 value = [ucast (value AND 0xff), ucast (drop_bit 8 value AND 0xff)]"

definition EncodeFixed32 :: "u32 \<Rightarrow> bytes" where
  "EncodeFixed32 value =
     [ucast (value AND 0xff), ucast (drop_bit 8 value AND 0xff),
      ucast (drop_bit 16 value AND 0xff), ucast (drop_bit 24 value AND 0xff)]"

definition EncodeFixed64 :: "u64 \<Rightarrow> bytes" where
  "EncodeFixed64 value =
     [ucast (value AND 0xff), ucast (drop_bit 8 value AND 0xff),
      ucast (drop_bit 16 value AND 0xff), ucast (drop_bit 24 value AND 0xff),
      ucast (drop_bit 32 value AND 0xff), ucast (drop_bit 40 value AND 0xff),
      ucast (drop_bit 48 value AND 0xff), ucast (drop_bit 56 value AND 0xff)]"

text \<open>The decoders read 2, 4 and 8 bytes at the pointer; every caller checks that they are there.\<close>

definition DecodeFixed16 :: "bytes \<Rightarrow> u16" where
  "DecodeFixed16 ptr = ucast (ptr ! 0) OR push_bit 8 (ucast (ptr ! 1))"

definition DecodeFixed32 :: "bytes \<Rightarrow> u32" where
  "DecodeFixed32 ptr =
     ucast (ptr ! 0) OR push_bit 8 (ucast (ptr ! 1)) OR
     push_bit 16 (ucast (ptr ! 2)) OR push_bit 24 (ucast (ptr ! 3))"

definition DecodeFixed64 :: "bytes \<Rightarrow> u64" where
  "DecodeFixed64 ptr =
     (let lo = ucast (DecodeFixed32 ptr); hi = ucast (DecodeFixed32 (drop 4 ptr))
      in push_bit 32 hi OR lo)"

definition PutFixed16 :: "bytes \<Rightarrow> u16 \<Rightarrow> bytes" where
  "PutFixed16 dst value = dst @ EncodeFixed16 value"

definition PutFixed32 :: "bytes \<Rightarrow> u32 \<Rightarrow> bytes" where
  "PutFixed32 dst value = dst @ EncodeFixed32 value"

definition PutFixed64 :: "bytes \<Rightarrow> u64 \<Rightarrow> bytes" where
  "PutFixed64 dst value = dst @ EncodeFixed64 value"

definition GetFixed16 :: "bytes \<Rightarrow> u16 option \<times> bytes" where
  "GetFixed16 input =
     (if length input < 2 then (None, input) else (Some (DecodeFixed16 input), drop 2 input))"

definition GetFixed32 :: "bytes \<Rightarrow> u32 option \<times> bytes" where
  "GetFixed32 input =
     (if length input < 4 then (None, input) else (Some (DecodeFixed32 input), drop 4 input))"

definition GetFixed64 :: "bytes \<Rightarrow> u64 option \<times> bytes" where
  "GetFixed64 input =
     (if length input < 8 then (None, input) else (Some (DecodeFixed64 input), drop 8 input))"

section \<open>Variable-length integers\<close>

text \<open>\<^verbatim>\<open>EncodeVarint32\<close> is unrolled over the five lengths; \<^verbatim>\<open>*(ptr++) = e\<close> keeps the low byte.\<close>

definition EncodeVarint32 :: "u32 \<Rightarrow> bytes" where
  "EncodeVarint32 v =
     (let B = 128 in
      if v < push_bit 7 1 then [ucast v]
      else if v < push_bit 14 1 then [ucast (v OR B), ucast (drop_bit 7 v)]
      else if v < push_bit 21 1 then
        [ucast (v OR B), ucast (drop_bit 7 v OR B), ucast (drop_bit 14 v)]
      else if v < push_bit 28 1 then
        [ucast (v OR B), ucast (drop_bit 7 v OR B), ucast (drop_bit 14 v OR B),
         ucast (drop_bit 21 v)]
      else
        [ucast (v OR B), ucast (drop_bit 7 v OR B), ucast (drop_bit 14 v OR B),
         ucast (drop_bit 21 v OR B), ucast (drop_bit 28 v)])"

lemma drop_bit7_less: "128 \<le> v \<Longrightarrow> unat (drop_bit 7 v) < unat v" for v :: u64
  by (simp add: drop_bit_eq_div word_le_nat_alt unat_div)

function EncodeVarint64 :: "u64 \<Rightarrow> bytes" where
  "EncodeVarint64 v =
     (if v \<ge> 128 then ucast ((v AND 127) OR 128) # EncodeVarint64 (drop_bit 7 v) else [ucast v])"
  by pat_completeness auto
termination
  by (relation "measure unat") (auto simp: drop_bit7_less)

function VarintLength_loop :: "u64 \<Rightarrow> nat \<Rightarrow> nat" where
  "VarintLength_loop v len =
     (if v \<ge> 128 then VarintLength_loop (drop_bit 7 v) (len + 1) else len)"
  by pat_completeness auto
termination
  by (relation "measure (\<lambda>(v, len). unat v)") (auto simp: drop_bit7_less)

declare EncodeVarint64.simps [simp del] VarintLength_loop.simps [simp del]

definition VarintLength :: "u64 \<Rightarrow> nat" where
  "VarintLength v = VarintLength_loop v 1"

text \<open>The decoding loops: \<open>p\<close> is what lies between the pointer and \<^verbatim>\<open>limit\<close>.\<close>

fun GetVarint32PtrFallback_loop :: "nat \<Rightarrow> u32 \<Rightarrow> bytes \<Rightarrow> (u32 \<times> bytes) option" where
  "GetVarint32PtrFallback_loop shift result [] = None"
| "GetVarint32PtrFallback_loop shift result (c # p) =
     (if shift \<le> 28 then
        let byte = ucast c :: u32 in
        if byte AND 128 \<noteq> 0
        then GetVarint32PtrFallback_loop (shift + 7) (result OR push_bit shift (byte AND 127)) p
        else Some (result OR push_bit shift byte, p)
      else None)"

definition GetVarint32PtrFallback :: "bytes \<Rightarrow> (u32 \<times> bytes) option" where
  "GetVarint32PtrFallback p = GetVarint32PtrFallback_loop 0 0 p"

definition GetVarint32Ptr :: "bytes \<Rightarrow> (u32 \<times> bytes) option" where
  "GetVarint32Ptr p =
     (case p of
        c # q \<Rightarrow> (let result = ucast c :: u32 in
                  if result AND 128 = 0 then Some (result, q) else GetVarint32PtrFallback p)
      | [] \<Rightarrow> GetVarint32PtrFallback p)"

fun GetVarint64Ptr_loop :: "nat \<Rightarrow> u64 \<Rightarrow> bytes \<Rightarrow> (u64 \<times> bytes) option" where
  "GetVarint64Ptr_loop shift result [] = None"
| "GetVarint64Ptr_loop shift result (c # p) =
     (if shift \<le> 63 then
        let byte = ucast c :: u64 in
        if byte AND 128 \<noteq> 0
        then GetVarint64Ptr_loop (shift + 7) (result OR push_bit shift (byte AND 127)) p
        else Some (result OR push_bit shift byte, p)
      else None)"

definition GetVarint64Ptr :: "bytes \<Rightarrow> (u64 \<times> bytes) option" where
  "GetVarint64Ptr p = GetVarint64Ptr_loop 0 0 p"

definition GetVarint32 :: "bytes \<Rightarrow> u32 option \<times> bytes" where
  "GetVarint32 input =
     (case GetVarint32Ptr input of None \<Rightarrow> (None, input) | Some (v, q) \<Rightarrow> (Some v, q))"

definition GetVarint64 :: "bytes \<Rightarrow> u64 option \<times> bytes" where
  "GetVarint64 input =
     (case GetVarint64Ptr input of None \<Rightarrow> (None, input) | Some (v, q) \<Rightarrow> (Some v, q))"

definition PutVarint32 :: "bytes \<Rightarrow> u32 \<Rightarrow> bytes" where
  "PutVarint32 dst v = dst @ EncodeVarint32 v"

definition PutVarint64 :: "bytes \<Rightarrow> u64 \<Rightarrow> bytes" where
  "PutVarint64 dst v = dst @ EncodeVarint64 v"

text \<open>The zigzag map between signed and unsigned 64-bit integers.\<close>

definition i64ToZigzag :: "u64 \<Rightarrow> u64" where
  "i64ToZigzag l = push_bit 1 l XOR signed_drop_bit 63 l"

definition zigzagToI64 :: "u64 \<Rightarrow> u64" where
  "zigzagToI64 n = drop_bit 1 n XOR - (n AND 1)"

definition PutVarsignedint64 :: "bytes \<Rightarrow> u64 \<Rightarrow> bytes" where
  "PutVarsignedint64 dst v = dst @ EncodeVarint64 (i64ToZigzag v)"

definition GetVarsignedint64Ptr :: "bytes \<Rightarrow> (u64 \<times> bytes) option" where
  "GetVarsignedint64Ptr p =
     (case GetVarint64Ptr p of None \<Rightarrow> None | Some (u, q) \<Rightarrow> Some (zigzagToI64 u, q))"

definition GetVarsignedint64 :: "bytes \<Rightarrow> u64 option \<times> bytes" where
  "GetVarsignedint64 input =
     (case GetVarsignedint64Ptr input of None \<Rightarrow> (None, input) | Some (v, q) \<Rightarrow> (Some v, q))"

text \<open>The combined writers fill one buffer and append it once.\<close>

definition PutVarint32Varint32 :: "bytes \<Rightarrow> u32 \<Rightarrow> u32 \<Rightarrow> bytes" where
  "PutVarint32Varint32 dst v1 v2 = dst @ (EncodeVarint32 v1 @ EncodeVarint32 v2)"

definition PutVarint32Varint32Varint32 :: "bytes \<Rightarrow> u32 \<Rightarrow> u32 \<Rightarrow> u32 \<Rightarrow> bytes" where
  "PutVarint32Varint32Varint32 dst v1 v2 v3 =
     dst @ (EncodeVarint32 v1 @ EncodeVarint32 v2 @ EncodeVarint32 v3)"

definition PutVarint64Varint64 :: "bytes \<Rightarrow> u64 \<Rightarrow> u64 \<Rightarrow> bytes" where
  "PutVarint64Varint64 dst v1 v2 = dst @ (EncodeVarint64 v1 @ EncodeVarint64 v2)"

definition PutVarint32Varint64 :: "bytes \<Rightarrow> u32 \<Rightarrow> u64 \<Rightarrow> bytes" where
  "PutVarint32Varint64 dst v1 v2 = dst @ (EncodeVarint32 v1 @ EncodeVarint64 v2)"

definition PutVarint32Varint32Varint64 :: "bytes \<Rightarrow> u32 \<Rightarrow> u32 \<Rightarrow> u64 \<Rightarrow> bytes" where
  "PutVarint32Varint32Varint64 dst v1 v2 v3 =
     dst @ (EncodeVarint32 v1 @ EncodeVarint32 v2 @ EncodeVarint64 v3)"

section \<open>Length-prefixed strings\<close>

definition PutLengthPrefixedSlice :: "bytes \<Rightarrow> bytes \<Rightarrow> bytes" where
  "PutLengthPrefixedSlice dst value = PutVarint32 dst (of_nat (length value)) @ value"

definition GetLengthPrefixedSlice :: "bytes \<Rightarrow> bytes option \<times> bytes" where
  "GetLengthPrefixedSlice input =
     (case GetVarint32 input of
        (None, rest) \<Rightarrow> (None, rest)
      | (Some len, rest) \<Rightarrow>
          if unat len \<le> length rest then (Some (take (unat len) rest), drop (unat len) rest)
          else (None, rest))"

text \<open>A string given in parts: the sizes are summed up first, then the parts are appended.\<close>

definition PutLengthPrefixedSliceParts :: "bytes \<Rightarrow> u64 \<Rightarrow> bytes list \<Rightarrow> bytes" where
  "PutLengthPrefixedSliceParts dst total_bytes slice_parts =
     (let total = fold (\<lambda>part t. t + of_nat (length part)) slice_parts total_bytes
      in fold (\<lambda>part d. d @ part) slice_parts (PutVarint32 dst (ucast total)))"

definition PutLengthPrefixedSlicePartsWithPadding ::
    "bytes \<Rightarrow> bytes list \<Rightarrow> u64 \<Rightarrow> bytes" where
  "PutLengthPrefixedSlicePartsWithPadding dst slice_parts pad_sz =
     PutLengthPrefixedSliceParts dst pad_sz slice_parts @ replicate (unat pad_sz) 0"

text \<open>\<^verbatim>\<open>GetSliceUntil\<close>: the bytes before the delimiter, which is skipped when it is there.\<close>

fun GetSliceUntil_loop :: "nat \<Rightarrow> bytes \<Rightarrow> byte \<Rightarrow> nat" where
  "GetSliceUntil_loop len [] delimiter = len"
| "GetSliceUntil_loop len (c # s) delimiter =
     (if c \<noteq> delimiter then GetSliceUntil_loop (len + 1) s delimiter else len)"

definition GetSliceUntil :: "bytes \<Rightarrow> byte \<Rightarrow> bytes \<times> bytes" where
  "GetSliceUntil input delimiter =
     (let len = GetSliceUntil_loop 0 input delimiter
      in (take len input, drop (len + (if len < length input then 1 else 0)) input))"

section \<open>The contract of an encoding\<close>

text \<open>
  What every client of an encoder relies on: the \<^verbatim>\<open>Put\<close> routine appends, and the \<^verbatim>\<open>Get\<close> routine
  reads back the value and leaves what followed it. \<open>dm\<close> is the set of values the encoding can
  carry (all of them, except that a length prefix has 32 bits).
\<close>

locale codec =
  fixes put :: "bytes \<Rightarrow> 'v \<Rightarrow> bytes"
    and get :: "bytes \<Rightarrow> 'v option \<times> bytes"
    and dm :: "'v \<Rightarrow> bool"
  assumes put_append: "put dst v = dst @ put [] v"
    and get_put: "dm v \<Longrightarrow> get (put [] v @ rest) = (Some v, rest)"
begin

lemma get_put_end: "dm v \<Longrightarrow> get (put [] v) = (Some v, [])"
  using get_put [of v "[]"] by simp

lemma put_prefix_free:
  assumes "dm v" and "dm w" and "put [] v @ r = put [] w @ s"
  shows "v = w \<and> r = s"
proof -
  have "(Some v, r) = get (put [] v @ r)" by (simp add: get_put assms(1))
  also have "\<dots> = get (put [] w @ s)" by (simp add: assms(3))
  also have "\<dots> = (Some w, s)" by (simp add: get_put assms(2))
  finally show ?thesis by simp
qed

lemma put_nonempty:
  assumes "dm v" and "get [] = (None, [])"
  shows "put [] v \<noteq> []"
proof
  assume "put [] v = []"
  with get_put_end [OF assms(1)] assms(2) show False by simp
qed

lemma put_length_mono: "length dst \<le> length (put dst v)"
  by (subst put_append) simp

end

section \<open>The encodings meet the contract\<close>

lemma DecodeFixed16_Encode [codec_simps]: "DecodeFixed16 (EncodeFixed16 v @ rest) = v"
proof (rule bit_word_eqI)
  fix n assume "n < LENGTH(16)"
  then consider "n < 8" | "8 \<le> n" "n < 16" by force
  then show "bit (DecodeFixed16 (EncodeFixed16 v @ rest)) n = bit v n"
    by cases (auto simp: EncodeFixed16_def DecodeFixed16_def bit_simps)
qed

lemma DecodeFixed32_Encode [codec_simps]: "DecodeFixed32 (EncodeFixed32 v @ rest) = v"
proof (rule bit_word_eqI)
  fix n assume "n < LENGTH(32)"
  then consider "n < 8" | "8 \<le> n" "n < 16" | "16 \<le> n" "n < 24" | "24 \<le> n" "n < 32" by force
  then show "bit (DecodeFixed32 (EncodeFixed32 v @ rest)) n = bit v n"
    by cases (auto simp: EncodeFixed32_def DecodeFixed32_def bit_simps)
qed

lemma EncodeFixed64_split:
  "EncodeFixed64 v = EncodeFixed32 (ucast v) @ EncodeFixed32 (ucast (drop_bit 32 v))"
proof -
  have lo: "(ucast (drop_bit k v) :: byte) = ucast (drop_bit k (ucast v :: u32))" if "k \<le> 24" for k
    using that by (intro bit_word_eqI) (auto simp: bit_simps)
  have hi: "(ucast (drop_bit (k + 32) v) :: byte) = ucast (drop_bit k (ucast (drop_bit 32 v) :: u32))"
    if "k \<le> 24" for k
    using that by (intro bit_word_eqI) (auto simp: bit_simps ac_simps)
  show ?thesis
    using lo [of 0] lo [of 8] lo [of 16] lo [of 24] hi [of 0] hi [of 8] hi [of 16] hi [of 24]
    by (simp add: EncodeFixed64_def EncodeFixed32_def)
qed

lemma length_EncodeFixed [len_simps, simp]:
  "length (EncodeFixed16 v) = 2" "length (EncodeFixed32 w) = 4" "length (EncodeFixed64 x) = 8"
  by (simp_all add: EncodeFixed16_def EncodeFixed32_def EncodeFixed64_def)

lemma word64_halves:
  "push_bit 32 (ucast (ucast (drop_bit 32 v) :: u32)) OR (ucast (ucast v :: u32) :: u64) = v"
  for v :: u64
proof (rule bit_word_eqI)
  fix n assume "n < LENGTH(64)"
  then consider "n < 32" | "32 \<le> n" "n < 64" by force
  then show "bit (push_bit 32 (ucast (ucast (drop_bit 32 v) :: u32)) OR (ucast (ucast v :: u32) :: u64)) n
             = bit v n"
    by cases (auto simp: bit_simps)
qed

lemma DecodeFixed64_Encode [codec_simps]: "DecodeFixed64 (EncodeFixed64 v @ rest) = v"
  by (simp add: DecodeFixed64_def EncodeFixed64_split DecodeFixed32_Encode word64_halves)

interpretation fixed16: codec PutFixed16 GetFixed16 "\<lambda>_. True"
  by unfold_locales (simp_all add: PutFixed16_def GetFixed16_def codec_simps)

interpretation fixed32: codec PutFixed32 GetFixed32 "\<lambda>_. True"
  by unfold_locales (simp_all add: PutFixed32_def GetFixed32_def codec_simps)

interpretation fixed64: codec PutFixed64 GetFixed64 "\<lambda>_. True"
  by unfold_locales (simp_all add: PutFixed64_def GetFixed64_def codec_simps)

subsection \<open>Varints\<close>

lemma VarintLength_loop_eq: "VarintLength_loop v len + 1 = len + length (EncodeVarint64 v)"
proof (induction v len rule: VarintLength_loop.induct)
  case (1 v len)
  show ?case
  proof (cases "v \<ge> 128")
    case True
    with "1.IH" show ?thesis
      by (simp add: VarintLength_loop.simps [of v] EncodeVarint64.simps [of v])
  next
    case False
    then show ?thesis
      by (simp add: VarintLength_loop.simps [of v] EncodeVarint64.simps [of v])
  qed
qed

text \<open>One byte of a varint splits off the low seven bits.\<close>

lemma varint_step:
  fixes v r :: "'a::len word"
  shows "(r OR push_bit s (v AND 127)) OR push_bit (s + 7) (drop_bit 7 v) = r OR push_bit s v"
proof (rule bit_word_eqI)
  fix n assume n: "n < LENGTH('a)"
  consider "n < s" | "s \<le> n" "n < s + 7" | "s + 7 \<le> n" by linarith
  then show "bit ((r OR push_bit s (v AND 127)) OR push_bit (s + 7) (drop_bit 7 v)) n
             = bit (r OR push_bit s v) n"
    using n by cases (auto simp: bit_simps)
qed

lemmas varint_step_simp = varint_step [unfolded push_bit_and]

lemma cont_byte64: "ucast (ucast ((v AND 127) OR 128 :: u64) :: byte) = (v AND 127) OR 128"
  for v :: u64
  by (rule bit_word_eqI) (auto simp: bit_simps)

lemma cont_bit: "((v AND 127) OR 128) AND 128 \<noteq> (0 :: u64)"
proof
  assume "((v AND 127) OR 128) AND 128 = (0 :: u64)"
  then have "bit (((v AND 127) OR 128) AND 128 :: u64) 7 = False" by simp
  then show False by (simp add: bit_simps)
qed

lemma cont_value: "((v AND 127) OR 128) AND 127 = (v AND 127 :: u64)"
  by (rule bit_word_eqI) (auto simp: bit_simps)

lemma small_byte64:
  assumes "\<not> 128 \<le> (v :: u64)"
  shows "ucast (ucast v :: byte) = v" and "v AND 128 = 0"
proof -
  have "unat v < 2 ^ 7" using assms by (simp add: word_le_nat_alt)
  then have b: "bit v n \<Longrightarrow> n < 7" for n
    using bit_less_exp [of v 7 n] by (cases "n < 7") simp_all
  show "ucast (ucast v :: byte) = v"
    by (rule bit_word_eqI) (auto simp: bit_simps dest: b)
  show "v AND 128 = 0"
    by (rule bit_word_eqI) (auto simp: bit_simps dest: b)
qed

lemma GetVarint64_loop_Encode:
  assumes "s \<le> 63" and "unat v < 2 ^ (64 - s)"
  shows "GetVarint64Ptr_loop s r (EncodeVarint64 v @ rest) = Some (r OR push_bit s v, rest)"
  using assms
proof (induction v arbitrary: s r rule: EncodeVarint64.induct)
  case (1 v)
  show ?case
  proof (cases "128 \<le> v")
    case True
    then have "2 ^ 7 < (2::nat) ^ (64 - s)"
      using "1.prems"(2) by (simp add: word_le_nat_alt)
    then have "7 < 64 - s" by (rule power_less_imp_less_exp [rotated]) simp
    then have s7: "s + 7 \<le> 63" by simp
    have pw: "(2::nat) ^ (64 - s) = 128 * 2 ^ (64 - (s + 7))"
    proof -
      have "64 - s = 7 + (64 - (s + 7))" using s7 by simp
      then show ?thesis by (simp only: power_add) simp
    qed
    have "unat (drop_bit 7 v) < 2 ^ (64 - (s + 7))"
      using "1.prems"(2) pw by (simp add: drop_bit_eq_div unat_div less_mult_imp_div_less mult.commute)
    from "1.IH" [OF True s7 this] show ?thesis
      using "1.prems"(1) True
      by (simp add: EncodeVarint64.simps [of v] cont_byte64 cont_bit cont_value varint_step_simp)
  next
    case False
    then show ?thesis
      using "1.prems"(1) by (simp add: EncodeVarint64.simps [of v] small_byte64)
  qed
qed

lemma byte_ucast_u64: "(ucast (ucast v :: u64) :: byte) = ucast v" for v :: u32
  by (rule bit_word_eqI) (auto simp: bit_simps dest: bit_imp_le_length)

lemma drop_bit_ucast_u64: "drop_bit k (ucast v :: u64) = ucast (drop_bit k v)" for v :: u32
  by (rule bit_word_eqI) (auto simp: bit_simps dest: bit_imp_le_length)

lemma or_and_ucast_u64: "(ucast ((ucast v AND 127) OR 128 :: u64) :: byte) = ucast (v OR 128)"
  for v :: u32
  by (rule bit_word_eqI) (auto simp: bit_simps dest: bit_imp_le_length)

lemma less_ucast_u64: "(128 \<le> (ucast v :: u64)) \<longleftrightarrow> 128 \<le> v" for v :: u32
  by (simp add: word_le_nat_alt unat_ucast_up)

lemma drop_bit_less_iff: "128 \<le> drop_bit k v \<longleftrightarrow> 2 ^ (k + 7) \<le> unat v" for v :: u32
  by (simp add: word_le_nat_alt unat_drop_bit_div power_add less_eq_div_iff_mult_less_eq
      mult.commute del: drop_bit_eq_div)

lemma Varint64_cont:
  "128 \<le> v \<Longrightarrow> EncodeVarint64 (ucast v) = ucast (v OR 128) # EncodeVarint64 (ucast (drop_bit 7 v))"
  for v :: u32
  by (simp add: EncodeVarint64.simps [of "ucast v"] less_ucast_u64 or_and_ucast_u64
      drop_bit_ucast_u64)

lemma Varint64_last: "\<not> 128 \<le> v \<Longrightarrow> EncodeVarint64 (ucast v) = [ucast v]" for v :: u32
  by (simp add: EncodeVarint64.simps [of "ucast v"] less_ucast_u64 byte_ucast_u64)

text \<open>The unrolled encoder computes the same bytes as the loop.\<close>

lemma EncodeVarint32_eq: "EncodeVarint32 v = EncodeVarint64 (ucast v)"
proof -
  have top: "\<not> 128 \<le> drop_bit 28 v"
    using unat_lt2p [of v] by (simp only: drop_bit_less_iff) simp
  have first: "128 \<le> v \<longleftrightarrow> 2 ^ 7 \<le> unat v" by (simp add: word_le_nat_alt)
  consider (1) "unat v < 2 ^ 7" | (2) "2 ^ 7 \<le> unat v" "unat v < 2 ^ 14"
    | (3) "2 ^ 14 \<le> unat v" "unat v < 2 ^ 21" | (4) "2 ^ 21 \<le> unat v" "unat v < 2 ^ 28"
    | (5) "2 ^ 28 \<le> unat v" by linarith
  then show ?thesis
    by cases (simp_all add: EncodeVarint32_def word_less_nat_alt Varint64_cont Varint64_last
        Varint64_last [OF top] drop_bit_less_iff first)
qed

lemma ucast_cont32:
  "(ucast (ucast ((v AND 127) OR 128 :: u64) :: byte) :: u32) = (ucast v AND 127) OR 128" for v :: u64
  by (rule bit_word_eqI) (auto simp: bit_simps)

lemma cont32: "((w AND 127) OR 128) AND 128 \<noteq> (0 :: u32)" "((w AND 127) OR 128) AND 127 = (w AND 127 :: u32)"
proof
  assume "((w AND 127) OR 128) AND 128 = (0 :: u32)"
  then have "bit (((w AND 127) OR 128) AND 128 :: u32) 7 = False" by simp
  then show False by (simp add: bit_simps)
next
  show "((w AND 127) OR 128) AND 127 = (w AND 127 :: u32)"
    by (rule bit_word_eqI) (auto simp: bit_simps)
qed

lemma small_byte32:
  fixes v :: u64
  assumes "\<not> 128 \<le> v"
  shows "(ucast (ucast v :: byte) :: u32) = ucast v" and "(ucast v :: u32) AND 128 = 0"
proof -
  have "unat v < 2 ^ 7" using assms by (simp add: word_le_nat_alt)
  then have b: "bit v n \<Longrightarrow> n < 7" for n
    using bit_less_exp [of v 7 n] by (cases "n < 7") simp_all
  show "(ucast (ucast v :: byte) :: u32) = ucast v"
    by (rule bit_word_eqI) (auto simp: bit_simps dest: b)
  show "(ucast v :: u32) AND 128 = 0"
    by (rule bit_word_eqI) (auto simp: bit_simps dest: b)
qed

lemma ucast_drop_bit7:
  fixes v :: u64
  assumes "unat v < 2 ^ 32"
  shows "(ucast (drop_bit 7 v) :: u32) = drop_bit 7 (ucast v)"
proof -
  have b: "bit v n \<Longrightarrow> n < 32" for n
    using bit_less_exp [OF assms, of n] by (cases "n < 32") simp_all
  show ?thesis by (rule bit_word_eqI) (auto simp: bit_simps dest: b)
qed

lemma GetVarint32_loop_Encode:
  fixes v :: u64
  assumes "7 dvd s" and "s \<le> 28" and "unat v < 2 ^ (32 - s)"
  shows "GetVarint32PtrFallback_loop s r (EncodeVarint64 v @ rest)
         = Some (r OR push_bit s (ucast v), rest)"
  using assms
proof (induction v arbitrary: s r rule: EncodeVarint64.induct)
  case (1 v)
  show ?case
  proof (cases "128 \<le> v")
    case True
    then have "2 ^ 7 < (2::nat) ^ (32 - s)"
      using "1.prems"(3) by (simp add: word_le_nat_alt)
    then have "7 < 32 - s" by (rule power_less_imp_less_exp [rotated]) simp
    moreover obtain k where k: "s = 7 * k" using "1.prems"(1) by (rule dvdE)
    ultimately have "k \<le> 3" by simp
    then have s7: "s + 7 \<le> 28" by (simp add: k)
    have d7: "7 dvd s + 7" using "1.prems"(1) by simp
    have pw: "(2::nat) ^ (32 - s) = 128 * 2 ^ (32 - (s + 7))"
    proof -
      have "32 - s = 7 + (32 - (s + 7))" using s7 by simp
      then show ?thesis by (simp only: power_add) simp
    qed
    have "unat (drop_bit 7 v) < 2 ^ (32 - (s + 7))"
      using "1.prems"(3) pw by (simp add: unat_drop_bit_div less_mult_imp_div_less mult.commute
          del: drop_bit_eq_div)
    note IH = "1.IH" [OF True d7 s7 this]
    have "(2::nat) ^ (32 - s) \<le> 2 ^ 32" by (rule power_increasing) simp_all
    then have v32: "unat v < 2 ^ 32" using "1.prems"(3) by linarith
    show ?thesis
      using "1.prems"(2) True IH
      by (simp add: EncodeVarint64.simps [of v] ucast_cont32 cont32 ucast_drop_bit7 [OF v32]
          varint_step_simp)
  next
    case False
    then show ?thesis
      using "1.prems"(2) by (simp add: EncodeVarint64.simps [of v] small_byte32)
  qed
qed

lemma GetVarint32Ptr_eq: "GetVarint32Ptr p = GetVarint32PtrFallback p"
  by (cases p) (simp_all add: GetVarint32Ptr_def GetVarint32PtrFallback_def Let_def)

interpretation varint32: codec PutVarint32 GetVarint32 "\<lambda>_. True"
proof
  fix dst rest :: bytes and v :: u32
  show "PutVarint32 dst v = dst @ PutVarint32 [] v"
    by (simp add: PutVarint32_def)
  have "unat (ucast v :: u64) < 2 ^ 32" using unat_lt2p [of v] by (simp add: unat_ucast_up)
  then have "GetVarint32PtrFallback_loop 0 0 (EncodeVarint64 (ucast v) @ rest)
             = Some (ucast (ucast v :: u64), rest)"
    by (subst GetVarint32_loop_Encode) simp_all
  moreover have "ucast (ucast v :: u64) = v" by (rule bit_word_eqI) (simp add: bit_simps)
  ultimately show "GetVarint32 (PutVarint32 [] v @ rest) = (Some v, rest)"
    by (simp add: PutVarint32_def GetVarint32_def GetVarint32Ptr_eq GetVarint32PtrFallback_def
        EncodeVarint32_eq)
qed

interpretation varint64: codec PutVarint64 GetVarint64 "\<lambda>_. True"
proof
  fix dst rest :: bytes and v :: u64
  show "PutVarint64 dst v = dst @ PutVarint64 [] v"
    by (simp add: PutVarint64_def)
  have "unat v < 2 ^ 64" using unsigned_less [of v] by simp
  then show "GetVarint64 (PutVarint64 [] v @ rest) = (Some v, rest)"
    by (simp add: PutVarint64_def GetVarint64_def GetVarint64Ptr_def GetVarint64_loop_Encode)
qed

subsection \<open>Length-prefixed strings\<close>

lemma PutLengthPrefixedSlice_Nil:
  "PutLengthPrefixedSlice [] v = EncodeVarint32 (of_nat (length v)) @ v"
  by (simp add: PutLengthPrefixedSlice_def PutVarint32_def)

interpretation slice: codec PutLengthPrefixedSlice GetLengthPrefixedSlice "\<lambda>v. length v < 2 ^ 32"
proof
  fix dst rest v :: bytes
  show "PutLengthPrefixedSlice dst v = dst @ PutLengthPrefixedSlice [] v"
    by (simp add: PutLengthPrefixedSlice_def PutVarint32_def)
  assume "length v < 2 ^ 32"
  moreover have "GetVarint32 (EncodeVarint32 (of_nat (length v)) @ v @ rest)
                 = (Some (of_nat (length v)), v @ rest)"
    using varint32.get_put [of "of_nat (length v)" "v @ rest"] by (simp add: PutVarint32_def)
  ultimately show "GetLengthPrefixedSlice (PutLengthPrefixedSlice [] v @ rest) = (Some v, rest)"
    by (simp add: PutLengthPrefixedSlice_Nil GetLengthPrefixedSlice_def unat_of_nat_small)
qed

subsection \<open>Zigzag integers\<close>

lemma bit_i64ToZigzag:
  "n < 64 \<Longrightarrow> bit (i64ToZigzag l) n \<longleftrightarrow> ((1 \<le> n \<and> bit l (n - 1)) \<noteq> bit l 63)"
  unfolding i64ToZigzag_def
  by (cases n) (simp_all only: bit_xor_iff bit_push_bit_iff bit_signed_drop_bit_iff, auto)

lemma zigzagToI64_i64ToZigzag [codec_simps]: "zigzagToI64 (i64ToZigzag l) = l"
proof (rule bit_word_eqI)
  have "- (i64ToZigzag l AND 1) = (if bit l 63 then - 1 else 0)"
    using bit_i64ToZigzag [of 0 l] by (simp add: and_one_eq bit_0 mod_2_eq_odd)
  moreover fix n assume "n < LENGTH(64)"
  ultimately show "bit (zigzagToI64 (i64ToZigzag l)) n = bit l n"
    using bit_i64ToZigzag [of "n + 1" l]
    by (cases "n = 63")
      (auto simp: zigzagToI64_def bit_xor_iff bit_drop_bit_eq bit_minus_1_iff
        dest: bit_imp_le_length)
qed

interpretation varsigned64: codec PutVarsignedint64 GetVarsignedint64 "\<lambda>_. True"
proof
  fix dst rest :: bytes and v :: u64
  show "PutVarsignedint64 dst v = dst @ PutVarsignedint64 [] v"
    by (simp add: PutVarsignedint64_def)
  have "GetVarint64Ptr (EncodeVarint64 (i64ToZigzag v) @ rest) = Some (i64ToZigzag v, rest)"
    using varint64.get_put [of "i64ToZigzag v" rest]
    by (simp add: PutVarint64_def GetVarint64_def split: option.splits prod.splits)
  then show "GetVarsignedint64 (PutVarsignedint64 [] v @ rest) = (Some v, rest)"
    by (simp add: PutVarsignedint64_def GetVarsignedint64_def GetVarsignedint64Ptr_def codec_simps)
qed

subsection \<open>Combined writers and lengths\<close>

lemmas combined_writers =
  PutVarint32Varint32_def PutVarint32Varint32Varint32_def PutVarint64Varint64_def
  PutVarint32Varint64_def PutVarint32Varint32Varint64_def

lemma VarintLength_EncodeVarint64: "VarintLength v = length (EncodeVarint64 v)"
  using VarintLength_loop_eq [of v 1] by (simp add: VarintLength_def)

lemma GetSliceUntil_loop_eq:
  "GetSliceUntil_loop n s c = n + length (takeWhile (\<lambda>x. x \<noteq> c) s)"
  by (induction s arbitrary: n) simp_all

lemma GetSliceUntil_eq:
  "GetSliceUntil s c = (takeWhile (\<lambda>x. x \<noteq> c) s, drop 1 (dropWhile (\<lambda>x. x \<noteq> c) s))"
proof -
  let ?n = "length (takeWhile (\<lambda>x. x \<noteq> c) s)"
  have "drop (?n + (if ?n < length s then 1 else 0)) s = drop 1 (drop ?n s)"
    by (cases "?n < length s") simp_all
  then show ?thesis
    by (simp add: GetSliceUntil_def GetSliceUntil_loop_eq Let_def takeWhile_eq_take [symmetric]
        dropWhile_eq_drop del: drop_drop)
qed

lemma fold_append_parts: "fold (\<lambda>part d. d @ part) ps d = d @ concat ps"
  by (induction ps arbitrary: d) simp_all

lemma fold_length_parts:
  "fold (\<lambda>part t. t + of_nat (length part)) ps t = t + (of_nat (length (concat ps)) :: u64)"
  by (induction ps arbitrary: t) simp_all

section \<open>Properties\<close>

text \<open>
  C23. A string handed over in parts is written behind a 32-bit length that is the sum of the
  sizes; reading it back gives the concatenation of the parts and leaves exactly the bytes that
  followed. The only limit is that the sum fits the length field.
\<close>

theorem slice_parts_roundtrip:
  assumes "length (concat parts) < 2 ^ 32"
  shows "GetLengthPrefixedSlice (PutLengthPrefixedSliceParts [] 0 parts @ rest)
         = (Some (concat parts), rest)"
proof -
  have "PutLengthPrefixedSliceParts [] 0 parts = PutLengthPrefixedSlice [] (concat parts)"
    by (simp add: PutLengthPrefixedSliceParts_def PutLengthPrefixedSlice_def Let_def
        fold_append_parts fold_length_parts ucast_of_nat_down)
  with assms show ?thesis by (simp add: slice.get_put)
qed

theorem slice_parts_roundtrip_witness:
  "GetLengthPrefixedSlice (PutLengthPrefixedSliceParts [] 0 [[1, 2], [], [3]] @ [9])
   = (Some [1, 2, 3], [9])"
  using slice_parts_roundtrip [of "[[1, 2], [], [3]]" "[9]"] by simp

text \<open>
  C24. The 32-bit varint encoder, unrolled over its five lengths, writes the bytes the 64-bit loop
  writes, and \<^verbatim>\<open>VarintLength\<close> is their number.
\<close>

theorem EncodeVarint32_unrolled:
  "EncodeVarint32 v = EncodeVarint64 (ucast v) \<and> length (EncodeVarint32 v) = VarintLength (ucast v)"
  by (simp add: EncodeVarint32_eq VarintLength_EncodeVarint64)

end
