(* ===== verification/Zone.thy ===== *)
theory Zone
  imports Zwal_Prelude "HOL-Library.Monad_Syntax"
begin

text \<open>
  One zone of the device (\<^verbatim>\<open>class Zone\<close> of \<^verbatim>\<open>zbd_zenfs.h\<close> and \<^verbatim>\<open>zbd_zenfs.cc\<close>) and the interface
  it drives, \<^verbatim>\<open>class ZonedBlockDeviceBackend\<close>.

  The virtual functions of the backend and the operations of the SZD once-log (the append-only log
  a write-ahead log is kept in) reach code outside the repository. They are the fields of a record
  of functions over a state \<open>'d\<close> of the outside world, which every operation takes and returns.
\<close>

section \<open>The backend\<close>

text \<open>
  A read returns data (the empty string at the end) or \<^verbatim>\<open>-1\<close>; \<open>EINTR\<close> is the only error number
  the code tells apart. A write and an append return the signed count of the C++ function.
  A once-log is named by a handle; \<open>szd_New\<close> takes the first and the last-plus-one zone number
  and the index of the write channel.
\<close>

datatype errno = EINTR | EOTHER

datatype read_result = RData bytes | RErr errno

record 'd backend =
  block_sz :: u32
  zone_sz :: u64
  nr_zones :: u32
  be_Reset :: "u64 \<Rightarrow> 'd \<Rightarrow> (status \<times> bool \<times> u64) \<times> 'd"
  be_Finish :: "u64 \<Rightarrow> 'd \<Rightarrow> status \<times> 'd"
  be_Close :: "u64 \<Rightarrow> 'd \<Rightarrow> status \<times> 'd"
  be_Read :: "nat \<Rightarrow> u64 \<Rightarrow> bool \<Rightarrow> 'd \<Rightarrow> read_result \<times> 'd"
  be_Write :: "bytes \<Rightarrow> u64 \<Rightarrow> 'd \<Rightarrow> int \<times> 'd"
  be_Append :: "bytes \<Rightarrow> nat \<Rightarrow> 'd \<Rightarrow> int \<times> 'd"
  be_AppendSync :: "nat \<Rightarrow> 'd \<Rightarrow> int \<times> 'd"
  be_InvalidateCache :: "u64 \<Rightarrow> u64 \<Rightarrow> 'd \<Rightarrow> int \<times> 'd"
  szd_New :: "u64 \<Rightarrow> u64 \<Rightarrow> nat \<Rightarrow> 'd \<Rightarrow> nat \<times> 'd"
  szd_Delete :: "nat \<Rightarrow> 'd \<Rightarrow> 'd"
  szd_RecoverPointers :: "nat \<Rightarrow> 'd \<Rightarrow> bool \<times> 'd"
  szd_Sync :: "nat \<Rightarrow> 'd \<Rightarrow> bool \<times> 'd"
  szd_ResetAll :: "nat \<Rightarrow> 'd \<Rightarrow> bool \<times> 'd"
  szd_Read :: "nat \<Rightarrow> u64 \<Rightarrow> nat \<Rightarrow> 'd \<Rightarrow> bytes option \<times> 'd"
  szd_GetWriteHead :: "nat \<Rightarrow> 'd \<Rightarrow> u64"
  szd_GetWriteTail :: "nat \<Rightarrow> 'd \<Rightarrow> u64"

section \<open>Zones\<close>

text \<open>\<^verbatim>\<open>capacity\<close> is what is left; \<^verbatim>\<open>used_capacity\<close> counts the bytes live extents occupy.\<close>

record Zone =
  z_busy :: bool
  z_start :: u64
  z_capacity :: u64
  z_max_capacity :: u64
  z_wp :: u64
  z_lifetime :: u32
  z_used_capacity :: u64

text \<open>\<^verbatim>\<open>Env::WriteLifeTimeHint\<close>.\<close>

definition WLTH_NOT_SET :: u32 where "WLTH_NOT_SET = 0"
definition WLTH_NONE :: u32 where "WLTH_NONE = 1"
definition WLTH_SHORT :: u32 where "WLTH_SHORT = 2"
definition WLTH_MEDIUM :: u32 where "WLTH_MEDIUM = 3"
definition WLTH_LONG :: u32 where "WLTH_LONG = 4"
definition WLTH_EXTREME :: u32 where "WLTH_EXTREME = 5"

lemmas lifetime_defs =
  WLTH_NOT_SET_def WLTH_NONE_def WLTH_SHORT_def WLTH_MEDIUM_def WLTH_LONG_def WLTH_EXTREME_def

text \<open>What the constructor reads of the zone report, entry \<open>idx\<close>.\<close>

record 'z zone_report =
  ZoneIsSwr :: "'z list \<Rightarrow> nat \<Rightarrow> bool"
  ZoneIsOffline :: "'z list \<Rightarrow> nat \<Rightarrow> bool"
  ZoneIsWritable :: "'z list \<Rightarrow> nat \<Rightarrow> bool"
  ZoneIsActive :: "'z list \<Rightarrow> nat \<Rightarrow> bool"
  ZoneIsOpen :: "'z list \<Rightarrow> nat \<Rightarrow> bool"
  ZoneStart :: "'z list \<Rightarrow> nat \<Rightarrow> u64"
  ZoneMaxCapacity :: "'z list \<Rightarrow> nat \<Rightarrow> u64"
  ZoneWp :: "'z list \<Rightarrow> nat \<Rightarrow> u64"

definition newZone :: "'z zone_report \<Rightarrow> 'z list \<Rightarrow> nat \<Rightarrow> Zone" where
  "newZone rep zones idx =
     (let start = ZoneStart rep zones idx; max_capacity = ZoneMaxCapacity rep zones idx;
          wp = ZoneWp rep zones idx
      in \<lparr> z_busy = False, z_start = start,
           z_capacity =
             (if ZoneIsWritable rep zones idx then max_capacity - (wp - start) else 0),
           z_max_capacity = max_capacity, z_wp = wp, z_lifetime = WLTH_NOT_SET,
           z_used_capacity = 0 \<rparr>)"

definition IsUsed :: "Zone \<Rightarrow> bool" where "IsUsed z \<longleftrightarrow> z_used_capacity z > 0"
definition IsFull :: "Zone \<Rightarrow> bool" where "IsFull z \<longleftrightarrow> z_capacity z = 0"
definition IsEmpty :: "Zone \<Rightarrow> bool" where "IsEmpty z \<longleftrightarrow> z_wp z = z_start z"

definition GetZoneNr :: "'d backend \<Rightarrow> Zone \<Rightarrow> u64" where
  "GetZoneNr be z = z_start z div zone_sz be"

text \<open>
  \<^verbatim>\<open>Acquire\<close> and \<^verbatim>\<open>Release\<close> are compare-and-swap on the busy flag: they report whether they
  changed it.
\<close>

definition Acquire :: "Zone \<Rightarrow> bool \<times> Zone" where
  "Acquire z = (if z_busy z then (False, z) else (True, z\<lparr>z_busy := True\<rparr>))"

definition Release :: "Zone \<Rightarrow> bool \<times> Zone" where
  "Release z = (if z_busy z then (True, z\<lparr>z_busy := False\<rparr>) else (False, z))"

definition CheckRelease :: "Zone \<Rightarrow> status \<times> Zone" where
  "CheckRelease z = (case Release z of (r, z') \<Rightarrow> if \<not> r then (Corruption, z') else (OK, z'))"

definition Zone_Reset :: "'d backend \<Rightarrow> Zone \<Rightarrow> 'd \<Rightarrow> status \<times> Zone \<times> 'd" where
  "Zone_Reset be z d =
     (case be_Reset be (z_start z) d of
        ((ios, offline, max_capacity), d') \<Rightarrow>
          if \<not> status_eq ios OK then (ios, z, d')
          else
            let z1 = (if offline then z\<lparr>z_capacity := 0\<rparr>
                      else z\<lparr>z_max_capacity := max_capacity, z_capacity := max_capacity\<rparr>)
            in (OK, z1\<lparr>z_wp := z_start z, z_lifetime := WLTH_NOT_SET\<rparr>, d'))"

definition Zone_Finish :: "'d backend \<Rightarrow> Zone \<Rightarrow> 'd \<Rightarrow> status \<times> Zone \<times> 'd" where
  "Zone_Finish be z d =
     (case be_Finish be (z_start z) d of
        (ios, d') \<Rightarrow>
          if \<not> status_eq ios OK then (ios, z, d')
          else (OK, z\<lparr>z_capacity := 0, z_wp := z_start z + zone_sz be\<rparr>, d'))"

definition Zone_Close :: "'d backend \<Rightarrow> Zone \<Rightarrow> 'd \<Rightarrow> status \<times> Zone \<times> 'd" where
  "Zone_Close be z d =
     (if \<not> (IsEmpty z \<or> IsFull z) then
        case be_Close be (z_start z) d of
          (ios, d') \<Rightarrow> if \<not> status_eq ios OK then (ios, z, d') else (OK, z, d')
      else (OK, z, d))"

text \<open>
  \<^verbatim>\<open>Zone::Append\<close>. The third component is the device's \<^verbatim>\<open>bytes_written_\<close> counter, which the zone
  adds to. A backend that writes nothing makes the loop spin, one that claims more than it was
  given makes it read past the buffer; both are \<open>None\<close>.
\<close>

definition advance :: "int \<Rightarrow> Zone \<Rightarrow> Zone" where
  "advance ret z = z\<lparr>z_wp := z_wp z + of_int ret, z_capacity := z_capacity z - of_int ret\<rparr>"

partial_function (option) Zone_Append_loop ::
    "'d backend \<Rightarrow> bytes \<Rightarrow> Zone \<Rightarrow> u64 \<Rightarrow> 'd \<Rightarrow> (status \<times> Zone \<times> u64 \<times> 'd) option" where
  "Zone_Append_loop be data z written d =
     (if data = [] then Some (OK, z, written, d)
      else
        let rd = be_Write be data (z_wp z) d; ret = fst rd in
        if ret < 0 then Some (IOError, z, written, snd rd)
        else if nat ret > length data then None
        else Zone_Append_loop be (drop (nat ret) data) (advance ret z)
               (written + of_int ret) (snd rd))"

definition Zone_Append ::
    "'d backend \<Rightarrow> bytes \<Rightarrow> Zone \<Rightarrow> u64 \<Rightarrow> 'd \<Rightarrow> (status \<times> Zone \<times> u64 \<times> 'd) option" where
  "Zone_Append be data z written d =
     (if z_capacity z < of_nat (length data) then Some (NoSpace, z, written, d)
      else Zone_Append_loop be data z written d)"

text \<open>\<^verbatim>\<open>Zone::ZoneAppend\<close> hands the data to the once-log and accounts for it at once.\<close>

definition ZoneAppend ::
    "'d backend \<Rightarrow> bytes \<Rightarrow> nat \<Rightarrow> Zone \<Rightarrow> u64 \<Rightarrow> 'd \<Rightarrow> status \<times> Zone \<times> u64 \<times> 'd" where
  "ZoneAppend be data wal z written d =
     (let size = of_nat (length data) :: u64 in
      if z_capacity z < size then (NoSpace, z, written, d)
      else case be_Append be data wal d of
        (ret, d') \<Rightarrow>
          if ret < 0 then (IOError, z, written, d')
          else (OK, z\<lparr>z_wp := z_wp z + size, z_capacity := z_capacity z - size\<rparr>,
                written + size, d'))"

section \<open>Laws\<close>

subsection \<open>The busy flag\<close>

lemma Acquire_simps [simp]:
  "\<not> z_busy z \<Longrightarrow> Acquire z = (True, z\<lparr>z_busy := True\<rparr>)"
  "z_busy z \<Longrightarrow> Acquire z = (False, z)"
  by (simp_all add: Acquire_def)

lemma CheckRelease_simps [simp]:
  "z_busy z \<Longrightarrow> CheckRelease z = (OK, z\<lparr>z_busy := False\<rparr>)"
  "\<not> z_busy z \<Longrightarrow> CheckRelease z = (Corruption, z)"
  by (simp_all add: CheckRelease_def Release_def)

lemma Zone_busy_cancel [simp]: "\<not> z_busy z \<Longrightarrow> z\<lparr>z_busy := False\<rparr> = z"
  by (cases z) simp

lemma zone_predicates_busy [simp]:
  "IsUsed (z\<lparr>z_busy := b\<rparr>) = IsUsed z" "IsFull (z\<lparr>z_busy := b\<rparr>) = IsFull z"
  "IsEmpty (z\<lparr>z_busy := b\<rparr>) = IsEmpty z" "GetZoneNr be (z\<lparr>z_busy := b\<rparr>) = GetZoneNr be z"
  by (simp_all add: IsUsed_def IsFull_def IsEmpty_def GetZoneNr_def)

subsection \<open>Well-formed zones\<close>

text \<open>
  The write pointer is inside the zone, and the remaining capacity is what the write pointer has
  left of the maximal one; a zone that was finished, or is not writable, has none.
\<close>

definition zone_wf :: "'d backend \<Rightarrow> Zone \<Rightarrow> bool" where
  "zone_wf be z \<longleftrightarrow>
     unat (z_start z) + unat (zone_sz be) < 2 ^ 64 \<and>
     unat (z_start z) \<le> unat (z_wp z) \<and>
     unat (z_wp z) \<le> unat (z_start z) + unat (zone_sz be) \<and>
     unat (z_max_capacity z) \<le> unat (zone_sz be) \<and>
     (z_capacity z = 0 \<or>
      unat (z_capacity z) + (unat (z_wp z) - unat (z_start z)) = unat (z_max_capacity z))"

lemma zone_wf_busy [simp]: "zone_wf be (z\<lparr>z_busy := b\<rparr>) = zone_wf be z"
  by (simp add: zone_wf_def)

lemma zone_wf_used [simp]: "zone_wf be (z\<lparr>z_used_capacity := u\<rparr>) = zone_wf be z"
  by (simp add: zone_wf_def)

lemma zone_wf_lifetime [simp]: "zone_wf be (z\<lparr>z_lifetime := l\<rparr>) = zone_wf be z"
  by (simp add: zone_wf_def)

lemma zone_wf_capacity_le: "zone_wf be z \<Longrightarrow> unat (z_capacity z) \<le> unat (zone_sz be)"
  by (auto simp: zone_wf_def)

lemma zone_wf_wp_capacity:
  "zone_wf be z \<Longrightarrow> unat (z_wp z) + unat (z_capacity z) \<le> unat (z_start z) + unat (zone_sz be)"
  by (auto simp: zone_wf_def)

lemma zone_wf_advance:
  assumes "zone_wf be z" and "n \<le> unat (z_capacity z)"
  shows "zone_wf be (z\<lparr>z_wp := z_wp z + of_nat n, z_capacity := z_capacity z - of_nat n\<rparr>)"
    and "unat (z_wp z + of_nat n) = unat (z_wp z) + n"
    and "unat (z_capacity z - of_nat n) = unat (z_capacity z) - n"
proof -
  have n: "unat (of_nat n :: u64) = n"
    using assms(2) unat_lt2p [of "z_capacity z"] by (simp add: unat_of_nat_small)
  show wp: "unat (z_wp z + of_nat n) = unat (z_wp z) + n"
    using zone_wf_wp_capacity [OF assms(1)] assms n
    by (subst unat_add_no_wrap) (auto simp: zone_wf_def)
  show cap: "unat (z_capacity z - of_nat n) = unat (z_capacity z) - n"
    using assms(2) n by (simp add: unat_diff_le word_le_nat_alt)
  have zero: "z_capacity z = 0 \<longleftrightarrow> unat (z_capacity z) = 0" by (simp add: unat_eq_0)
  show "zone_wf be (z\<lparr>z_wp := z_wp z + of_nat n, z_capacity := z_capacity z - of_nat n\<rparr>)"
    using zone_wf_wp_capacity [OF assms(1)] assms(1) assms(2) wp cap zero
    by (auto simp: zone_wf_def)
qed

lemma advance_nat: "advance (int n) z = z\<lparr>z_wp := z_wp z + of_nat n, z_capacity := z_capacity z - of_nat n\<rparr>"
  by (simp add: advance_def)

lemma zone_wf_newZone:
  assumes "unat (ZoneStart rep zs i) + unat (zone_sz be) < 2 ^ 64"
    and "ZoneStart rep zs i \<le> ZoneWp rep zs i"
    and "unat (ZoneWp rep zs i) \<le> unat (ZoneStart rep zs i) + unat (zone_sz be)"
    and "ZoneMaxCapacity rep zs i \<le> zone_sz be"
    and "ZoneIsWritable rep zs i \<Longrightarrow>
         unat (ZoneWp rep zs i) - unat (ZoneStart rep zs i) \<le> unat (ZoneMaxCapacity rep zs i)"
  shows "zone_wf be (newZone rep zs i)"
  using assms
  by (auto simp: zone_wf_def newZone_def Let_def word_le_nat_alt unat_diff_le)

lemma zone_wf_Reset:
  assumes "zone_wf be z" and "Zone_Reset be z d = (s, z', d')"
    and "\<And>off cap e. be_Reset be (z_start z) d = ((OK, off, cap), e) \<Longrightarrow> cap \<le> zone_sz be"
  shows "zone_wf be z'"
  using assms
  by (auto simp: zone_wf_def Zone_Reset_def Let_def word_le_nat_alt
      split: prod.splits if_splits)

lemma zone_wf_Finish:
  assumes "zone_wf be z" and "Zone_Finish be z d = (s, z', d')"
  shows "zone_wf be z'"
  using assms
  by (auto simp: zone_wf_def Zone_Finish_def unat_add_no_wrap split: prod.splits if_splits)

subsection \<open>Appending\<close>

text \<open>What POSIX promises of a write: at most what was given, at the position that was given.\<close>

definition blit :: "(u64 \<Rightarrow> byte) \<Rightarrow> u64 \<Rightarrow> bytes \<Rightarrow> u64 \<Rightarrow> byte" where
  "blit c pos data a =
     (if unat pos \<le> unat a \<and> unat a < unat pos + length data
      then data ! (unat a - unat pos) else c a)"

definition write_law :: "'d backend \<Rightarrow> ('d \<Rightarrow> u64 \<Rightarrow> byte) \<Rightarrow> bool" where
  "write_law be content \<longleftrightarrow>
     (\<forall>data pos d. let (ret, d') = be_Write be data pos d in
        ret \<le> int (length data) \<and>
        (0 \<le> ret \<longrightarrow> content d' = blit (content d) pos (take (nat ret) data)))"

text \<open>And that a write of something that does not fail writes something.\<close>

definition write_progress :: "'d backend \<Rightarrow> bool" where
  "write_progress be \<longleftrightarrow> (\<forall>data pos d. data \<noteq> [] \<longrightarrow> fst (be_Write be data pos d) \<noteq> 0)"

lemma write_lawD:
  assumes "write_law be content" and "be_Write be data pos d = (ret, d')"
  shows "ret \<le> int (length data)"
    and "0 \<le> ret \<Longrightarrow> content d' = blit (content d) pos (take (nat ret) data)"
  using assms by (auto simp: write_law_def dest!: spec [of _ data] spec [of _ pos] spec [of _ d])

lemma blit_append:
  assumes "unat (pos + of_nat (length xs)) = unat pos + length xs"
  shows "blit (blit c pos xs) (pos + of_nat (length xs)) ys = blit c pos (xs @ ys)"
  using assms by (auto simp: blit_def fun_eq_iff nth_append)

lemma blit_Nil [simp]: "blit c pos [] = c"
  by (auto simp: blit_def fun_eq_iff)

text \<open>The outcome of an append: \<open>n\<close> bytes went to the device, all of them on success.\<close>

definition append_outcome ::
    "('d \<Rightarrow> u64 \<Rightarrow> byte) \<Rightarrow> bytes \<Rightarrow> Zone \<Rightarrow> u64 \<Rightarrow> 'd \<Rightarrow> status \<Rightarrow> Zone \<Rightarrow> u64 \<Rightarrow> 'd \<Rightarrow> bool" where
  "append_outcome content data z w d s z' w' d' \<longleftrightarrow>
     (\<exists>n \<le> length data. z' = advance (int n) z \<and> w' = w + of_nat n \<and>
        (s = OK \<and> n = length data \<and> content d' = blit (content d) (z_wp z) data \<or> s = IOError))"

lemma advance_advance: "advance (int m) (advance (int n) z) = advance (int (n + m)) z"
  by (simp add: advance_def)

lemma append_outcome_step:
  assumes "append_outcome content (drop n data) (advance (int n) z) (w + of_nat n) e s z' w' d'"
    and "n \<le> length data"
    and "content e = blit (content d) (z_wp z) (take n data)"
    and "unat (z_wp z + of_nat n) = unat (z_wp z) + n"
  shows "append_outcome content data z w d s z' w' d'"
proof -
  obtain m where m: "m \<le> length (drop n data)" "z' = advance (int m) (advance (int n) z)"
      "w' = w + of_nat n + of_nat m"
      "s = OK \<and> m = length (drop n data) \<and>
       content d' = blit (content e) (z_wp (advance (int n) z)) (drop n data) \<or> s = IOError"
    using assms(1) unfolding append_outcome_def by blast
  have "blit (content e) (z_wp (advance (int n) z)) (drop n data) = blit (content d) (z_wp z) data"
    using blit_append [of "z_wp z" "take n data" "content d" "drop n data"] assms(2-4)
    by (simp add: advance_nat)
  then show ?thesis
    unfolding append_outcome_def using m assms(2)
    by (intro exI [of _ "n + m"]) (auto simp: advance_advance add.assoc)
qed

lemma Zone_Append_loop_spec:
  assumes "write_law be content" and "write_progress be"
    and "zone_wf be z" and "length data \<le> unat (z_capacity z)"
  shows "\<exists>s z' w' d'. Zone_Append_loop be data z w d = Some (s, z', w', d') \<and>
           append_outcome content data z w d s z' w' d'"
  using assms(3,4)
proof (induction data arbitrary: z w d rule: length_induct)
  case (1 data)
  show ?case
  proof (cases "data = []")
    case True
    then show ?thesis
      by (simp add: Zone_Append_loop.simps append_outcome_def advance_def)
  next
    case False
    obtain ret e where wr: "be_Write be data (z_wp z) d = (ret, e)" by force
    show ?thesis
    proof (cases "ret < 0")
      case True
      with False wr show ?thesis
        by (simp add: Zone_Append_loop.simps append_outcome_def Let_def exI [of _ "0::nat"]
            advance_def)
    next
      case pos: False
      define n where "n = nat ret"
      have n: "ret = int n" "n \<le> length data" "0 < n"
        and cont: "content e = blit (content d) (z_wp z) (take n data)"
        using pos write_lawD [OF assms(1) wr] assms(2) False wr
        by (auto simp: n_def write_progress_def nat_le_iff dest: spec [of _ data] intro: gr0I)
          (metis fst_conv less_le not_less)
      have nc: "n \<le> unat (z_capacity z)" using n(2) "1.prems"(2) by simp
      note adv = zone_wf_advance [OF "1.prems"(1) nc]
      have "\<exists>s z' w' d'. Zone_Append_loop be (drop n data) (advance (int n) z) (w + of_nat n) e
                = Some (s, z', w', d') \<and>
              append_outcome content (drop n data) (advance (int n) z) (w + of_nat n) e s z' w' d'"
        using "1.IH" False n(3) adv(1,3) "1.prems"(2) by (simp add: advance_nat)
      then show ?thesis
        using append_outcome_step [of content n data z w e _ _ _ _ d] False pos n(1,2) wr cont adv(2)
        by (fastforce simp: Zone_Append_loop.simps [of be data] Let_def)
    qed
  qed
qed

lemma Zone_Append_spec:
  assumes "write_law be content" and "write_progress be"
    and "zone_wf be z" and "length data < 2 ^ 32"
  shows "\<exists>s z' w' d'. Zone_Append be data z w d = Some (s, z', w', d') \<and> zone_wf be z' \<and>
           w' - w = z_wp z' - z_wp z \<and>
           (if unat (z_capacity z) < length data then s = NoSpace \<and> z' = z \<and> d' = d
            else s = OK \<and> content d' = blit (content d) (z_wp z) data \<and>
                 unat (z_wp z') = unat (z_wp z) + length data \<and>
                 unat (z_capacity z') = unat (z_capacity z) - length data
                 \<or> s = IOError)"
proof (cases "unat (z_capacity z) < length data")
  case True
  with assms show ?thesis
    by (simp add: Zone_Append_def word_less_nat_alt unat_of_nat_small)
next
  case False
  then have fits: "length data \<le> unat (z_capacity z)" by simp
  have sz: "\<not> z_capacity z < of_nat (length data)"
    using fits assms(4) by (simp add: word_less_nat_alt unat_of_nat_small)
  obtain s z' w' d' where res: "Zone_Append_loop be data z w d = Some (s, z', w', d')"
      and out: "append_outcome content data z w d s z' w' d'"
    using Zone_Append_loop_spec [OF assms(1-3) fits] by blast
  obtain n where n: "n \<le> length data" "z' = advance (int n) z" "w' = w + of_nat n"
      "s = OK \<and> n = length data \<and> content d' = blit (content d) (z_wp z) data \<or> s = IOError"
    using out unfolding append_outcome_def by blast
  have "n \<le> unat (z_capacity z)" using n(1) fits by simp
  note adv = zone_wf_advance [OF assms(3) this]
  show ?thesis
    using False sz res n adv by (auto simp: Zone_Append_def advance_nat)
qed

subsection \<open>A device in memory\<close>

text \<open>An instance of the backend that keeps the bytes in memory, for concrete evaluations.\<close>

definition ram_backend :: "u64 \<Rightarrow> (u64 \<Rightarrow> byte) backend" where
  "ram_backend zsz =
     \<lparr> block_sz = 4096, zone_sz = zsz, nr_zones = 32,
       be_Reset = (\<lambda>start d. ((OK, False, zsz), d)), be_Finish = (\<lambda>start d. (OK, d)),
       be_Close = (\<lambda>start d. (OK, d)),
       be_Read = (\<lambda>n pos direct d. (RData (map (\<lambda>i. d (pos + of_nat i)) [0..<n]), d)),
       be_Write = (\<lambda>data pos d. (int (length data), blit d pos data)),
       be_Append = (\<lambda>data wal d. (int (length data), d)), be_AppendSync = (\<lambda>wal d. (0, d)),
       be_InvalidateCache = (\<lambda>pos size d. (0, d)), szd_New = (\<lambda>a b c d. (0, d)),
       szd_Delete = (\<lambda>wal d. d), szd_RecoverPointers = (\<lambda>wal d. (True, d)),
       szd_Sync = (\<lambda>wal d. (True, d)), szd_ResetAll = (\<lambda>wal d. (True, d)),
       szd_Read = (\<lambda>wal lba n d. (Some (map (\<lambda>i. d (lba * 4096 + of_nat i)) [0..<n]), d)),
       szd_GetWriteHead = (\<lambda>wal d. 0), szd_GetWriteTail = (\<lambda>wal d. 0) \<rparr>"

lemma ram_backend_write:
  "write_law (ram_backend zsz) (\<lambda>d. d)" "write_progress (ram_backend zsz)"
  by (simp_all add: write_law_def write_progress_def ram_backend_def)

section \<open>Properties\<close>



end
