(* ===== verification/Zbd.thy ===== *)
theory Zbd
  imports Zone
begin

text \<open>
  The zoned block device (\<^verbatim>\<open>class ZonedBlockDevice\<close> of \<^verbatim>\<open>zbd_zenfs.h\<close> and \<^verbatim>\<open>zbd_zenfs.cc\<close>): zone
  lists, open- and active-zone tokens, the allocators of I/O, metadata and WAL zones, and the
  sweeps that reset and finish zones.

  Loops over a zone list that look at one zone at a time recurse over the list; loops that hold on
  to an earlier zone recurse over the indices. A \<^verbatim>\<open>Zone*\<close> is the list it lives in and its index.
\<close>

section \<open>State\<close>

record 'd zbd =
  io_zones :: "Zone list"
  wal_zones :: "Zone list"
  meta_zones :: "Zone list"
  finish_threshold :: u32
  bytes_written :: u64
  gc_bytes_written :: u64
  active_io_zones :: int
  open_io_zones :: int
  zone_deferred_status :: status
  migrating :: bool
  max_nr_active_io_zones :: u32
  max_nr_open_io_zones :: u32
  write_channel_ptr :: nat
  world :: 'd

datatype zref = IoZ nat | WalZ nat | MetaZ nat

primrec zone_at :: "'d zbd \<Rightarrow> zref \<Rightarrow> Zone" where
  "zone_at dev (IoZ i) = io_zones dev ! i"
| "zone_at dev (WalZ i) = wal_zones dev ! i"
| "zone_at dev (MetaZ i) = meta_zones dev ! i"

primrec put_zone :: "zref \<Rightarrow> Zone \<Rightarrow> 'd zbd \<Rightarrow> 'd zbd" where
  "put_zone (IoZ i) z dev = dev\<lparr>io_zones := (io_zones dev)[i := z]\<rparr>"
| "put_zone (WalZ i) z dev = dev\<lparr>wal_zones := (wal_zones dev)[i := z]\<rparr>"
| "put_zone (MetaZ i) z dev = dev\<lparr>meta_zones := (meta_zones dev)[i := z]\<rparr>"

primrec valid_ref :: "'d zbd \<Rightarrow> zref \<Rightarrow> bool" where
  "valid_ref dev (IoZ i) \<longleftrightarrow> i < length (io_zones dev)"
| "valid_ref dev (WalZ i) \<longleftrightarrow> i < length (wal_zones dev)"
| "valid_ref dev (MetaZ i) \<longleftrightarrow> i < length (meta_zones dev)"

definition ZENFS_META_ZONES :: nat where "ZENFS_META_ZONES = 3"
definition ZENFS_FLAKY_ZONES :: nat where "ZENFS_FLAKY_ZONES = 1"
definition ZENFS_WAL_ZONES :: nat where "ZENFS_WAL_ZONES = 15"
definition ZENFS_ZONES_FOREACH_WAL :: nat where "ZENFS_ZONES_FOREACH_WAL = 3"
definition ZENFS_MIN_ZONES :: u32 where "ZENFS_MIN_ZONES = 32"
definition write_channel_size :: nat where "write_channel_size = 8"

lemmas zone_consts =
  ZENFS_META_ZONES_def ZENFS_FLAKY_ZONES_def ZENFS_WAL_ZONES_def ZENFS_ZONES_FOREACH_WAL_def

section \<open>Lookup\<close>

definition in_zone :: "'d backend \<Rightarrow> u64 \<Rightarrow> Zone \<Rightarrow> bool" where
  "in_zone be offset z \<longleftrightarrow> z_start z \<le> offset \<and> offset < z_start z + zone_sz be"

fun find_zone :: "'d backend \<Rightarrow> u64 \<Rightarrow> Zone list \<Rightarrow> nat \<Rightarrow> nat option" where
  "find_zone be offset [] i = None"
| "find_zone be offset (z # zs) i =
     (if in_zone be offset z then Some i else find_zone be offset zs (i + 1))"

definition GetIOZone :: "'d backend \<Rightarrow> 'd zbd \<Rightarrow> u64 \<Rightarrow> zref option" where
  "GetIOZone be dev offset =
     (case find_zone be offset (io_zones dev) 0 of
        Some i \<Rightarrow> Some (IoZ i)
      | None \<Rightarrow> (case find_zone be offset (wal_zones dev) 0 of
                   Some i \<Rightarrow> Some (WalZ i) | None \<Rightarrow> None))"

text \<open>The next write channel, taken by a compare-and-swap loop on \<^verbatim>\<open>write_channel_ptr_\<close>.\<close>

definition next_channel :: "'d zbd \<Rightarrow> nat \<times> 'd zbd" where
  "next_channel dev =
     (let next_ind = (write_channel_ptr dev + 1) mod write_channel_size
      in (next_ind, dev\<lparr>write_channel_ptr := next_ind\<rparr>))"

text \<open>\<^verbatim>\<open>new SZDOnceLog\<close> over the zones from \<open>lo\<close> to below \<open>hi\<close>, on the next channel.\<close>

definition new_oncelog :: "'d backend \<Rightarrow> u64 \<Rightarrow> u64 \<Rightarrow> 'd zbd \<Rightarrow> nat \<times> 'd zbd" where
  "new_oncelog be lo hi dev =
     (case next_channel dev of (ch, dev1) \<Rightarrow>
      (case szd_New be lo hi ch (world dev1) of (h, d) \<Rightarrow> (h, dev1\<lparr>world := d\<rparr>)))"

definition RecoverPointers :: "'d backend \<Rightarrow> nat \<Rightarrow> 'd zbd \<Rightarrow> status \<times> 'd zbd" where
  "RecoverPointers be h dev =
     (case szd_RecoverPointers be h (world dev) of
        (success, d) \<Rightarrow> ((if success then OK else IOError), dev\<lparr>world := d\<rparr>))"

text \<open>\<^verbatim>\<open>GetWAL\<close> looks at every third WAL zone only.\<close>

fun GetWAL_loop :: "'d backend \<Rightarrow> u64 \<Rightarrow> Zone list \<Rightarrow> nat \<Rightarrow> nat option" where
  "GetWAL_loop be offset [] i = None"
| "GetWAL_loop be offset (z # zs) i =
     (if in_zone be offset z then Some i else GetWAL_loop be offset (drop 2 zs) (i + 3))"

definition GetWAL :: "'d backend \<Rightarrow> u64 \<Rightarrow> 'd zbd \<Rightarrow> nat option \<times> 'd zbd" where
  "GetWAL be offset dev =
     (case GetWAL_loop be offset (wal_zones dev) 0 of
        None \<Rightarrow> (None, dev)
      | Some i \<Rightarrow>
          (case new_oncelog be (of_nat (i + ZENFS_META_ZONES + ZENFS_FLAKY_ZONES))
                  (of_nat (i + ZENFS_META_ZONES + ZENFS_ZONES_FOREACH_WAL + ZENFS_FLAKY_ZONES)) dev
           of (h, dev1) \<Rightarrow> (Some h, snd (RecoverPointers be h dev1))))"

section \<open>Space accounting\<close>

definition GetFreeSpace :: "'d zbd \<Rightarrow> u64" where
  "GetFreeSpace dev = fold (\<lambda>z free. free + z_capacity z) (io_zones dev) 0"

definition GetUsedSpace :: "'d zbd \<Rightarrow> u64" where
  "GetUsedSpace dev = fold (\<lambda>z used. used + z_used_capacity z) (io_zones dev) 0"

definition GetReclaimableSpace :: "'d zbd \<Rightarrow> u64" where
  "GetReclaimableSpace dev =
     fold (\<lambda>z r. if IsFull z then r + (z_max_capacity z - z_used_capacity z) else r)
       (io_zones dev) 0"

text \<open>The numbers \<^verbatim>\<open>LogZoneStats\<close> prints: used MB, reclaimable MB, average percentage, active.\<close>

fun LogZoneStats_loop :: "Zone list \<Rightarrow> u64 \<times> u64 \<times> u64 \<times> u64 \<Rightarrow> u64 \<times> u64 \<times> u64 \<times> u64" where
  "LogZoneStats_loop [] acc = acc"
| "LogZoneStats_loop (z # zs) (used, recl, recl_max, active) =
     LogZoneStats_loop zs
       (used + z_used_capacity z,
        (if z_used_capacity z \<noteq> 0 then recl + (z_max_capacity z - z_used_capacity z) else recl),
        (if z_used_capacity z \<noteq> 0 then recl_max + z_max_capacity z else recl_max),
        (if \<not> (IsFull z \<or> IsEmpty z) then active + 1 else active))"

definition LogZoneStats :: "'d zbd \<Rightarrow> u64 \<times> u64 \<times> u64 \<times> u64 \<times> int \<times> int" where
  "LogZoneStats dev =
     (case LogZoneStats_loop (io_zones dev) (0, 0, 0, 0) of (used, recl, recl_max, active) \<Rightarrow>
        let recl_max' = (if recl_max = 0 then 1 else recl_max); MB = 1024 * 1024
        in (used div MB, recl div MB, 100 * recl div recl_max', active,
            active_io_zones dev, open_io_zones dev))"

record ZBDSnapshot =
  free_space :: u64
  used_space :: u64
  reclaimable_space :: u64

definition newZBDSnapshot :: "'d zbd \<Rightarrow> ZBDSnapshot" where
  "newZBDSnapshot dev = \<lparr> free_space = GetFreeSpace dev, used_space = GetUsedSpace dev,
     reclaimable_space = GetReclaimableSpace dev \<rparr>"

record ZoneSnapshot =
  zs_start :: u64
  zs_wp :: u64
  zs_capacity :: u64
  zs_used_capacity :: u64
  zs_max_capacity :: u64

definition newZoneSnapshot :: "Zone \<Rightarrow> ZoneSnapshot" where
  "newZoneSnapshot z = \<lparr> zs_start = z_start z, zs_wp = z_wp z, zs_capacity = z_capacity z,
     zs_used_capacity = z_used_capacity z, zs_max_capacity = z_max_capacity z \<rparr>"

definition GetZoneSnapshot :: "'d zbd \<Rightarrow> ZoneSnapshot list" where
  "GetZoneSnapshot dev = map newZoneSnapshot (io_zones dev)"

definition AddBytesWritten :: "u64 \<Rightarrow> 'd zbd \<Rightarrow> 'd zbd" where
  "AddBytesWritten n dev = dev\<lparr>bytes_written := bytes_written dev + n\<rparr>"

definition AddGCBytesWritten :: "u64 \<Rightarrow> 'd zbd \<Rightarrow> 'd zbd" where
  "AddGCBytesWritten n dev = dev\<lparr>gc_bytes_written := gc_bytes_written dev + n\<rparr>"

definition GetUserBytesWritten :: "'d zbd \<Rightarrow> u64" where
  "GetUserBytesWritten dev = bytes_written dev - gc_bytes_written dev"

section \<open>Tokens and deferred errors\<close>

text \<open>
  \<^verbatim>\<open>WaitForOpenIOZoneToken\<close> returns once an open token is free; \<open>None\<close> is the state in which the
  caller is kept waiting. The limit is computed in unsigned 32-bit arithmetic.
\<close>

definition WaitForOpenIOZoneToken :: "bool \<Rightarrow> 'd zbd \<Rightarrow> 'd zbd option" where
  "WaitForOpenIOZoneToken prioritized dev =
     (let allocator_open_limit =
            (if prioritized then uint (max_nr_open_io_zones dev)
             else uint (max_nr_open_io_zones dev - 1))
      in if open_io_zones dev < allocator_open_limit
         then Some (dev\<lparr>open_io_zones := open_io_zones dev + 1\<rparr>) else None)"

definition GetActiveIOZoneTokenIfAvailable :: "'d zbd \<Rightarrow> bool \<times> 'd zbd" where
  "GetActiveIOZoneTokenIfAvailable dev =
     (if active_io_zones dev < uint (max_nr_active_io_zones dev)
      then (True, dev\<lparr>active_io_zones := active_io_zones dev + 1\<rparr>) else (False, dev))"

definition PutOpenIOZoneToken :: "'d zbd \<Rightarrow> 'd zbd" where
  "PutOpenIOZoneToken dev = dev\<lparr>open_io_zones := open_io_zones dev - 1\<rparr>"

definition PutActiveIOZoneToken :: "'d zbd \<Rightarrow> 'd zbd" where
  "PutActiveIOZoneToken dev = dev\<lparr>active_io_zones := active_io_zones dev - 1\<rparr>"

definition GetZoneDeferredStatus :: "'d zbd \<Rightarrow> status" where
  "GetZoneDeferredStatus dev = zone_deferred_status dev"

definition SetZoneDeferredStatus :: "status \<Rightarrow> 'd zbd \<Rightarrow> 'd zbd" where
  "SetZoneDeferredStatus s dev =
     (if \<not> ok (zone_deferred_status dev) then dev\<lparr>zone_deferred_status := s\<rparr> else dev)"

section \<open>Sweeps over the zones\<close>

text \<open>\<^verbatim>\<open>AllocateMetaZone\<close>: a used zone that was acquired on the way is not released.\<close>

fun AllocateMetaZone_loop ::
    "'d backend \<Rightarrow> Zone list \<Rightarrow> nat \<Rightarrow> 'd \<Rightarrow> status \<times> nat option \<times> Zone list \<times> 'd" where
  "AllocateMetaZone_loop be [] i d = (NoSpace, None, [], d)"
| "AllocateMetaZone_loop be (z # zs) i d =
     (case Acquire z of
        (True, z1) \<Rightarrow>
          if \<not> IsUsed z1 then
            (case (if \<not> IsEmpty z1 then Zone_Reset be z1 d else (OK, z1, d)) of
               (rs, z2, d2) \<Rightarrow>
                 if \<not> ok rs then
                   (case CheckRelease z2 of
                      (s, z3) \<Rightarrow>
                        if \<not> ok s then (s, None, z3 # zs, d2)
                        else case AllocateMetaZone_loop be zs (i + 1) d2 of
                          (s', r, zs', d3) \<Rightarrow> (s', r, z3 # zs', d3))
                 else (OK, Some i, z2 # zs, d2))
          else (case AllocateMetaZone_loop be zs (i + 1) d of
                  (s', r, zs', d3) \<Rightarrow> (s', r, z1 # zs', d3))
      | (False, z1) \<Rightarrow>
          (case AllocateMetaZone_loop be zs (i + 1) d of
             (s', r, zs', d3) \<Rightarrow> (s', r, z1 # zs', d3)))"

definition AllocateMetaZone :: "'d backend \<Rightarrow> 'd zbd \<Rightarrow> status \<times> zref option \<times> 'd zbd" where
  "AllocateMetaZone be dev =
     (case AllocateMetaZone_loop be (meta_zones dev) 0 (world dev) of
        (s, r, zs, d) \<Rightarrow> (s, map_option MetaZ r, dev\<lparr>meta_zones := zs, world := d\<rparr>))"

text \<open>
  \<^verbatim>\<open>ReleaseUnusedWALZones\<close> looks at the first \<^verbatim>\<open>ZENFS_WAL_ZONES\<close> entries, whether they are there or
  not; the status is that of the last release.
\<close>

fun ReleaseUnusedWALZones_loop ::
    "nat \<Rightarrow> Zone list \<Rightarrow> status \<Rightarrow> int \<Rightarrow> (status \<times> Zone list \<times> int) option" where
  "ReleaseUnusedWALZones_loop 0 zs s active = Some (s, zs, active)"
| "ReleaseUnusedWALZones_loop (Suc n) [] s active = None"
| "ReleaseUnusedWALZones_loop (Suc n) (z # zs) s active =
     (case Acquire z of
        (True, z1) \<Rightarrow>
          (let release = \<not> IsEmpty z1 \<and> \<not> IsUsed z1;
               z2 = (if release then z1\<lparr>z_capacity := z_max_capacity z1, z_wp := z_start z1\<rparr>
                     else z1);
               active' = (if release \<and> \<not> IsFull z1 then active - 1 else active)
           in case CheckRelease z2 of
                (s', z3) \<Rightarrow>
                  map_option (\<lambda>(s'', zs', a). (s'', z3 # zs', a))
                    (ReleaseUnusedWALZones_loop n zs s' active'))
      | (False, z1) \<Rightarrow>
          map_option (\<lambda>(s'', zs', a). (s'', z1 # zs', a))
            (ReleaseUnusedWALZones_loop n zs s active))"

definition ReleaseUnusedWALZones :: "'d zbd \<Rightarrow> (status \<times> 'd zbd) option" where
  "ReleaseUnusedWALZones dev =
     map_option (\<lambda>(s, zs, a). (s, dev\<lparr>wal_zones := zs, active_io_zones := a\<rparr>))
       (ReleaseUnusedWALZones_loop ZENFS_WAL_ZONES (wal_zones dev) OK (active_io_zones dev))"

fun ResetUnusedIOZones_loop ::
    "'d backend \<Rightarrow> Zone list \<Rightarrow> int \<Rightarrow> 'd \<Rightarrow> status \<times> Zone list \<times> int \<times> 'd" where
  "ResetUnusedIOZones_loop be [] active d = (OK, [], active, d)"
| "ResetUnusedIOZones_loop be (z # zs) active d =
     (case Acquire z of
        (True, z1) \<Rightarrow>
          if \<not> IsEmpty z1 \<and> \<not> IsUsed z1 then
            (case Zone_Reset be z1 d of (reset_status, z2, d2) \<Rightarrow>
             (case CheckRelease z2 of (release_status, z3) \<Rightarrow>
                if \<not> ok reset_status then (reset_status, z3 # zs, active, d2)
                else if \<not> ok release_status then (release_status, z3 # zs, active, d2)
                else case ResetUnusedIOZones_loop be zs
                            (if \<not> IsFull z1 then active - 1 else active) d2 of
                  (s, zs', active', d3) \<Rightarrow> (s, z3 # zs', active', d3)))
          else
            (case CheckRelease z1 of (release_status, z2) \<Rightarrow>
               if \<not> ok release_status then (release_status, z2 # zs, active, d)
               else case ResetUnusedIOZones_loop be zs active d of
                 (s, zs', active', d3) \<Rightarrow> (s, z2 # zs', active', d3))
      | (False, z1) \<Rightarrow>
          (case ResetUnusedIOZones_loop be zs active d of
             (s, zs', active', d3) \<Rightarrow> (s, z1 # zs', active', d3)))"

definition ResetUnusedIOZones :: "'d backend \<Rightarrow> 'd zbd \<Rightarrow> status \<times> 'd zbd" where
  "ResetUnusedIOZones be dev =
     (case ResetUnusedIOZones_loop be (io_zones dev) (active_io_zones dev) (world dev) of
        (s, zs, a, d) \<Rightarrow> (s, dev\<lparr>io_zones := zs, active_io_zones := a, world := d\<rparr>))"

text \<open>\<^verbatim>\<open>ApplyFinishThreshold\<close>: the percentage is computed in 64-bit arithmetic.\<close>

fun ApplyFinishThreshold_loop ::
    "'d backend \<Rightarrow> u32 \<Rightarrow> Zone list \<Rightarrow> int \<Rightarrow> 'd \<Rightarrow> status \<times> Zone list \<times> int \<times> 'd" where
  "ApplyFinishThreshold_loop be th [] active d = (OK, [], active, d)"
| "ApplyFinishThreshold_loop be th (z # zs) active d =
     (case Acquire z of
        (True, z1) \<Rightarrow>
          (let within = z_capacity z1 < z_max_capacity z1 * ucast th div 100 in
           if \<not> (IsEmpty z1 \<or> IsFull z1) \<and> within then
             (case Zone_Finish be z1 d of (s, z2, d2) \<Rightarrow>
                if \<not> ok s then (s, snd (Release z2) # zs, active, d2)
                else (case CheckRelease z2 of (s', z3) \<Rightarrow>
                        if \<not> ok s' then (s', z3 # zs, active, d2)
                        else case ApplyFinishThreshold_loop be th zs (active - 1) d2 of
                          (s'', zs', active', d3) \<Rightarrow> (s'', z3 # zs', active', d3)))
           else
             (case CheckRelease z1 of (s', z3) \<Rightarrow>
                if \<not> ok s' then (s', z3 # zs, active, d)
                else case ApplyFinishThreshold_loop be th zs active d of
                  (s'', zs', active', d3) \<Rightarrow> (s'', z3 # zs', active', d3)))
      | (False, z1) \<Rightarrow>
          (case ApplyFinishThreshold_loop be th zs active d of
             (s'', zs', active', d3) \<Rightarrow> (s'', z1 # zs', active', d3)))"

definition ApplyFinishThreshold :: "'d backend \<Rightarrow> 'd zbd \<Rightarrow> status \<times> 'd zbd" where
  "ApplyFinishThreshold be dev =
     (if finish_threshold dev = 0 then (OK, dev)
      else case ApplyFinishThreshold_loop be (finish_threshold dev) (io_zones dev)
                  (active_io_zones dev) (world dev) of
        (s, zs, a, d) \<Rightarrow> (s, dev\<lparr>io_zones := zs, active_io_zones := a, world := d\<rparr>))"

section \<open>What a sweep keeps\<close>

text \<open>
  A zone counts against the active-zone limit of the device while it is neither empty nor full.
  The difference between the token counter and the number of such zones is the number of tokens
  held for zones that are about to be written; it is what the sweeps must not change.
\<close>

definition is_active :: "Zone \<Rightarrow> bool" where
  "is_active z \<longleftrightarrow> \<not> IsEmpty z \<and> \<not> IsFull z"

definition active_cnt :: "Zone list \<Rightarrow> int" where
  "active_cnt zs = (\<Sum>z\<leftarrow>zs. if is_active z then 1 else 0)"

lemma active_cnt_simps [simp]:
  "active_cnt [] = 0" "active_cnt (z # zs) = (if is_active z then 1 else 0) + active_cnt zs"
  by (simp_all add: active_cnt_def)

lemma is_active_busy [simp]: "is_active (z\<lparr>z_busy := b\<rparr>) = is_active z"
  by (simp add: is_active_def)

definition zone_kept :: "Zone \<Rightarrow> Zone \<Rightarrow> bool" where
  "zone_kept z z' \<longleftrightarrow>
     z_start z' = z_start z \<and> z_busy z' = z_busy z \<and> z_used_capacity z' = z_used_capacity z \<and>
     (z_busy z \<longrightarrow> z' = z)"

lemma zone_kept_refl [simp, intro]: "zone_kept z z"
  by (simp add: zone_kept_def)

lemma zones_kept_refl [simp, intro]: "list_all2 zone_kept zs zs"
  by (simp add: list.rel_refl)

lemma zones_kept_trans:
  "list_all2 zone_kept xs ys \<Longrightarrow> list_all2 zone_kept ys zs \<Longrightarrow> list_all2 zone_kept xs zs"
  by (erule (1) list_all2_trans [rotated]) (auto simp: zone_kept_def)

text \<open>
  A sweep treats the zones one after the other: each is replaced by one it may become, the token
  counter follows, and the sweep stops with an error or goes on, having reached its goal there.
\<close>

locale zone_sweep =
  fixes sweep :: "Zone list \<Rightarrow> int \<Rightarrow> 'd \<Rightarrow> status \<times> Zone list \<times> int \<times> 'd"
    and may :: "Zone \<Rightarrow> Zone \<Rightarrow> bool"
    and goal :: "Zone \<Rightarrow> bool"
  assumes nil: "sweep [] a d = (OK, [], a, d)"
    and step: "sweep (z # zs) a d = (s, zs', a', d') \<Longrightarrow>
       \<exists>z' a1 d1 zs1. zs' = z' # zs1 \<and> may z z' \<and>
         a1 - active_cnt [z'] = a - active_cnt [z] \<and>
         (s \<noteq> OK \<and> zs1 = zs \<and> a' = a1 \<or> goal z' \<and> sweep zs a1 d1 = (s, zs1, a', d'))"
    and may_kept: "may z z' \<Longrightarrow> zone_kept z z'"
    and may_refl: "may z z"
begin

lemma run:
  assumes "sweep zs a d = (s, zs', a', d')"
  shows "a' - active_cnt zs' = a - active_cnt zs \<and> list_all2 may zs zs' \<and>
         (s = OK \<longrightarrow> list_all goal zs')"
  using assms
proof (induction zs arbitrary: a d zs')
  case Nil
  then show ?case by (simp add: nil)
next
  case (Cons z zs)
  obtain z' a1 d1 zs1 where z': "zs' = z' # zs1" "may z z'"
      "a1 - active_cnt [z'] = a - active_cnt [z]"
      and rest: "s \<noteq> OK \<and> zs1 = zs \<and> a' = a1 \<or> goal z' \<and> sweep zs a1 d1 = (s, zs1, a', d')"
    using step [OF Cons.prems] by blast
  have "a' - active_cnt zs1 = a1 - active_cnt zs \<and> list_all2 may zs zs1 \<and>
        (s = OK \<longrightarrow> goal z' \<and> list_all goal zs1)"
    using rest Cons.IH by (auto simp: may_refl intro: list.rel_refl)
  with z' show ?case by simp
qed

lemmas balance = run [THEN conjunct1]
lemmas changes = run [THEN conjunct2, THEN conjunct1]
lemmas reached = run [THEN conjunct2, THEN conjunct2, rule_format]

lemma keeps: "sweep zs a d = (s, zs', a', d') \<Longrightarrow> list_all2 zone_kept zs zs'"
  by (drule changes) (auto elim: list_all2_mono intro: may_kept)

lemma sweep_length: "sweep zs a d = (s, zs', a', d') \<Longrightarrow> length zs' = length zs"
  by (drule keeps) (simp add: list_all2_lengthD)

lemma sweep_nth:
  "sweep zs a d = (s, zs', a', d') \<Longrightarrow> i < length zs \<Longrightarrow> may (zs ! i) (zs' ! i)"
  by (drule changes) (simp add: list_all2_conv_all_nth)

lemma sweep_goal:
  "sweep zs a d = (OK, zs', a', d') \<Longrightarrow> i < length zs' \<Longrightarrow> goal (zs' ! i)"
  by (drule reached) (simp_all add: list_all_length)

end

lemma Zone_Reset_shape:
  assumes "Zone_Reset be z d = (s, z', d')"
  shows "z_start z' = z_start z" "z_busy z' = z_busy z" "z_used_capacity z' = z_used_capacity z"
    and "s = OK \<Longrightarrow> IsEmpty z'" and "s \<noteq> OK \<Longrightarrow> z' = z"
  using assms by (auto simp: Zone_Reset_def Let_def IsEmpty_def split: prod.splits if_splits)

lemma Zone_Finish_shape:
  assumes "Zone_Finish be z d = (s, z', d')"
  shows "z_start z' = z_start z" "z_busy z' = z_busy z" "z_used_capacity z' = z_used_capacity z"
    and "s = OK \<Longrightarrow> IsFull z'" and "s \<noteq> OK \<Longrightarrow> z' = z"
  using assms by (auto simp: Zone_Finish_def Let_def IsFull_def split: prod.splits if_splits)

text \<open>What resetting unused zones may do to a zone, and finishing nearly full ones.\<close>

definition reset_may :: "Zone \<Rightarrow> Zone \<Rightarrow> bool" where
  "reset_may z z' \<longleftrightarrow> zone_kept z z' \<and> (z' = z \<or> \<not> IsUsed z \<and> \<not> IsEmpty z \<and> IsEmpty z')"

definition finish_may :: "Zone \<Rightarrow> Zone \<Rightarrow> bool" where
  "finish_may z z' \<longleftrightarrow> zone_kept z z' \<and> (z' = z \<or> is_active z \<and> IsFull z')"

definition below_threshold :: "u32 \<Rightarrow> Zone \<Rightarrow> bool" where
  "below_threshold th z \<longleftrightarrow> z_capacity z < z_max_capacity z * ucast th div 100"

interpretation reset_unused: zone_sweep "ResetUnusedIOZones_loop be" reset_may
    "\<lambda>z. z_busy z \<or> IsUsed z \<or> IsEmpty z"
  for be :: "'d backend"
proof
  fix z zs a and d :: 'd and s zs' a' d'
  assume run: "ResetUnusedIOZones_loop be (z # zs) a d = (s, zs', a', d')"
  obtain rs z2 d2 where R: "Zone_Reset be (z\<lparr>z_busy := True\<rparr>) d = (rs, z2, d2)"
    using prod_cases3 by blast
  note shape = Zone_Reset_shape [OF R]
  show "\<exists>z' a1 d1 zs1. zs' = z' # zs1 \<and> reset_may z z' \<and>
         a1 - active_cnt [z'] = a - active_cnt [z] \<and>
         (s \<noteq> OK \<and> zs1 = zs \<and> a' = a1 \<or>
          (z_busy z' \<or> IsUsed z' \<or> IsEmpty z') \<and>
          ResetUnusedIOZones_loop be zs a1 d1 = (s, zs1, a', d'))"
  proof (cases "z_busy z \<or> IsEmpty z \<or> IsUsed z")
    case True
    then have "\<exists>zs1. zs' = z # zs1 \<and> ResetUnusedIOZones_loop be zs a d = (s, zs1, a', d')"
      using run by (cases "z_busy z") (auto split: prod.splits if_splits)
    moreover have "reset_may z z" by (simp add: reset_may_def)
    ultimately show ?thesis using True by blast
  next
    case False
    define z' a1 where "z' = z2\<lparr>z_busy := False\<rparr>"
      and "a1 = (if rs = OK \<and> \<not> IsFull z then a - 1 else a)"
    have kept: "reset_may z z'"
      using shape False
      by (cases "rs = OK") (auto simp: z'_def reset_may_def zone_kept_def is_active_def)
    have bal: "a1 - active_cnt [z'] = a - active_cnt [z]"
      using shape False by (cases "rs = OK") (auto simp: z'_def a1_def is_active_def)
    have "\<exists>zs1. zs' = z' # zs1 \<and> (s \<noteq> OK \<and> zs1 = zs \<and> a' = a1 \<or>
            IsEmpty z' \<and> ResetUnusedIOZones_loop be zs a1 d2 = (s, zs1, a', d'))"
      using run False R shape by (auto simp: z'_def a1_def split: prod.splits if_splits)
    with kept bal show ?thesis by blast
  qed
qed (simp_all add: reset_may_def)

interpretation apply_finish: zone_sweep "ApplyFinishThreshold_loop be th" finish_may
    "\<lambda>z. z_busy z \<or> \<not> is_active z \<or> \<not> below_threshold th z"
  for be :: "'d backend" and th
proof
  fix z zs a and d :: 'd and s zs' a' d'
  assume run: "ApplyFinishThreshold_loop be th (z # zs) a d = (s, zs', a', d')"
  obtain rs z2 d2 where R: "Zone_Finish be (z\<lparr>z_busy := True\<rparr>) d = (rs, z2, d2)"
    using prod_cases3 by blast
  note shape = Zone_Finish_shape [OF R]
  show "\<exists>z' a1 d1 zs1. zs' = z' # zs1 \<and> finish_may z z' \<and>
         a1 - active_cnt [z'] = a - active_cnt [z] \<and>
         (s \<noteq> OK \<and> zs1 = zs \<and> a' = a1 \<or>
          (z_busy z' \<or> \<not> is_active z' \<or> \<not> below_threshold th z') \<and>
          ApplyFinishThreshold_loop be th zs a1 d1 = (s, zs1, a', d'))"
  proof (cases "z_busy z \<or> \<not> is_active z \<or> \<not> below_threshold th z")
    case True
    then have "\<exists>zs1. zs' = z # zs1 \<and> ApplyFinishThreshold_loop be th zs a d = (s, zs1, a', d')"
      using run
      by (cases "z_busy z") (auto simp: is_active_def below_threshold_def Let_def
          split: prod.splits if_splits)
    moreover have "finish_may z z" by (simp add: finish_may_def)
    ultimately show ?thesis using True by blast
  next
    case False
    define z' a1 where "z' = z2\<lparr>z_busy := False\<rparr>" and "a1 = (if rs = OK then a - 1 else a)"
    have kept: "finish_may z z'"
      using shape False
      by (cases "rs = OK") (auto simp: z'_def finish_may_def zone_kept_def is_active_def)
    have bal: "a1 - active_cnt [z'] = a - active_cnt [z]"
      using shape False by (cases "rs = OK") (auto simp: z'_def a1_def is_active_def)
    have "\<exists>zs1. zs' = z' # zs1 \<and> (s \<noteq> OK \<and> zs1 = zs \<and> a' = a1 \<or>
            \<not> is_active z' \<and> ApplyFinishThreshold_loop be th zs a1 d2 = (s, zs1, a', d'))"
      using run False R shape
      by (auto simp: z'_def a1_def Release_def is_active_def below_threshold_def
          split: prod.splits if_splits)
    with kept bal show ?thesis by blast
  qed
qed (simp_all add: finish_may_def)

section \<open>Properties\<close>

text \<open>
  C13. \<^verbatim>\<open>ResetUnusedIOZones\<close> never touches a zone that is busy or holds live data, whatever the
  backend answers; it gives back one active token for every zone it takes out of the active state,
  so the tokens not covered by an active zone stay the same; and when it succeeds every idle zone
  without live data is empty.
\<close>

theorem ResetUnusedIOZones_safe:
  assumes "ResetUnusedIOZones be dev = (s, dev')"
  shows "length (io_zones dev') = length (io_zones dev) \<and>
         active_io_zones dev' - active_cnt (io_zones dev')
           = active_io_zones dev - active_cnt (io_zones dev) \<and>
         (\<forall>i < length (io_zones dev).
            (z_busy (io_zones dev ! i) \<or> IsUsed (io_zones dev ! i)
               \<longrightarrow> io_zones dev' ! i = io_zones dev ! i) \<and>
            (s = OK \<and> \<not> z_busy (io_zones dev ! i) \<and> \<not> IsUsed (io_zones dev ! i)
               \<longrightarrow> IsEmpty (io_zones dev' ! i)))"
proof -
  obtain zs a d where run: "ResetUnusedIOZones_loop be (io_zones dev) (active_io_zones dev)
        (world dev) = (s, zs, a, d)"
      and dev': "dev' = dev\<lparr>io_zones := zs, active_io_zones := a, world := d\<rparr>"
    using assms by (auto simp: ResetUnusedIOZones_def split: prod.splits)
  have "reset_may (io_zones dev ! i) (zs ! i)" if "i < length (io_zones dev)" for i
    using reset_unused.sweep_nth [OF run that] .
  then show ?thesis
    using reset_unused.balance [OF run] reset_unused.sweep_length [OF run]
      reset_unused.sweep_goal [of be "io_zones dev" "active_io_zones dev" "world dev" zs a d] run
    by (fastforce simp: dev' reset_may_def zone_kept_def IsUsed_def)
qed

text \<open>A device with one zone that holds live data and one that does not.\<close>

definition two_zone_dev :: "(u64 \<Rightarrow> byte) zbd" where
  "two_zone_dev =
     (let z = \<lparr> z_busy = False, z_start = 0, z_capacity = 4096, z_max_capacity = 8192, z_wp = 4096,
                z_lifetime = WLTH_MEDIUM, z_used_capacity = 4096 \<rparr>
      in \<lparr> io_zones = [z, z\<lparr>z_start := 8192, z_wp := 12288, z_used_capacity := 0\<rparr>], wal_zones = [],
           meta_zones = [], finish_threshold = 0, bytes_written = 0, gc_bytes_written = 0,
           active_io_zones = 2, open_io_zones = 0, zone_deferred_status = OK, migrating = False,
           max_nr_active_io_zones = 12, max_nr_open_io_zones = 12, write_channel_ptr = 0,
           world = (\<lambda>_. 0) \<rparr>)"

theorem ResetUnusedIOZones_safe_witness:
  "active_io_zones (snd (ResetUnusedIOZones (ram_backend 8192) two_zone_dev)) = 1 \<and>
   io_zones (snd (ResetUnusedIOZones (ram_backend 8192) two_zone_dev)) ! 0
     = io_zones two_zone_dev ! 0"
proof -
  obtain s dev' where run: "ResetUnusedIOZones (ram_backend 8192) two_zone_dev = (s, dev')"
    by force
  have "active_io_zones dev' = 1"
    using run
    by (auto simp: two_zone_dev_def ResetUnusedIOZones_def Zone_Reset_def ram_backend_def
        IsEmpty_def IsUsed_def IsFull_def)
  then show ?thesis
    using ResetUnusedIOZones_safe [OF run] run
    by (simp add: two_zone_dev_def IsUsed_def Let_def)
qed

end
