(* ===== verification/Zbd_Alloc.thy ===== *)
theory Zbd_Alloc
  imports Zbd
begin

text \<open>
  The allocators of \<^verbatim>\<open>zbd_zenfs.cc\<close>: life-time matching, finishing the cheapest zone, allocation of
  I/O zones and of WAL zones, the migration zone, reading, and opening the device.
\<close>

section \<open>Choosing a zone\<close>

definition LIFETIME_DIFF_NOT_GOOD :: u32 where "LIFETIME_DIFF_NOT_GOOD = 100"
definition LIFETIME_DIFF_COULD_BE_WORSE :: u32 where "LIFETIME_DIFF_COULD_BE_WORSE = 50"

definition GetLifeTimeDiff :: "u32 \<Rightarrow> u32 \<Rightarrow> u32" where
  "GetLifeTimeDiff zone_lifetime file_lifetime =
     (if file_lifetime = WLTH_NOT_SET \<or> file_lifetime = WLTH_NONE then
        (if file_lifetime = zone_lifetime then 0 else LIFETIME_DIFF_NOT_GOOD)
      else if zone_lifetime > file_lifetime then zone_lifetime - file_lifetime
      else if zone_lifetime = file_lifetime then LIFETIME_DIFF_COULD_BE_WORSE
      else LIFETIME_DIFF_NOT_GOOD)"

text \<open>\<^verbatim>\<open>FinishCheapestIOZone\<close>: the loop keeps the current victim acquired.\<close>

fun FinishCheapestIOZone_loop ::
    "nat list \<Rightarrow> Zone list \<Rightarrow> nat option \<Rightarrow> status \<times> Zone list \<times> nat option" where
  "FinishCheapestIOZone_loop [] zs victim = (OK, zs, victim)"
| "FinishCheapestIOZone_loop (i # is) zs victim =
     (case Acquire (zs ! i) of
        (False, z) \<Rightarrow> FinishCheapestIOZone_loop is zs victim
      | (True, z) \<Rightarrow>
          (let zs1 = zs[i := z] in
           if IsEmpty z \<or> IsFull z then
             (case CheckRelease z of (s, z') \<Rightarrow>
                if \<not> ok s then (s, zs1[i := z'], victim)
                else FinishCheapestIOZone_loop is (zs1[i := z']) victim)
           else case victim of
             None \<Rightarrow> FinishCheapestIOZone_loop is zs1 (Some i)
           | Some v \<Rightarrow>
               if z_capacity (zs1 ! v) > z_capacity z then
                 (case CheckRelease (zs1 ! v) of (s, v') \<Rightarrow>
                    if \<not> ok s then (s, zs1[v := v'], victim)
                    else FinishCheapestIOZone_loop is (zs1[v := v']) (Some i))
               else
                 (case CheckRelease z of (s, z') \<Rightarrow>
                    if \<not> ok s then (s, zs1[i := z'], victim)
                    else FinishCheapestIOZone_loop is (zs1[i := z']) victim)))"

definition FinishCheapestIOZone :: "'d backend \<Rightarrow> 'd zbd \<Rightarrow> status \<times> 'd zbd" where
  "FinishCheapestIOZone be dev =
     (case FinishCheapestIOZone_loop [0..<length (io_zones dev)] (io_zones dev) None of
        (s, zs, victim) \<Rightarrow>
          if \<not> ok s then (s, dev\<lparr>io_zones := zs\<rparr>)
          else case victim of
            None \<Rightarrow> (OK, dev\<lparr>io_zones := zs\<rparr>)
          | Some v \<Rightarrow>
              (case Zone_Finish be (zs ! v) (world dev) of (fs, z1, d) \<Rightarrow>
               (case CheckRelease z1 of (release_status, z2) \<Rightarrow>
                  let dev1 = dev\<lparr>io_zones := zs[v := z2], world := d\<rparr>;
                      dev2 = (if ok fs then PutActiveIOZoneToken dev1 else dev1)
                  in if \<not> ok release_status then (release_status, dev2) else (fs, dev2))))"

text \<open>\<^verbatim>\<open>GetBestOpenZoneMatch\<close>: an equally good later zone replaces an earlier one.\<close>

fun GetBestOpenZoneMatch_loop ::
    "u32 \<Rightarrow> u64 \<Rightarrow> nat list \<Rightarrow> Zone list \<Rightarrow> u32 \<Rightarrow> nat option \<Rightarrow>
     status \<times> Zone list \<times> u32 \<times> nat option" where
  "GetBestOpenZoneMatch_loop flt mincap [] zs best alloc = (OK, zs, best, alloc)"
| "GetBestOpenZoneMatch_loop flt mincap (i # is) zs best alloc =
     (case Acquire (zs ! i) of
        (False, z) \<Rightarrow> GetBestOpenZoneMatch_loop flt mincap is zs best alloc
      | (True, z) \<Rightarrow>
          (let zs1 = zs[i := z] in
           if z_used_capacity z > 0 \<and> \<not> IsFull z \<and> z_capacity z \<ge> mincap then
             (let diff = GetLifeTimeDiff (z_lifetime z) flt in
              if diff \<le> best then
                (case alloc of
                   None \<Rightarrow> GetBestOpenZoneMatch_loop flt mincap is zs1 diff (Some i)
                 | Some a \<Rightarrow>
                     (case CheckRelease (zs1 ! a) of (s, a') \<Rightarrow>
                        if \<not> ok s then
                          (case CheckRelease z of (s', z') \<Rightarrow>
                             ((if \<not> ok s' then s' else s), (zs1[a := a'])[i := z'], best, alloc))
                        else GetBestOpenZoneMatch_loop flt mincap is (zs1[a := a']) diff (Some i)))
              else
                (case CheckRelease z of (s, z') \<Rightarrow>
                   if \<not> ok s then (s, zs1[i := z'], best, alloc)
                   else GetBestOpenZoneMatch_loop flt mincap is (zs1[i := z']) best alloc))
           else
             (case CheckRelease z of (s, z') \<Rightarrow>
                if \<not> ok s then (s, zs1[i := z'], best, alloc)
                else GetBestOpenZoneMatch_loop flt mincap is (zs1[i := z']) best alloc)))"

text \<open>The out-parameters are set on success only; a failing caller does not look at them.\<close>

definition GetBestOpenZoneMatch ::
    "u32 \<Rightarrow> u32 \<Rightarrow> 'd zbd \<Rightarrow> status \<times> u32 \<times> nat option \<times> 'd zbd" where
  "GetBestOpenZoneMatch file_lifetime min_capacity dev =
     (case GetBestOpenZoneMatch_loop file_lifetime (ucast min_capacity)
             [0..<length (io_zones dev)] (io_zones dev) LIFETIME_DIFF_NOT_GOOD None of
        (s, zs, best, alloc) \<Rightarrow> (s, best, alloc, dev\<lparr>io_zones := zs\<rparr>))"

fun AllocateEmptyZone_loop :: "nat list \<Rightarrow> Zone list \<Rightarrow> status \<times> nat option \<times> Zone list" where
  "AllocateEmptyZone_loop [] zs = (OK, None, zs)"
| "AllocateEmptyZone_loop (i # is) zs =
     (case Acquire (zs ! i) of
        (False, z) \<Rightarrow> AllocateEmptyZone_loop is zs
      | (True, z) \<Rightarrow>
          if IsEmpty z then (OK, Some i, zs[i := z])
          else (case CheckRelease z of (s, z') \<Rightarrow>
                  if \<not> ok s then (s, None, zs[i := z'])
                  else AllocateEmptyZone_loop is (zs[i := z'])))"

definition AllocateEmptyZone :: "'d zbd \<Rightarrow> status \<times> nat option \<times> 'd zbd" where
  "AllocateEmptyZone dev =
     (case AllocateEmptyZone_loop [0..<length (io_zones dev)] (io_zones dev) of
        (s, r, zs) \<Rightarrow> (s, r, dev\<lparr>io_zones := zs\<rparr>))"

section \<open>Allocating an I/O zone\<close>

text \<open>
  The loop that finishes zones until an active token is free. It does not end when no zone can be
  finished, since \<^verbatim>\<open>FinishCheapestIOZone\<close> reports success then.
\<close>

partial_function (option) WaitForActiveToken ::
    "'d backend \<Rightarrow> 'd zbd \<Rightarrow> (status \<times> 'd zbd) option" where
  "WaitForActiveToken be dev =
     (let gt = GetActiveIOZoneTokenIfAvailable dev in
      if fst gt then Some (OK, snd gt)
      else let fr = FinishCheapestIOZone be (snd gt) in
           if \<not> ok (fst fr) then Some fr
           else WaitForActiveToken be (snd fr))"

text \<open>
  The part of \<^verbatim>\<open>AllocateIOZone\<close> that opens a new zone, entered without an allocated zone; it hands
  back the open token when there is no empty zone.
\<close>

definition AllocateNewIOZone ::
    "'d backend \<Rightarrow> u32 \<Rightarrow> bool \<Rightarrow> 'd zbd \<Rightarrow> (status \<times> nat option \<times> 'd zbd) option" where
  "AllocateNewIOZone be file_lifetime got_token dev =
     (case (if got_token then Some (OK, dev) else WaitForActiveToken be dev) of
        None \<Rightarrow> None
      | Some (s, dev1) \<Rightarrow>
          if \<not> ok s then Some (s, None, PutOpenIOZoneToken dev1)
          else
            (case AllocateEmptyZone dev1 of (s', alloc, dev2) \<Rightarrow>
               if \<not> ok s' then Some (s', None, PutOpenIOZoneToken (PutActiveIOZoneToken dev2))
               else case alloc of
                 Some i \<Rightarrow>
                   Some (OK, Some i,
                     put_zone (IoZ i) ((io_zones dev2 ! i)\<lparr>z_lifetime := file_lifetime\<rparr>) dev2)
               | None \<Rightarrow> Some (OK, None, PutOpenIOZoneToken (PutActiveIOZoneToken dev2))))"

text \<open>
  The part after the life-time match: use the zone that was found, or give it back and open a new
  one.
\<close>

definition AllocateIOZone_choose ::
    "'d backend \<Rightarrow> u32 \<Rightarrow> u32 \<Rightarrow> nat option \<Rightarrow> 'd zbd \<Rightarrow> (status \<times> nat option \<times> 'd zbd) option" where
  "AllocateIOZone_choose be file_lifetime best_diff alloc dev =
     (if best_diff \<ge> LIFETIME_DIFF_COULD_BE_WORSE then
        (case GetActiveIOZoneTokenIfAvailable dev of (got_token, dev1) \<Rightarrow>
           (case alloc of
              None \<Rightarrow> AllocateNewIOZone be file_lifetime got_token dev1
            | Some a \<Rightarrow>
                if \<not> got_token \<and> best_diff = LIFETIME_DIFF_COULD_BE_WORSE
                then Some (OK, Some a, dev1)
                else
                  (case CheckRelease (io_zones dev1 ! a) of (s, a') \<Rightarrow>
                     let dev2 = put_zone (IoZ a) a' dev1 in
                     if \<not> ok s then
                       Some (s, None,
                         let dev3 = PutOpenIOZoneToken dev2
                         in if got_token then PutActiveIOZoneToken dev3 else dev3)
                     else AllocateNewIOZone be file_lifetime got_token dev2)))
      else Some (OK, alloc, if alloc = None then PutOpenIOZoneToken dev else dev))"

text \<open>
  \<^verbatim>\<open>IOType\<close> matters as \<^verbatim>\<open>kWAL\<close> or not. The result zone is \<open>None\<close> for \<^verbatim>\<open>nullptr\<close>, which comes with
  \<^verbatim>\<open>OK\<close> when the device is out of empty zones.
\<close>

definition AllocateIOZone ::
    "'d backend \<Rightarrow> u32 \<Rightarrow> bool \<Rightarrow> 'd zbd \<Rightarrow> (status \<times> nat option \<times> 'd zbd) option" where
  "AllocateIOZone be file_lifetime is_kWAL dev0 =
     (let s0 = GetZoneDeferredStatus dev0 in
      if \<not> ok s0 then Some (s0, None, dev0)
      else case (if \<not> is_kWAL then ApplyFinishThreshold be dev0 else (OK, dev0)) of
        (s1, dev1) \<Rightarrow>
          if \<not> ok s1 then Some (s1, None, dev1)
          else case WaitForOpenIOZoneToken is_kWAL dev1 of
            None \<Rightarrow> None
          | Some dev2 \<Rightarrow>
              (case GetBestOpenZoneMatch file_lifetime 0 dev2 of
                 (s3, best_diff, alloc, dev3) \<Rightarrow>
                   if \<not> ok s3 then Some (s3, None, PutOpenIOZoneToken dev3)
                   else AllocateIOZone_choose be file_lifetime best_diff alloc dev3))"

section \<open>Zones of write-ahead logs\<close>

text \<open>
  The tokens of a WAL: a free open token, and an active one for which the code spins. Both waits
  are \<open>None\<close> when the token is not there.
\<close>

definition take_wal_tokens :: "'d zbd \<Rightarrow> 'd zbd option" where
  "take_wal_tokens dev =
     (case WaitForOpenIOZoneToken True dev of
        None \<Rightarrow> None
      | Some dev1 \<Rightarrow>
          (case GetActiveIOZoneTokenIfAvailable dev1 of
             (True, dev2) \<Rightarrow> Some dev2 | (False, dev2) \<Rightarrow> None))"

definition wal_index :: "u64 \<Rightarrow> u64" where
  "wal_index zone_nr = zone_nr - of_nat ZENFS_META_ZONES - of_nat ZENFS_FLAKY_ZONES"

definition delete_wal :: "'d backend \<Rightarrow> nat option \<Rightarrow> 'd zbd \<Rightarrow> 'd zbd" where
  "delete_wal be wal dev =
     (case wal of Some h \<Rightarrow> dev\<lparr>world := szd_Delete be h (world dev)\<rparr> | None \<Rightarrow> dev)"

text \<open>
  \<^verbatim>\<open>OpenWALZone\<close>: the zone is acquired by spinning, so a zone that is busy is waited for. The
  handle of the new once-log is returned in place of \<^verbatim>\<open>*wal\<close>.
\<close>

definition OpenWALZone ::
    "'d backend \<Rightarrow> nat option \<Rightarrow> zref \<Rightarrow> 'd zbd \<Rightarrow> (status \<times> nat option \<times> 'd zbd) option" where
  "OpenWALZone be wal active_zone dev =
     (case take_wal_tokens dev of
        None \<Rightarrow> None
      | Some dev1 \<Rightarrow>
          (let i = unat (wal_index (GetZoneNr be (zone_at dev active_zone))) in
           if length (wal_zones dev1) \<le> i then None
           else (case Acquire (wal_zones dev1 ! i) of
             (False, z) \<Rightarrow> None
           | (True, z) \<Rightarrow>
               (let dev2 = delete_wal be wal (put_zone (WalZ i) z dev1); nr = GetZoneNr be z in
                case new_oncelog be nr (nr + of_nat ZENFS_ZONES_FOREACH_WAL) dev2 of
                  (h, dev3) \<Rightarrow>
                    (case RecoverPointers be h dev3 of (s, dev4) \<Rightarrow> Some (s, Some h, dev4))))))"

text \<open>The search for an empty WAL: the first zone of every group of three.\<close>

fun AllocateWALZone_loop ::
    "nat list \<Rightarrow> Zone list \<Rightarrow> (status \<times> nat option \<times> Zone list) option" where
  "AllocateWALZone_loop [] zs = Some (OK, None, zs)"
| "AllocateWALZone_loop (i # is) zs =
     (if length zs \<le> i then None
      else case Acquire (zs ! i) of
        (False, z) \<Rightarrow> AllocateWALZone_loop is zs
      | (True, z) \<Rightarrow>
          if IsEmpty z then Some (OK, Some i, zs[i := z])
          else (case CheckRelease z of (s', z') \<Rightarrow>
                  if \<not> ok s' then Some (s', None, zs[i := z'])
                  else AllocateWALZone_loop is (zs[i := z'])))"

definition wal_slots :: "nat list" where
  "wal_slots = map (\<lambda>k. k * ZENFS_ZONES_FOREACH_WAL) [0..<ZENFS_WAL_ZONES div ZENFS_ZONES_FOREACH_WAL]"

definition AllocateFreshWAL ::
    "'d backend \<Rightarrow> nat option \<Rightarrow> 'd zbd \<Rightarrow> (status \<times> zref option \<times> nat option \<times> 'd zbd) option" where
  "AllocateFreshWAL be wal dev =
     (case take_wal_tokens dev of
        None \<Rightarrow> None
      | Some dev1 \<Rightarrow>
          (case AllocateWALZone_loop wal_slots (wal_zones dev1) of
             None \<Rightarrow> None
           | Some (s, alloc, zs) \<Rightarrow>
               (let dev2 = dev1\<lparr>wal_zones := zs\<rparr> in
                if \<not> ok s then Some (s, None, wal, dev2)
                else case alloc of
                  None \<Rightarrow>
                    Some (NoSpace, None, wal, PutOpenIOZoneToken (PutActiveIOZoneToken dev2))
                | Some i \<Rightarrow>
                    (case new_oncelog be
                            (of_nat (i + ZENFS_META_ZONES + ZENFS_FLAKY_ZONES))
                            (of_nat (i + ZENFS_META_ZONES + ZENFS_ZONES_FOREACH_WAL
                                     + ZENFS_FLAKY_ZONES))
                            (delete_wal be wal dev2) of
                       (h, dev3) \<Rightarrow>
                         (case RecoverPointers be h dev3 of
                            (s', dev4) \<Rightarrow> Some (s', Some (WalZ i), Some h, dev4))))))"

text \<open>
  \<^verbatim>\<open>AllocateWALZone\<close>: while the current zone is not the last of its group, the next zone of the
  group is handed out, without acquiring it; a missing once-log is created again at the position
  of the zone within its group.
\<close>

definition AllocateWALZone ::
    "'d backend \<Rightarrow> nat option \<Rightarrow> zref option \<Rightarrow> 'd zbd \<Rightarrow>
     (status \<times> zref option \<times> nat option \<times> 'd zbd) option" where
  "AllocateWALZone be wal active_zone dev =
     (case ReleaseUnusedWALZones dev of
        None \<Rightarrow> None
      | Some (s, dev1) \<Rightarrow>
          (case active_zone of
             None \<Rightarrow> AllocateFreshWAL be wal dev1
           | Some a \<Rightarrow>
               (let nr = GetZoneNr be (zone_at dev1 a);
                    w_z = wal_index nr mod of_nat ZENFS_ZONES_FOREACH_WAL;
                    next = unat (wal_index (nr + 1)) in
                if w_z = of_nat (ZENFS_ZONES_FOREACH_WAL - 1) then AllocateFreshWAL be wal dev1
                else if length (wal_zones dev1) \<le> next then None
                else case wal of
                  Some h \<Rightarrow> Some (OK, Some (WalZ next), Some h, dev1)
                | None \<Rightarrow>
                    (case new_oncelog be
                            (w_z + of_nat ZENFS_META_ZONES + of_nat ZENFS_FLAKY_ZONES)
                            (w_z + of_nat ZENFS_META_ZONES + of_nat ZENFS_ZONES_FOREACH_WAL
                             + of_nat ZENFS_FLAKY_ZONES) dev1 of
                       (h, dev2) \<Rightarrow>
                         (case RecoverPointers be h dev2 of
                            (s', dev3) \<Rightarrow> Some (s', Some (WalZ next), Some h, dev3))))))"

section \<open>Migration zone\<close>

definition TakeMigrateZone ::
    "u32 \<Rightarrow> u32 \<Rightarrow> 'd zbd \<Rightarrow> (status \<times> nat option \<times> 'd zbd) option" where
  "TakeMigrateZone file_lifetime min_capacity dev =
     (if migrating dev then None
      else case GetBestOpenZoneMatch file_lifetime min_capacity (dev\<lparr>migrating := True\<rparr>) of
        (s, best_diff, r, dev1) \<Rightarrow>
          let out_zone = (if ok s then r else None) in
          if ok s \<and> out_zone \<noteq> None then Some (s, out_zone, dev1)
          else Some (s, out_zone, dev1\<lparr>migrating := False\<rparr>))"

definition ReleaseMigrateZone :: "nat option \<Rightarrow> 'd zbd \<Rightarrow> status \<times> 'd zbd" where
  "ReleaseMigrateZone zone dev =
     (let dev1 = dev\<lparr>migrating := False\<rparr> in
      case zone of
        None \<Rightarrow> (OK, dev1)
      | Some i \<Rightarrow> (case CheckRelease (io_zones dev1 ! i) of (s, z) \<Rightarrow> (s, put_zone (IoZ i) z dev1)))"

section \<open>Reading\<close>

text \<open>
  \<^verbatim>\<open>ZonedBlockDevice::Read\<close>: short reads are continued, interrupted ones repeated. \<open>neg\<close> says that
  the last return value was negative, as it is initially; a read of nothing is an error for it.
\<close>

partial_function (option) zbd_Read_loop ::
    "'d backend \<Rightarrow> u64 \<Rightarrow> nat \<Rightarrow> bool \<Rightarrow> bytes \<Rightarrow> bool \<Rightarrow> 'd \<Rightarrow> (read_result \<times> 'd) option" where
  "zbd_Read_loop be offset left direct buf neg d =
     (if left = 0 then Some (if neg then RErr EOTHER else RData buf, d)
      else let rd = be_Read be left offset direct d in
        (case fst rd of
           RErr e \<Rightarrow>
             (if e = EINTR then zbd_Read_loop be offset left direct buf True (snd rd)
              else Some (RErr e, snd rd))
         | RData bs \<Rightarrow>
             (if bs = [] then Some (RData buf, snd rd)
              else if length bs > left then None
              else zbd_Read_loop be (offset + of_nat (length bs)) (left - length bs) direct
                     (buf @ bs) False (snd rd))))"

definition zbd_Read ::
    "'d backend \<Rightarrow> u64 \<Rightarrow> nat \<Rightarrow> bool \<Rightarrow> 'd \<Rightarrow> (read_result \<times> 'd) option" where
  "zbd_Read be offset n direct d = zbd_Read_loop be offset n direct [] True d"

definition zbd_InvalidateCache :: "'d backend \<Rightarrow> u64 \<Rightarrow> u64 \<Rightarrow> 'd \<Rightarrow> status \<times> 'd" where
  "zbd_InvalidateCache be pos sz d =
     (case be_InvalidateCache be pos sz d of
        (ret, d') \<Rightarrow> (if ret \<noteq> 0 then IOError else OK, d'))"

section \<open>Opening the device\<close>

text \<open>
  \<open>idx\<close> is what is left of the zone report. The first three sequential zones are for metadata; an
  offline one among them is skipped but counted.
\<close>

fun Open_meta_loop :: "'z zone_report \<Rightarrow> 'z list \<Rightarrow> nat \<Rightarrow> nat list \<Rightarrow> Zone list \<times> nat" where
  "Open_meta_loop rep zones m [] = ([], length zones)"
| "Open_meta_loop rep zones m (i # is) =
     (if m < ZENFS_META_ZONES then
        (if ZoneIsSwr rep zones i then
           (case Open_meta_loop rep zones (m + 1) is of
              (zs, j) \<Rightarrow> (if \<not> ZoneIsOffline rep zones i then newZone rep zones i # zs else zs, j))
         else Open_meta_loop rep zones m is)
      else ([], i))"

fun Open_wal_loop :: "'z zone_report \<Rightarrow> 'z list \<Rightarrow> nat list \<Rightarrow> Zone list" where
  "Open_wal_loop rep zones [] = []"
| "Open_wal_loop rep zones (i # is) =
     (if ZoneIsSwr rep zones i \<and> \<not> ZoneIsOffline rep zones i
      then newZone rep zones i # Open_wal_loop rep zones is else Open_wal_loop rep zones is)"

text \<open>The status of closing an open zone is not looked at.\<close>

fun Open_io_loop ::
    "'d backend \<Rightarrow> 'z zone_report \<Rightarrow> 'z list \<Rightarrow> bool \<Rightarrow> nat list \<Rightarrow> int \<Rightarrow> 'd \<Rightarrow>
     status \<times> Zone list \<times> int \<times> 'd" where
  "Open_io_loop be rep zones readonly [] active d = (OK, [], active, d)"
| "Open_io_loop be rep zones readonly (i # is) active d =
     (if ZoneIsSwr rep zones i \<and> \<not> ZoneIsOffline rep zones i then
        (case Acquire (newZone rep zones i) of
           (False, z) \<Rightarrow> (Corruption, [], active, d)
         | (True, z) \<Rightarrow>
             (let act = ZoneIsActive rep zones i in
              case (if act \<and> ZoneIsOpen rep zones i \<and> \<not> readonly then Zone_Close be z d
                    else (OK, z, d)) of
                (cs, z1, d1) \<Rightarrow>
                  (case CheckRelease z1 of (s, z2) \<Rightarrow>
                     (let active' = (if act then active + 1 else active) in
                      if \<not> ok s then (s, [z2], active', d1)
                      else case Open_io_loop be rep zones readonly is active' d1 of
                        (s', zs, a, d2) \<Rightarrow> (s', z2 # zs, a, d2)))))
      else Open_io_loop be rep zones readonly is active d)"

text \<open>\<^verbatim>\<open>std::string::find\<close>: the first position at which \<open>pat\<close> occurs.\<close>

fun find_sub :: "bytes \<Rightarrow> bytes \<Rightarrow> nat option" where
  "find_sub pat [] = (if pat = [] then Some 0 else None)"
| "find_sub pat (c # s) =
     (if take (length pat) (c # s) = pat then Some 0 else map_option Suc (find_sub pat s))"

definition replace_at :: "nat \<Rightarrow> nat \<Rightarrow> bytes \<Rightarrow> bytes \<Rightarrow> bytes" where
  "replace_at pos len new s = take pos s @ new @ drop (pos + len) s"

text \<open>
  \<open>openf\<close> and \<open>listf\<close> are the backend's \<^verbatim>\<open>Open\<close> and \<^verbatim>\<open>ListZones\<close>, \<open>chardev\<close> the initialisation of SZD
  on the character device, \<open>filename\<close> the backend's file name. A name without \<^verbatim>\<open>nvme\<close> makes
  \<^verbatim>\<open>std::string::replace\<close> throw, which nothing catches.
\<close>

definition zbd_Open ::
    "'d backend \<Rightarrow> 'z zone_report \<Rightarrow> (bool \<Rightarrow> bool \<Rightarrow> 'd \<Rightarrow> (status \<times> u32 \<times> u32) \<times> 'd) \<Rightarrow>
     ('d \<Rightarrow> 'z list option \<times> 'd) \<Rightarrow> (bytes \<Rightarrow> 'd \<Rightarrow> 'd) \<Rightarrow> bytes \<Rightarrow> bool \<Rightarrow> bool \<Rightarrow> 'd zbd \<Rightarrow>
     (status \<times> 'd zbd) option" where
  "zbd_Open be rep openf listf chardev filename readonly exclusive dev =
     (let reserved_zones = 2 in
      if \<not> readonly \<and> \<not> exclusive then Some (InvalidArgument, dev)
      else case openf readonly exclusive (world dev) of
        ((ios, max_nr_active_zones, max_nr_open_zones), d1) \<Rightarrow>
          if \<not> status_eq ios OK then Some (ios, dev\<lparr>world := d1\<rparr>)
          else if nr_zones be < ZENFS_MIN_ZONES then Some (NotSupported, dev\<lparr>world := d1\<rparr>)
          else
            (let dev1 = dev\<lparr>world := d1,
                   max_nr_active_io_zones :=
                     (if max_nr_active_zones = 0 then nr_zones be
                      else max_nr_active_zones - reserved_zones),
                   max_nr_open_io_zones :=
                     (if max_nr_open_zones = 0 then nr_zones be
                      else max_nr_open_zones - reserved_zones)\<rparr> in
             case listf (world dev1) of
               (None, d2) \<Rightarrow> Some (IOError, dev1\<lparr>world := d2\<rparr>)
             | (Some zones, d2) \<Rightarrow>
                 if of_nat (length zones) \<noteq> nr_zones be then Some (IOError, dev1\<lparr>world := d2\<rparr>)
                 else
                   (case Open_meta_loop rep zones 0 [0..<length zones] of (ms, i0) \<Rightarrow>
                    (let i1 = max i0 (ZENFS_META_ZONES + ZENFS_FLAKY_ZONES);
                         wal_end = ZENFS_META_ZONES + ZENFS_FLAKY_ZONES + ZENFS_WAL_ZONES;
                         ws = Open_wal_loop rep zones [i1..<wal_end];
                         i2 = max i1 wal_end in
                     case Open_io_loop be rep zones readonly [i2..<length zones] 0 d2 of
                       (s, zs, a, d3) \<Rightarrow>
                         (let dev2 = dev1\<lparr>world := d3, meta_zones := meta_zones dev @ ms,
                                wal_zones := wal_zones dev @ ws, io_zones := io_zones dev @ zs,
                                active_io_zones := a, open_io_zones := 0\<rparr> in
                          if \<not> ok s then Some (s, dev2)
                          else case find_sub (str ''nvme'') filename of
                            None \<Rightarrow> None
                          | Some pos \<Rightarrow>
                              Some (OK, dev2\<lparr>world :=
                                chardev (replace_at pos 4 (str ''ng'') filename) (world dev2)\<rparr>)))))
     )"

section \<open>The searching loops\<close>

text \<open>
  While they search, the loops hold at most one zone: the list is the original one with that zone's
  busy flag set, and nothing else changes.
\<close>

definition hold :: "Zone list \<Rightarrow> nat option \<Rightarrow> Zone list" where
  "hold zs v = (case v of None \<Rightarrow> zs | Some k \<Rightarrow> zs[k := (zs ! k)\<lparr>z_busy := True\<rparr>])"

lemma hold_simps [simp]:
  "hold zs None = zs" "length (hold zs v) = length zs"
  "i < length zs \<Longrightarrow> v \<noteq> Some i \<Longrightarrow> hold zs v ! i = zs ! i"
  "i < length zs \<Longrightarrow> hold zs (Some i) ! i = (zs ! i)\<lparr>z_busy := True\<rparr>"
  by (cases v; simp add: hold_def)+

lemma hold_release:
  assumes "i < length zs" and "\<not> z_busy (zs ! i)"
  shows "(hold zs (Some i))[i := (zs ! i)\<lparr>z_busy := False\<rparr>] = zs"
  using assms by (simp add: hold_def)

lemma hold_take:
  "i < length zs \<Longrightarrow> v \<noteq> Some i \<Longrightarrow>
   (hold zs v)[i := (zs ! i)\<lparr>z_busy := True\<rparr>, i := (zs ! i)\<lparr>z_busy := False\<rparr>] = hold zs v"
  if "\<not> z_busy (zs ! i)" for zs v
  using that by (auto simp: list_update_same_conv)

lemma hold_switch:
  assumes "v < length zs" and "i < length zs" and "i \<noteq> v" and "\<not> z_busy (zs ! v)"
  shows "(hold zs (Some v))[i := (zs ! i)\<lparr>z_busy := True\<rparr>, v := (zs ! v)\<lparr>z_busy := False\<rparr>]
         = hold zs (Some i)"
  using assms by (simp add: hold_def list_update_swap list_update_same_conv)

lemma hold_first: "zs[i := (zs ! i)\<lparr>z_busy := True\<rparr>] = hold zs (Some i)"
  by (simp add: hold_def)

definition finishable :: "Zone list \<Rightarrow> nat \<Rightarrow> bool" where
  "finishable zs i \<longleftrightarrow> i < length zs \<and> \<not> z_busy (zs ! i) \<and> is_active (zs ! i)"

lemma FinishCheapestIOZone_loop_spec:
  assumes "distinct is" and "set is \<subseteq> {..<length zs}"
    and "\<And>k. v = Some k \<Longrightarrow> finishable zs k \<and> k \<notin> set is"
  shows "\<exists>v'. FinishCheapestIOZone_loop is (hold zs v) v = (OK, hold zs v', v') \<and>
           (\<forall>k. v' = Some k \<longrightarrow> finishable zs k) \<and>
           (\<forall>j. (j \<in> set is \<and> finishable zs j \<or> v = Some j) \<longrightarrow>
                (\<exists>k. v' = Some k \<and> z_capacity (zs ! k) \<le> z_capacity (zs ! j)))"
  using assms
proof (induction "is" arbitrary: v)
  case Nil
  then show ?case by (intro exI [of _ v]) auto
next
  case (Cons i "is")
  from Cons.prems have i: "i < length zs" "i \<notin> set is" "v \<noteq> Some i" by auto
  have skip: ?case if "FinishCheapestIOZone_loop (i # is) (hold zs v) v
                       = FinishCheapestIOZone_loop is (hold zs v) v"
    and "finishable zs i \<Longrightarrow> \<exists>k. v = Some k \<and> z_capacity (zs ! k) \<le> z_capacity (zs ! i)"
    using Cons.IH [of v] Cons.prems that by (fastforce intro: order_trans)
  show ?case
  proof (cases "finishable zs i")
    case False
    then show ?thesis
      using i hold_take [of zs i v]
      by (intro skip; cases "z_busy (zs ! i)") (auto simp: finishable_def is_active_def Let_def)
  next
    case True
    then have z: "\<not> z_busy (zs ! i)" "\<not> IsEmpty (zs ! i)" "\<not> IsFull (zs ! i)"
      by (auto simp: finishable_def is_active_def)
    note IH = Cons.IH [of "Some i"]
    have next_i: ?thesis if "FinishCheapestIOZone_loop (i # is) (hold zs v) v
                       = FinishCheapestIOZone_loop is (hold zs (Some i)) (Some i)"
      and "\<And>k. v = Some k \<Longrightarrow> z_capacity (zs ! i) \<le> z_capacity (zs ! k)"
      using IH Cons.prems i True that by (fastforce intro: order_trans)
    show ?thesis
    proof (cases v)
      case None
      then show ?thesis
        using i z by (intro next_i) (simp_all add: Let_def hold_first)
    next
      case (Some k)
      then have k: "k < length zs" "\<not> z_busy (zs ! k)" "k \<noteq> i"
        using Cons.prems(3) i by (auto simp: finishable_def)
      show ?thesis
      proof (cases "z_capacity (zs ! k) > z_capacity (zs ! i)")
        case True
        then show ?thesis
          using i z k Some hold_switch [of k zs i] by (intro next_i) (simp_all add: Let_def)
      next
        case False
        then show ?thesis
          using i z k Some hold_take [of zs i v] by (intro skip) (auto simp: Let_def)
      qed
    qed
  qed
qed

definition fillable :: "u64 \<Rightarrow> Zone list \<Rightarrow> nat \<Rightarrow> bool" where
  "fillable mincap zs i \<longleftrightarrow>
     i < length zs \<and> \<not> z_busy (zs ! i) \<and> IsUsed (zs ! i) \<and> \<not> IsFull (zs ! i) \<and>
     mincap \<le> z_capacity (zs ! i)"

lemma GetBestOpenZoneMatch_loop_spec:
  fixes flt :: u32 and mincap :: u64 and best :: u32
  defines "diff \<equiv> \<lambda>zs i. GetLifeTimeDiff (z_lifetime (zs ! i)) flt"
  assumes "distinct is" and "set is \<subseteq> {..<length zs}"
    and "\<And>k. v = Some k \<Longrightarrow> fillable mincap zs k \<and> k \<notin> set is \<and> diff zs k = best"
  shows "\<exists>v' best'. GetBestOpenZoneMatch_loop flt mincap is (hold zs v) best v
                     = (OK, hold zs v', best', v') \<and>
           best' \<le> best \<and> (v' = None \<longrightarrow> best' = best \<and> v = None) \<and>
           (\<forall>k. v' = Some k \<longrightarrow> fillable mincap zs k \<and> diff zs k = best') \<and>
           (\<forall>j \<in> set is. fillable mincap zs j \<longrightarrow>
                best' \<le> diff zs j \<and> (v' = None \<longrightarrow> best < diff zs j))"
  using assms(2-)
proof (induction "is" arbitrary: v best)
  case Nil
  then show ?case by (intro exI [of _ v] exI [of _ best]) auto
next
  case (Cons i "is")
  from Cons.prems have i: "i < length zs" "i \<notin> set is" "v \<noteq> Some i" by auto
  have skip: ?case if eq: "GetBestOpenZoneMatch_loop flt mincap (i # is) (hold zs v) best v
                       = GetBestOpenZoneMatch_loop flt mincap is (hold zs v) best v"
    and worse: "fillable mincap zs i \<Longrightarrow> best < diff zs i"
  proof -
    obtain v' best' where
      "GetBestOpenZoneMatch_loop flt mincap is (hold zs v) best v = (OK, hold zs v', best', v')"
      "best' \<le> best" "v' = None \<longrightarrow> best' = best \<and> v = None"
      "\<forall>k. v' = Some k \<longrightarrow> fillable mincap zs k \<and> diff zs k = best'"
      "\<forall>j \<in> set is. fillable mincap zs j \<longrightarrow> best' \<le> diff zs j \<and> (v' = None \<longrightarrow> best < diff zs j)"
      using Cons.IH [of v best] Cons.prems by auto
    with eq worse show ?thesis
      by (intro exI [of _ v'] exI [of _ best'])
        (auto simp del: GetBestOpenZoneMatch_loop.simps dest: le_less_trans intro: less_imp_le)
  qed
  have next_i: ?case if eq: "GetBestOpenZoneMatch_loop flt mincap (i # is) (hold zs v) best v
                     = GetBestOpenZoneMatch_loop flt mincap is (hold zs (Some i)) (diff zs i) (Some i)"
    and fi: "fillable mincap zs i" and better: "diff zs i \<le> best"
  proof -
    obtain v' best' where
      "GetBestOpenZoneMatch_loop flt mincap is (hold zs (Some i)) (diff zs i) (Some i)
         = (OK, hold zs v', best', v')"
      "best' \<le> diff zs i" "v' \<noteq> None"
      "\<forall>k. v' = Some k \<longrightarrow> fillable mincap zs k \<and> diff zs k = best'"
      "\<forall>j \<in> set is. fillable mincap zs j \<longrightarrow> best' \<le> diff zs j"
      using Cons.IH [of "Some i" "diff zs i"] Cons.prems i fi by auto
    with eq better show ?thesis
      by (intro exI [of _ v'] exI [of _ best'])
        (auto simp del: GetBestOpenZoneMatch_loop.simps intro: order_trans)
  qed
  show ?case
  proof (cases "fillable mincap zs i")
    case False
    then show ?thesis
      using i hold_take [of zs i v]
      by (intro skip; cases "z_busy (zs ! i)") (auto simp: fillable_def IsUsed_def Let_def)
  next
    case True
    then have z: "\<not> z_busy (zs ! i)" "z_used_capacity (zs ! i) > 0" "\<not> IsFull (zs ! i)"
        "mincap \<le> z_capacity (zs ! i)"
      by (auto simp: fillable_def IsUsed_def)
    show ?thesis
    proof (cases "diff zs i \<le> best")
      case le: True
      show ?thesis
      proof (cases v)
        case None
        then show ?thesis
          using i z le True by (intro next_i) (simp_all add: Let_def hold_first diff_def)
      next
        case (Some k)
        then have k: "k < length zs" "\<not> z_busy (zs ! k)" "k \<noteq> i"
          using Cons.prems(3) i by (auto simp: fillable_def)
        then show ?thesis
          using i z le True Some hold_switch [of k zs i]
          by (intro next_i) (simp_all add: Let_def diff_def)
      qed
    next
      case False
      then show ?thesis
        using i z hold_take [of zs i v] by (intro skip) (auto simp: Let_def diff_def)
    qed
  qed
qed

lemma AllocateEmptyZone_loop_spec:
  assumes "distinct is" and "set is \<subseteq> {..<length zs}"
  shows "\<exists>v. AllocateEmptyZone_loop is zs = (OK, v, hold zs v) \<and>
           (\<forall>k. v = Some k \<longrightarrow> k \<in> set is \<and> \<not> z_busy (zs ! k) \<and> IsEmpty (zs ! k)) \<and>
           (v = None \<longrightarrow> (\<forall>j \<in> set is. z_busy (zs ! j) \<or> \<not> IsEmpty (zs ! j)))"
  using assms
proof (induction "is")
  case Nil
  then show ?case by simp
next
  case (Cons i "is")
  then show ?case
    by (cases "z_busy (zs ! i)"; cases "IsEmpty (zs ! i)")
      (auto simp: hold_def Let_def list_update_same_conv)
qed

section \<open>What an allocation keeps\<close>

text \<open>The parts of the device the allocators of I/O zones do not touch.\<close>

definition same_rest :: "'d zbd \<Rightarrow> 'd zbd \<Rightarrow> bool" where
  "same_rest dev dev' \<longleftrightarrow>
     wal_zones dev' = wal_zones dev \<and> meta_zones dev' = meta_zones dev \<and>
     length (io_zones dev') = length (io_zones dev) \<and>
     max_nr_active_io_zones dev' = max_nr_active_io_zones dev \<and>
     max_nr_open_io_zones dev' = max_nr_open_io_zones dev \<and>
     zone_deferred_status dev' = zone_deferred_status dev \<and>
     finish_threshold dev' = finish_threshold dev \<and> migrating dev' = migrating dev"

definition token_balance :: "'d zbd \<Rightarrow> int" where
  "token_balance dev = active_io_zones dev - active_cnt (io_zones dev)"

lemma active_cnt_update:
  "i < length zs \<Longrightarrow> active_cnt (zs[i := z]) =
     active_cnt zs - (if is_active (zs ! i) then 1 else 0) + (if is_active z then 1 else 0)"
proof (induction zs arbitrary: i)
  case Nil
  then show ?case by simp
next
  case (Cons y zs)
  then show ?case by (cases i) auto
qed

lemma active_cnt_hold [simp]: "active_cnt (hold zs v) = active_cnt zs"
proof (cases v)
  case (Some k)
  then show ?thesis
    by (cases "k < length zs") (simp_all add: hold_def active_cnt_update list_update_beyond)
qed simp

text \<open>\<^verbatim>\<open>FinishCheapestIOZone\<close> changes at most one zone, a finishable one with the least capacity.\<close>

definition cheapest :: "Zone list \<Rightarrow> nat \<Rightarrow> bool" where
  "cheapest zs v \<longleftrightarrow> finishable zs v \<and>
     (\<forall>j. finishable zs j \<longrightarrow> z_capacity (zs ! v) \<le> z_capacity (zs ! j))"

definition finished_one :: "Zone list \<Rightarrow> status \<Rightarrow> Zone list \<Rightarrow> bool" where
  "finished_one zs s zs' \<longleftrightarrow>
     s = OK \<and> zs' = zs \<and> (\<forall>j. \<not> finishable zs j) \<or>
     (\<exists>v z'. cheapest zs v \<and> zs' = zs[v := z'] \<and> finish_may (zs ! v) z' \<and> (s = OK \<longrightarrow> IsFull z'))"

lemma FinishCheapestIOZone_loop_run:
  obtains v where "FinishCheapestIOZone_loop [0..<length zs] zs None = (OK, hold zs v, v)"
    and "\<And>k. v = Some k \<Longrightarrow> cheapest zs k"
    and "v = None \<Longrightarrow> (\<forall>j. \<not> finishable zs j)"
proof -
  have "\<exists>v. FinishCheapestIOZone_loop [0..<length zs] (hold zs None) None = (OK, hold zs v, v) \<and>
           (\<forall>k. v = Some k \<longrightarrow> finishable zs k) \<and>
           (\<forall>j. (j \<in> set [0..<length zs] \<and> finishable zs j \<or> None = Some j) \<longrightarrow>
                (\<exists>k. v = Some k \<and> z_capacity (zs ! k) \<le> z_capacity (zs ! j)))"
    by (rule FinishCheapestIOZone_loop_spec) auto
  then show thesis
    by (elim exE conjE, intro that) (auto simp: cheapest_def finishable_def)
qed

lemma FinishCheapestIOZone_spec:
  assumes "FinishCheapestIOZone be dev = (s, dev')"
  shows "token_balance dev' = token_balance dev \<and> same_rest dev dev' \<and>
         open_io_zones dev' = open_io_zones dev \<and> finished_one (io_zones dev) s (io_zones dev')"
proof -
  let ?zs = "io_zones dev"
  obtain v where run: "FinishCheapestIOZone_loop [0..<length ?zs] ?zs None = (OK, hold ?zs v, v)"
      and best: "\<And>k. v = Some k \<Longrightarrow> cheapest ?zs k"
      and none: "v = None \<Longrightarrow> (\<forall>j. \<not> finishable ?zs j)"
    using FinishCheapestIOZone_loop_run [of ?zs] by blast
  show ?thesis
  proof (cases v)
    case None
    then show ?thesis
      using assms run none
      by (simp add: FinishCheapestIOZone_def same_rest_def token_balance_def finished_one_def)
  next
    case (Some k)
    then have k: "k < length ?zs" "\<not> z_busy (?zs ! k)" "is_active (?zs ! k)"
      using best by (auto simp: cheapest_def finishable_def)
    obtain fs z1 d where F: "Zone_Finish be ((?zs ! k)\<lparr>z_busy := True\<rparr>) (world dev) = (fs, z1, d)"
      using prod_cases3 by blast
    note shape = Zone_Finish_shape [OF F]
    define z' where "z' = z1\<lparr>z_busy := False\<rparr>"
    have may: "finish_may (?zs ! k) z'"
      using shape k by (cases "fs = OK") (auto simp: z'_def finish_may_def zone_kept_def)
    have full: "fs = OK \<Longrightarrow> IsFull z'" using shape by (simp add: z'_def)
    have dev': "s = fs" "io_zones dev' = ?zs[k := z']" "same_rest dev dev'"
      "active_io_zones dev' = (if fs = OK then active_io_zones dev - 1 else active_io_zones dev)"
      "open_io_zones dev' = open_io_zones dev"
      using assms run Some k F shape
      by (auto simp: FinishCheapestIOZone_def hold_def Let_def PutActiveIOZoneToken_def
          same_rest_def z'_def split: if_splits)
    have act: "is_active z' \<longleftrightarrow> fs \<noteq> OK"
      using shape k by (cases "fs = OK") (auto simp: z'_def is_active_def)
    have "finished_one ?zs s (io_zones dev')"
      unfolding finished_one_def dev' using best [OF Some] may full by blast
    then show ?thesis
      using dev' act k by (simp add: token_balance_def active_cnt_update)
  qed
qed

lemma same_rest_refl [simp]: "same_rest dev dev"
  by (simp add: same_rest_def)

lemma same_rest_trans: "same_rest a b \<Longrightarrow> same_rest b c \<Longrightarrow> same_rest a c"
  by (simp add: same_rest_def)

lemma finished_one_kept: "finished_one zs s zs' \<Longrightarrow> list_all2 zone_kept zs zs'"
  by (auto simp: finished_one_def cheapest_def finishable_def finish_may_def nth_list_update
      intro!: list_all2_all_nthI)

lemma token_simps [simp]:
  "io_zones (PutOpenIOZoneToken dev) = io_zones dev"
  "io_zones (PutActiveIOZoneToken dev) = io_zones dev"
  "open_io_zones (PutOpenIOZoneToken dev) = open_io_zones dev - 1"
  "open_io_zones (PutActiveIOZoneToken dev) = open_io_zones dev"
  "same_rest dev (PutOpenIOZoneToken dev')= same_rest dev dev'"
  "same_rest dev (PutActiveIOZoneToken dev') = same_rest dev dev'"
  "token_balance (PutOpenIOZoneToken dev) = token_balance dev"
  "token_balance (PutActiveIOZoneToken dev) = token_balance dev - 1"
  by (simp_all add: PutOpenIOZoneToken_def PutActiveIOZoneToken_def same_rest_def token_balance_def)

lemma GetActiveIOZoneToken_spec:
  assumes "GetActiveIOZoneTokenIfAvailable dev = (got, dev')"
  shows "io_zones dev' = io_zones dev" "open_io_zones dev' = open_io_zones dev"
    "same_rest dev dev'" "token_balance dev' = token_balance dev + (if got then 1 else 0)"
  using assms
  by (auto simp: GetActiveIOZoneTokenIfAvailable_def same_rest_def token_balance_def
      split: if_splits)

definition waited :: "'d zbd \<Rightarrow> status \<Rightarrow> 'd zbd \<Rightarrow> bool" where
  "waited dev s dev' \<longleftrightarrow>
     same_rest dev dev' \<and> open_io_zones dev' = open_io_zones dev \<and>
     list_all2 zone_kept (io_zones dev) (io_zones dev') \<and>
     token_balance dev' = token_balance dev + (if s = OK then 1 else 0)"

lemma waited_trans:
  "waited dev1 s dev2 \<Longrightarrow> same_rest dev dev1 \<Longrightarrow> open_io_zones dev1 = open_io_zones dev \<Longrightarrow>
   list_all2 zone_kept (io_zones dev) (io_zones dev1) \<Longrightarrow> token_balance dev1 = token_balance dev \<Longrightarrow>
   waited dev s dev2"
  by (auto simp: waited_def intro: same_rest_trans zones_kept_trans)

lemma WaitForActiveToken_step:
  assumes "\<And>d r. wait be d = Some r \<Longrightarrow> waited d (fst r) (snd r)"
    and "(let gt = GetActiveIOZoneTokenIfAvailable dev in
          if fst gt then Some (OK, snd gt)
          else let fr = FinishCheapestIOZone be (snd gt) in
               if \<not> ok (fst fr) then Some fr else wait be (snd fr)) = Some res"
  shows "waited dev (fst res) (snd res)"
proof -
  obtain got dev1 where tok: "GetActiveIOZoneTokenIfAvailable dev = (got, dev1)" by force
  note T = GetActiveIOZoneToken_spec [OF tok]
  obtain fs dev2 where fin: "FinishCheapestIOZone be dev1 = (fs, dev2)" by force
  note F = FinishCheapestIOZone_spec [OF fin]
  have kept: "list_all2 zone_kept (io_zones dev) (io_zones dev2)"
    using F T by (auto dest: finished_one_kept)
  have rest: "same_rest dev dev2" using F T by (auto intro: same_rest_trans)
  consider "got" | "\<not> got" "fs \<noteq> OK" | "\<not> got" "fs = OK" by blast
  then show ?thesis
  proof cases
    case 3
    then have "wait be dev2 = Some res" using assms(2) tok fin by (simp add: Let_def)
    then have "waited dev2 (fst res) (snd res)" by (rule assms(1))
    then show ?thesis by (rule waited_trans) (use kept rest F T 3 in simp_all)
  qed (use assms(2) tok fin kept rest F T in \<open>auto simp: waited_def Let_def\<close>)
qed

lemma WaitForActiveToken_spec:
  assumes "WaitForActiveToken be dev = Some (s, dev')"
  shows "waited dev s dev'"
proof -
  have "waited dev (fst (s, dev')) (snd (s, dev'))"
    by (rule WaitForActiveToken.raw_induct [of "\<lambda>_ dev res. waited dev (fst res) (snd res)", OF _ assms])
      (rule WaitForActiveToken_step)
  then show ?thesis by simp
qed

text \<open>The outcome of an allocation: which zone became busy, and what it costs in tokens.\<close>

definition zones_alloc :: "Zone list \<Rightarrow> nat option \<Rightarrow> Zone list \<Rightarrow> bool" where
  "zones_alloc zs r zs' \<longleftrightarrow>
     length zs' = length zs \<and>
     (\<forall>i. r = Some i \<longrightarrow> i < length zs \<and> \<not> z_busy (zs ! i)) \<and>
     (\<forall>j < length zs. z_start (zs' ! j) = z_start (zs ! j) \<and>
        z_used_capacity (zs' ! j) = z_used_capacity (zs ! j) \<and>
        z_busy (zs' ! j) = (z_busy (zs ! j) \<or> r = Some j) \<and>
        (z_busy (zs ! j) \<longrightarrow> zs' ! j = zs ! j))"

lemma zones_alloc_kept:
  "list_all2 zone_kept zs zs1 \<Longrightarrow> zones_alloc zs1 r zs' \<Longrightarrow> zones_alloc zs r zs'"
  by (auto simp: zones_alloc_def list_all2_conv_all_nth zone_kept_def)

lemma zones_alloc_None: "list_all2 zone_kept zs zs' \<Longrightarrow> zones_alloc zs None zs'"
  by (simp add: zones_alloc_def list_all2_conv_all_nth zone_kept_def)

lemma zones_alloc_hold:
  "(\<And>i. r = Some i \<Longrightarrow> i < length zs \<and> \<not> z_busy (zs ! i)) \<Longrightarrow> zones_alloc zs r (hold zs r)"
  by (cases r) (simp_all add: zones_alloc_def hold_def nth_list_update)

lemma AllocateEmptyZone_run:
  obtains v where "AllocateEmptyZone dev = (OK, v, dev\<lparr>io_zones := hold (io_zones dev) v\<rparr>)"
    and "\<And>k. v = Some k \<Longrightarrow> k < length (io_zones dev) \<and> \<not> z_busy (io_zones dev ! k) \<and>
              IsEmpty (io_zones dev ! k)"
proof -
  have "\<exists>v. AllocateEmptyZone_loop [0..<length (io_zones dev)] (io_zones dev)
              = (OK, v, hold (io_zones dev) v) \<and>
           (\<forall>k. v = Some k \<longrightarrow> k \<in> set [0..<length (io_zones dev)] \<and> \<not> z_busy (io_zones dev ! k) \<and>
                IsEmpty (io_zones dev ! k)) \<and>
           (v = None \<longrightarrow> (\<forall>j \<in> set [0..<length (io_zones dev)].
                z_busy (io_zones dev ! j) \<or> \<not> IsEmpty (io_zones dev ! j)))"
    by (rule AllocateEmptyZone_loop_spec) auto
  then obtain v where "AllocateEmptyZone_loop [0..<length (io_zones dev)] (io_zones dev)
              = (OK, v, hold (io_zones dev) v)"
      and "\<And>k. v = Some k \<Longrightarrow> k < length (io_zones dev) \<and> \<not> z_busy (io_zones dev ! k) \<and>
              IsEmpty (io_zones dev ! k)"
    by auto
  then show thesis by (intro that [of v]) (simp_all add: AllocateEmptyZone_def)
qed

definition alloc_outcome :: "'d zbd \<Rightarrow> status \<Rightarrow> nat option \<Rightarrow> 'd zbd \<Rightarrow> int \<Rightarrow> int \<Rightarrow> bool" where
  "alloc_outcome dev s r dev' opened balance \<longleftrightarrow>
     same_rest dev dev' \<and> zones_alloc (io_zones dev) r (io_zones dev') \<and>
     (s \<noteq> OK \<longrightarrow> r = None) \<and>
     open_io_zones dev' = open_io_zones dev + opened \<and>
     token_balance dev' = token_balance dev + balance"

lemma alloc_outcome_kept:
  assumes "alloc_outcome dev1 s r dev2 op bal" and "same_rest dev dev1"
    and "list_all2 zone_kept (io_zones dev) (io_zones dev1)"
    and "open_io_zones dev1 = open_io_zones dev + op1" "token_balance dev1 = token_balance dev + bal1"
  shows "alloc_outcome dev s r dev2 (op1 + op) (bal1 + bal)"
  using assms unfolding alloc_outcome_def
  by (auto intro: same_rest_trans zones_alloc_kept)

lemma zones_alloc_lifetime:
  assumes "i < length zs" and "\<not> z_busy (zs ! i)"
  shows "zones_alloc zs (Some i) ((hold zs (Some i))[i := (zs ! i)\<lparr>z_busy := True, z_lifetime := l\<rparr>])"
  using assms by (auto simp: zones_alloc_def hold_def nth_list_update)

lemma AllocateNewIOZone_empty:
  assumes "AllocateNewIOZone be lt True dev = Some (s, r, dev')"
  shows "alloc_outcome dev s r dev' (if r = None then - 1 else 0) (if r = None then - 1 else 0)"
    and "r = Some i \<Longrightarrow> IsEmpty (io_zones dev' ! i)"
proof -
  obtain v where run: "AllocateEmptyZone dev = (OK, v, dev\<lparr>io_zones := hold (io_zones dev) v\<rparr>)"
    and v: "\<And>k. v = Some k \<Longrightarrow> k < length (io_zones dev) \<and> \<not> z_busy (io_zones dev ! k) \<and>
              IsEmpty (io_zones dev ! k)"
    using AllocateEmptyZone_run [of dev] by blast
  have "zones_alloc (io_zones dev) v (hold (io_zones dev) v)" using v by (intro zones_alloc_hold) simp
  then show "alloc_outcome dev s r dev' (if r = None then - 1 else 0) (if r = None then - 1 else 0)"
    using assms run v
    by (cases v) (auto simp: AllocateNewIOZone_def alloc_outcome_def same_rest_def token_balance_def
        active_cnt_update is_active_def IsEmpty_def IsFull_def
        PutOpenIOZoneToken_def PutActiveIOZoneToken_def zones_alloc_lifetime)
  assume "r = Some i"
  then show "IsEmpty (io_zones dev' ! i)"
    using assms run v by (cases v) (auto simp: AllocateNewIOZone_def IsEmpty_def)
qed

lemma AllocateNewIOZone_wait:
  assumes "AllocateNewIOZone be lt False dev = Some (s, r, dev')"
  shows "(s \<noteq> OK \<and> r = None \<and> alloc_outcome dev s r dev' (- 1) 0) \<or>
         (\<exists>dev1. waited dev OK dev1 \<and> AllocateNewIOZone be lt True dev1 = Some (s, r, dev'))"
proof -
  obtain ws dev1 where W: "WaitForActiveToken be dev = Some (ws, dev1)"
    using assms by (auto simp: AllocateNewIOZone_def split: option.splits)
  note waited = WaitForActiveToken_spec [OF W]
  show ?thesis
  proof (cases "ws = OK")
    case True
    then show ?thesis using assms W waited by (auto simp: AllocateNewIOZone_def)
  next
    case False
    then have "s = ws" "r = None" "dev' = PutOpenIOZoneToken dev1"
      using assms W by (auto simp: AllocateNewIOZone_def)
    then show ?thesis
      using waited False by (auto simp: alloc_outcome_def waited_def zones_alloc_None)
  qed
qed

text \<open>Both cases together: the token the caller may hold already is the difference.\<close>

lemma AllocateNewIOZone_spec:
  assumes "AllocateNewIOZone be lt got dev = Some (s, r, dev')"
  shows "alloc_outcome dev s r dev' (if r = None then - 1 else 0)
           ((if r = None then 0 else 1) - (if got then 1 else 0))"
    and "r = Some i \<Longrightarrow> IsEmpty (io_zones dev' ! i)"
proof -
  show "alloc_outcome dev s r dev' (if r = None then - 1 else 0)
           ((if r = None then 0 else 1) - (if got then 1 else 0))"
  proof (cases got)
    case True
    then show ?thesis using AllocateNewIOZone_empty(1) assms by (cases r) fastforce+
  next
    case False
    with assms have "AllocateNewIOZone be lt False dev = Some (s, r, dev')" by simp
    then consider "r = None" "alloc_outcome dev s r dev' (- 1) 0"
      | dev1 where "waited dev OK dev1" "AllocateNewIOZone be lt True dev1 = Some (s, r, dev')"
      using AllocateNewIOZone_wait by blast
    then show ?thesis
    proof cases
      case 1
      then show ?thesis using False by simp
    next
      case 2
      show ?thesis
        using alloc_outcome_kept [OF AllocateNewIOZone_empty(1) [OF 2(2)], of dev 0 1] 2(1) False
        by (cases r) (simp_all add: waited_def)
    qed
  qed
  assume r: "r = Some i"
  have "\<exists>dev1. AllocateNewIOZone be lt True dev1 = Some (s, r, dev')"
    using AllocateNewIOZone_wait [of be lt dev s r dev'] assms r by (cases got) auto
  then show "IsEmpty (io_zones dev' ! i)"
    using AllocateNewIOZone_empty(2) r by blast
qed

lemma GetBestOpenZoneMatch_run:
  obtains v best where
    "GetBestOpenZoneMatch lt mincap dev = (OK, best, v, dev\<lparr>io_zones := hold (io_zones dev) v\<rparr>)"
    and "\<And>k. v = Some k \<Longrightarrow> fillable (ucast mincap) (io_zones dev) k \<and>
              GetLifeTimeDiff (z_lifetime (io_zones dev ! k)) lt = best"
    and "\<And>j. fillable (ucast mincap) (io_zones dev) j \<Longrightarrow>
              best \<le> GetLifeTimeDiff (z_lifetime (io_zones dev ! j)) lt"
    and "best \<le> LIFETIME_DIFF_NOT_GOOD"
    and "v = None \<Longrightarrow> best = LIFETIME_DIFF_NOT_GOOD"
proof -
  let ?zs = "io_zones dev" and ?diff = "\<lambda>i. GetLifeTimeDiff (z_lifetime (io_zones dev ! i)) lt"
  have "\<exists>v best. GetBestOpenZoneMatch_loop lt (ucast mincap) [0..<length ?zs] (hold ?zs None)
              LIFETIME_DIFF_NOT_GOOD None = (OK, hold ?zs v, best, v) \<and>
           best \<le> LIFETIME_DIFF_NOT_GOOD \<and> (v = None \<longrightarrow> best = LIFETIME_DIFF_NOT_GOOD \<and> (None :: nat option) = None) \<and>
           (\<forall>k. v = Some k \<longrightarrow> fillable (ucast mincap) ?zs k \<and> ?diff k = best) \<and>
           (\<forall>j \<in> set [0..<length ?zs]. fillable (ucast mincap) ?zs j \<longrightarrow>
              best \<le> ?diff j \<and> (v = None \<longrightarrow> LIFETIME_DIFF_NOT_GOOD < ?diff j))"
    by (rule GetBestOpenZoneMatch_loop_spec) auto
  then obtain v best where "GetBestOpenZoneMatch_loop lt (ucast mincap) [0..<length ?zs] ?zs
              LIFETIME_DIFF_NOT_GOOD None = (OK, hold ?zs v, best, v)"
      "best \<le> LIFETIME_DIFF_NOT_GOOD" "v = None \<longrightarrow> best = LIFETIME_DIFF_NOT_GOOD"
      "\<forall>k. v = Some k \<longrightarrow> fillable (ucast mincap) ?zs k \<and> ?diff k = best"
      "\<forall>j < length ?zs. fillable (ucast mincap) ?zs j \<longrightarrow> best \<le> ?diff j"
    by auto
  then show thesis
    by (intro that [of best v]) (simp_all add: GetBestOpenZoneMatch_def fillable_def)
qed

lemma ApplyFinishThreshold_spec:
  assumes "ApplyFinishThreshold be dev = (s, dev')"
  shows "same_rest dev dev'" and "open_io_zones dev' = open_io_zones dev"
    and "token_balance dev' = token_balance dev"
    and "list_all2 finish_may (io_zones dev) (io_zones dev')"
proof -
  have refl: "list_all2 finish_may zs zs" for zs
    by (rule list.rel_refl) (simp add: finish_may_def)
  consider "dev' = dev" | zs a d where "dev' = dev\<lparr>io_zones := zs, active_io_zones := a, world := d\<rparr>"
      "ApplyFinishThreshold_loop be (finish_threshold dev) (io_zones dev) (active_io_zones dev)
         (world dev) = (s, zs, a, d)"
    using assms by (auto simp: ApplyFinishThreshold_def split: if_splits prod.splits)
  then have "same_rest dev dev' \<and> open_io_zones dev' = open_io_zones dev \<and>
      token_balance dev' = token_balance dev \<and> list_all2 finish_may (io_zones dev) (io_zones dev')"
  proof cases
    case 1
    then show ?thesis by (simp add: refl)
  next
    case 2
    then show ?thesis
      using apply_finish.changes [OF 2(2)] apply_finish.balance [OF 2(2)]
        apply_finish.sweep_length [OF 2(2)]
      by (simp add: same_rest_def token_balance_def)
  qed
  then show "same_rest dev dev'" "open_io_zones dev' = open_io_zones dev"
    "token_balance dev' = token_balance dev" "list_all2 finish_may (io_zones dev) (io_zones dev')"
    by simp_all
qed

lemma zones_kept_finish: "list_all2 finish_may zs zs' \<Longrightarrow> list_all2 zone_kept zs zs'"
  by (erule list_all2_mono) (simp add: finish_may_def)

lemma WaitForOpenIOZoneToken_spec:
  assumes "WaitForOpenIOZoneToken p dev = Some dev'"
  shows "dev' = dev\<lparr>open_io_zones := open_io_zones dev + 1\<rparr>"
  using assms by (auto simp: WaitForOpenIOZoneToken_def Let_def split: if_splits)

text \<open>A zone found by the life-time match is not empty, so it costs no active token.\<close>

lemma fillable_not_empty:
  assumes "list_all2 finish_may zs zs1" and "\<forall>z \<in> set zs. IsUsed z \<longrightarrow> \<not> IsEmpty z"
    and "fillable m zs1 a"
  shows "\<not> IsEmpty (zs1 ! a)"
proof -
  have a: "a < length zs" and may: "finish_may (zs ! a) (zs1 ! a)"
    using assms(1,3) by (auto simp: list_all2_conv_all_nth fillable_def)
  have "zs1 ! a = zs ! a" using may assms(3) by (auto simp: finish_may_def fillable_def)
  then show ?thesis using assms(2,3) a by (auto simp: fillable_def)
qed

definition new_token :: "nat option \<Rightarrow> 'd zbd \<Rightarrow> int" where
  "new_token r dev' = (case r of None \<Rightarrow> 0 | Some i \<Rightarrow> if IsEmpty (io_zones dev' ! i) then 1 else 0)"

lemma AllocateNewIOZone_token:
  assumes "AllocateNewIOZone be lt got dev = Some (s, r, dev')"
  shows "alloc_outcome dev s r dev' (if r = None then - 1 else 0) (new_token r dev' - (if got then 1 else 0))"
  using AllocateNewIOZone_spec [OF assms] by (cases r) (simp_all add: new_token_def)

text \<open>The search and the hand-out, on a device that holds an open token for the caller.\<close>

lemma AllocateIOZone_search:
  assumes "GetBestOpenZoneMatch lt 0 dev2 = (s3, best, alloc, dev3)"
    and run: "AllocateIOZone_choose be lt best alloc dev3 = Some (s, r, dev')"
    and nonempty: "\<And>a. fillable 0 (io_zones dev2) a \<Longrightarrow> \<not> IsEmpty (io_zones dev2 ! a)"
  shows "alloc_outcome dev2 s r dev' (if r = None then - 1 else 0) (new_token r dev')"
proof -
  let ?zs = "io_zones dev2"
  have dev3: "dev3 = dev2\<lparr>io_zones := hold ?zs alloc\<rparr>"
    and alloc: "\<And>k. alloc = Some k \<Longrightarrow> fillable 0 ?zs k"
    and none: "alloc = None \<Longrightarrow> best = LIFETIME_DIFF_NOT_GOOD"
    by (rule GetBestOpenZoneMatch_run [of lt 0 dev2], use assms(1) in simp)+
  obtain got dev4 where tok: "GetActiveIOZoneTokenIfAvailable dev3 = (got, dev4)" by force
  note T = GetActiveIOZoneToken_spec [OF tok]
  have rest4: "same_rest dev2 dev4" using T(3) by (simp add: dev3 same_rest_def)
  have bal4: "token_balance dev4 = token_balance dev2 + (if got then 1 else 0)"
    using T(4) by (simp add: dev3 token_balance_def)
  have handed: ?thesis if "s = OK" "r = Some a" "alloc = Some a" "dev' = d" "same_rest dev2 d"
      "io_zones d = hold ?zs (Some a)" "open_io_zones d = open_io_zones dev2"
      "token_balance d = token_balance dev2" for a d
    using that alloc [of a] nonempty [of a]
    by (auto simp: alloc_outcome_def new_token_def fillable_def intro!: zones_alloc_hold)
  show ?thesis
  proof (cases alloc)
    case None
    then have "AllocateNewIOZone be lt got dev4 = Some (s, r, dev')"
      using run tok none
      by (simp add: AllocateIOZone_choose_def LIFETIME_DIFF_NOT_GOOD_def LIFETIME_DIFF_COULD_BE_WORSE_def)
    from alloc_outcome_kept [OF AllocateNewIOZone_token [OF this] rest4] show ?thesis
      using T None bal4 by (simp add: dev3)
  next
    case (Some a)
    then have a: "a < length ?zs" "\<not> z_busy (?zs ! a)" using alloc by (auto simp: fillable_def)
    consider "\<not> best \<ge> LIFETIME_DIFF_COULD_BE_WORSE"
      | "best \<ge> LIFETIME_DIFF_COULD_BE_WORSE" "\<not> got" "best = LIFETIME_DIFF_COULD_BE_WORSE"
      | "best \<ge> LIFETIME_DIFF_COULD_BE_WORSE" "got \<or> best \<noteq> LIFETIME_DIFF_COULD_BE_WORSE"
      by blast
    then show ?thesis
    proof cases
      case 1
      then show ?thesis
        using run Some by (intro handed [of a dev3]) (auto simp: AllocateIOZone_choose_def dev3 same_rest_def token_balance_def)
    next
      case 2
      then show ?thesis
        using run Some tok T rest4 bal4 by (intro handed [of a dev4]) (auto simp: AllocateIOZone_choose_def dev3)
    next
      case 3
      define dev5 where "dev5 = dev4\<lparr>io_zones := ?zs\<rparr>"
      have "put_zone (IoZ a) ((?zs ! a)\<lparr>z_busy := False\<rparr>) dev4 = dev5"
        using a T(1) Some by (simp add: dev5_def dev3 hold_def)
      then have "AllocateNewIOZone be lt got dev5 = Some (s, r, dev')"
        using run tok 3 T(1) Some a by (auto simp: AllocateIOZone_choose_def dev3 Let_def)
      from alloc_outcome_kept [OF AllocateNewIOZone_token [OF this], of dev2] show ?thesis
        using rest4 T bal4 Some by (simp add: dev5_def dev3 same_rest_def token_balance_def)
    qed
  qed
qed

section \<open>Properties\<close>

text \<open>
  C9. Every run of \<^verbatim>\<open>AllocateIOZone\<close> that returns accounts exactly for what it hands out. On an
  error, and when it returns no zone, no zone is left acquired and no open token is kept. A zone it
  returns was idle and is now the one additional busy zone; it costs one open token, and one active
  token more than the active zones cover exactly if the zone is still empty. Busy zones, the other
  zone lists and the limits stay as they are.
\<close>

theorem AllocateIOZone_accounting:
  assumes "AllocateIOZone be file_lifetime is_kWAL dev = Some (s, r, dev')"
    and "\<forall>z \<in> set (io_zones dev). IsUsed z \<longrightarrow> \<not> IsEmpty z"
  shows "(s \<noteq> OK \<longrightarrow> r = None) \<and> same_rest dev dev' \<and>
         zones_alloc (io_zones dev) r (io_zones dev') \<and>
         open_io_zones dev' = open_io_zones dev + (if r = None then 0 else 1) \<and>
         active_io_zones dev' - active_cnt (io_zones dev') =
           active_io_zones dev - active_cnt (io_zones dev) +
           (case r of None \<Rightarrow> 0 | Some i \<Rightarrow> if IsEmpty (io_zones dev' ! i) then 1 else 0)"
proof -
  obtain s1 dev1 where A: "(if \<not> is_kWAL then ApplyFinishThreshold be dev else (OK, dev)) = (s1, dev1)"
    by (metis surj_pair)
  have refl: "list_all2 finish_may zs zs" for zs
    by (rule list.rel_refl) (simp add: finish_may_def)
  have D1: "same_rest dev dev1" "open_io_zones dev1 = open_io_zones dev"
      "token_balance dev1 = token_balance dev" "list_all2 finish_may (io_zones dev) (io_zones dev1)"
    using A ApplyFinishThreshold_spec [of be dev s1 dev1] by (auto simp: refl split: if_splits)
  note kept = zones_kept_finish [OF D1(4)]
  have "alloc_outcome dev s r dev' (if r = None then 0 else 1) (new_token r dev')"
  proof (cases "GetZoneDeferredStatus dev = OK \<and> s1 = OK")
    case False
    then have "s \<noteq> OK \<and> r = None \<and> (dev' = dev \<or> dev' = dev1)"
      using assms(1) unfolding AllocateIOZone_def A
      by (cases "GetZoneDeferredStatus dev = OK") (auto simp: Let_def)
    then show ?thesis
      using D1 kept by (auto simp: alloc_outcome_def new_token_def zones_alloc_None)
  next
    case True
    then obtain dev2 where W: "WaitForOpenIOZoneToken is_kWAL dev1 = Some dev2"
      using assms(1) unfolding AllocateIOZone_def A
      by (cases "WaitForOpenIOZoneToken is_kWAL dev1") (simp_all add: Let_def)
    note dev2 = WaitForOpenIOZoneToken_spec [OF W]
    obtain best v where G: "GetBestOpenZoneMatch file_lifetime 0 dev2
          = (OK, best, v, dev2\<lparr>io_zones := hold (io_zones dev2) v\<rparr>)"
      by (rule GetBestOpenZoneMatch_run)
    have "AllocateIOZone_choose be file_lifetime best v (dev2\<lparr>io_zones := hold (io_zones dev2) v\<rparr>)
          = Some (s, r, dev')"
      using assms(1) True W G unfolding AllocateIOZone_def A by (simp add: Let_def)
    then have "alloc_outcome dev2 s r dev' (if r = None then - 1 else 0) (new_token r dev')"
      by (rule AllocateIOZone_search [OF G])
        (use fillable_not_empty [OF D1(4) assms(2)] in \<open>simp add: dev2\<close>)
    from alloc_outcome_kept [OF this, of dev 1 0] show ?thesis
      using D1 kept by (cases r) (simp_all add: dev2 same_rest_def token_balance_def)
  qed
  then show ?thesis
    by (cases r) (simp_all add: alloc_outcome_def token_balance_def new_token_def)
qed

theorem AllocateIOZone_accounting_witness:
  "\<exists>dev'. AllocateIOZone (ram_backend 8192) WLTH_SHORT False two_zone_dev = Some (OK, Some 0, dev') \<and>
     open_io_zones dev' = 1 \<and> active_io_zones dev' - active_cnt (io_zones dev') = 0"
proof -
  obtain dev' where run:
    "AllocateIOZone (ram_backend 8192) WLTH_SHORT False two_zone_dev = Some (OK, Some 0, dev')"
    "\<not> IsEmpty (io_zones dev' ! 0)"
    by (simp add: AllocateIOZone_def AllocateIOZone_choose_def two_zone_dev_def GetZoneDeferredStatus_def Let_def
        ApplyFinishThreshold_def WaitForOpenIOZoneToken_def GetBestOpenZoneMatch_def upt_rec
        IsFull_def IsEmpty_def GetLifeTimeDiff_def lifetime_defs LIFETIME_DIFF_NOT_GOOD_def
        LIFETIME_DIFF_COULD_BE_WORSE_def word_le_nat_alt)
  have "\<forall>z \<in> set (io_zones two_zone_dev). IsUsed z \<longrightarrow> \<not> IsEmpty z"
    by (simp add: two_zone_dev_def IsUsed_def IsEmpty_def Let_def)
  from AllocateIOZone_accounting [OF run(1) this] run show ?thesis
    by (simp add: two_zone_dev_def IsFull_def IsEmpty_def is_active_def Let_def)
qed

text \<open>
  C22. \<^verbatim>\<open>GetBestOpenZoneMatch\<close> always succeeds, acquires nothing but its result, and the result is an
  idle, used, not full zone with enough capacity whose life-time difference is the least among all
  such zones; it is missing only if every difference exceeds \<^verbatim>\<open>LIFETIME_DIFF_NOT_GOOD\<close>.
\<close>

theorem GetBestOpenZoneMatch_optimal:
  "\<exists>best v. GetBestOpenZoneMatch lt mincap dev
              = (OK, best, v, dev\<lparr>io_zones := hold (io_zones dev) v\<rparr>) \<and>
     (case v of
        Some k \<Rightarrow> fillable (ucast mincap) (io_zones dev) k \<and>
                  GetLifeTimeDiff (z_lifetime (io_zones dev ! k)) lt = best
      | None \<Rightarrow> best = LIFETIME_DIFF_NOT_GOOD) \<and>
     \<not> (\<exists>j. fillable (ucast mincap) (io_zones dev) j \<and>
            GetLifeTimeDiff (z_lifetime (io_zones dev ! j)) lt < best)"
proof -
  obtain v best where
    run: "GetBestOpenZoneMatch lt mincap dev
            = (OK, best, v, dev\<lparr>io_zones := hold (io_zones dev) v\<rparr>)"
    and v: "\<And>k. v = Some k \<Longrightarrow> fillable (ucast mincap) (io_zones dev) k \<and>
              GetLifeTimeDiff (z_lifetime (io_zones dev ! k)) lt = best"
    and opt: "\<And>j. fillable (ucast mincap) (io_zones dev) j \<Longrightarrow>
              best \<le> GetLifeTimeDiff (z_lifetime (io_zones dev ! j)) lt"
    and "best \<le> LIFETIME_DIFF_NOT_GOOD"
    and none: "v = None \<Longrightarrow> best = LIFETIME_DIFF_NOT_GOOD"
    by (rule GetBestOpenZoneMatch_run [of lt mincap dev]) (rule that)
  have "\<not> (\<exists>j. fillable (ucast mincap) (io_zones dev) j \<and>
            GetLifeTimeDiff (z_lifetime (io_zones dev ! j)) lt < best)"
    using opt by (auto simp: not_less)
  moreover have "case v of
        Some k \<Rightarrow> fillable (ucast mincap) (io_zones dev) k \<and>
                  GetLifeTimeDiff (z_lifetime (io_zones dev ! k)) lt = best
      | None \<Rightarrow> best = LIFETIME_DIFF_NOT_GOOD"
    using v none by (cases v) simp_all
  ultimately show ?thesis using run by blast
qed

text \<open>
  C21. \<^verbatim>\<open>FinishCheapestIOZone\<close> finishes an idle active zone with the least remaining capacity, if
  there is one; it changes no other zone, leaves nothing acquired, and returns an active token
  exactly when the finish succeeded, so the tokens not covered by an active zone stay the same.
\<close>

theorem FinishCheapestIOZone_cheapest:
  assumes "FinishCheapestIOZone be dev = (s, dev')"
  shows "active_io_zones dev' - active_cnt (io_zones dev')
           = active_io_zones dev - active_cnt (io_zones dev) \<and>
         open_io_zones dev' = open_io_zones dev \<and> same_rest dev dev' \<and>
         list_all2 zone_kept (io_zones dev) (io_zones dev') \<and>
         finished_one (io_zones dev) s (io_zones dev')"
  using FinishCheapestIOZone_spec [OF assms] finished_one_kept by (auto simp: token_balance_def)

theorem FinishCheapestIOZone_cheapest_witness:
  "active_io_zones (snd (FinishCheapestIOZone (ram_backend 8192) two_zone_dev)) = 1 \<and>
   finished_one (io_zones two_zone_dev) OK
     (io_zones (snd (FinishCheapestIOZone (ram_backend 8192) two_zone_dev)))"
proof -
  have run: "FinishCheapestIOZone (ram_backend 8192) two_zone_dev
        = (OK, snd (FinishCheapestIOZone (ram_backend 8192) two_zone_dev))"
    and act: "active_io_zones (snd (FinishCheapestIOZone (ram_backend 8192) two_zone_dev)) = 1"
    by (simp_all add: FinishCheapestIOZone_def two_zone_dev_def Let_def upt_rec IsFull_def IsEmpty_def
        Zone_Finish_def ram_backend_def PutActiveIOZoneToken_def)
  from FinishCheapestIOZone_cheapest [OF run] act show ?thesis by simp
qed

text \<open>
  C25. A deferred zone error is never recorded: \<^verbatim>\<open>SetZoneDeferredStatus\<close> keeps a status that is
  \<^verbatim>\<open>OK\<close>, so \<^verbatim>\<open>GetZoneDeferredStatus\<close> goes on answering \<^verbatim>\<open>OK\<close> whatever is reported.
\<close>

theorem deferred_status_never_set:
  assumes "GetZoneDeferredStatus dev = OK"
  shows "GetZoneDeferredStatus (fold SetZoneDeferredStatus reports dev) = OK"
  using assms
  by (induction reports arbitrary: dev) (simp_all add: SetZoneDeferredStatus_def GetZoneDeferredStatus_def)

theorem deferred_status_never_set_witness:
  "GetZoneDeferredStatus (fold SetZoneDeferredStatus [IOError, Corruption] two_zone_dev) = OK"
  using deferred_status_never_set [of two_zone_dev "[IOError, Corruption]"]
  by (simp add: two_zone_dev_def GetZoneDeferredStatus_def Let_def)

end
