(* ===== verification/ZoneFile.thy ===== *)
theory ZoneFile
  imports Coding Zbd_Alloc
begin

text \<open>
  Files and their metadata (\<^verbatim>\<open>class ZoneExtent\<close> and \<^verbatim>\<open>class ZoneFile\<close> of \<^verbatim>\<open>io_zenfs.h\<close> and
  \<^verbatim>\<open>io_zenfs.cc\<close>): the file object, the encoding of its metadata, decoding, merging of updates, and
  the bookkeeping of extents and links.

  A file object is a record. Operations that reach the device take it and return it changed; a
  \<^verbatim>\<open>Zone*\<close> is a reference into the device's zone lists.
\<close>

section \<open>State\<close>

record ZoneExtent =
  e_start :: u64
  e_length :: u64
  e_zone :: zref

text \<open>\<^verbatim>\<open>IOType\<close> of \<^verbatim>\<open>rocksdb/file_system.h\<close>.\<close>

datatype IOType = kData | kFilter | kIndex | kMetadata | kWAL | kManifest | kLog | kUnknown | kInvalid

text \<open>
  \<^verbatim>\<open>loaded_wal_chunks_\<close> is flattened into the four \<open>chunk\<close> fields. The locks, the statistics and the
  metadata writer are not fields: the writer is an argument of the operations that persist.
\<close>

record ZoneFile =
  extents :: "ZoneExtent list"
  linkfiles :: "bytes list"
  active_zone :: "zref option"
  extent_start :: u64
  extent_filepos :: u64
  zf_lifetime :: u32
  io_type :: IOType
  is_wal :: bool
  wal_seq :: u64
  wal :: "nat option"
  chunk_start :: u64
  chunk_end :: u64
  chunk_jump :: u64
  chunk_entries :: "(u64 \<times> bytes) list"
  chunk_id :: u64
  append_bytes_since_last_barrier :: u64
  file_size :: u64
  file_id :: u64
  nr_synced_extents :: u32
  open_for_wr :: bool
  m_time :: u64
  is_sparse :: bool
  is_deleted :: bool
  reader_offset :: u64
  reader_offset_index :: u64
  last_read :: u64

definition NO_EXTENT :: u64 where "NO_EXTENT = 0xffffffffffffffff"

definition newZoneFile :: "u64 \<Rightarrow> ZoneFile" where
  "newZoneFile fid =
     \<lparr> extents = [], linkfiles = [], active_zone = None, extent_start = NO_EXTENT,
       extent_filepos = 0, zf_lifetime = WLTH_NOT_SET, io_type = kUnknown, is_wal = False,
       wal_seq = 0, wal = None, chunk_start = 1, chunk_end = 0, chunk_jump = 0, chunk_entries = [],
       chunk_id = 0, append_bytes_since_last_barrier = 0, file_size = 0, file_id = fid,
       nr_synced_extents = 0, open_for_wr = False, m_time = 0, is_sparse = False,
       is_deleted = False, reader_offset = 0, reader_offset_index = 0, last_read = 0 \<rparr>"

text \<open>
  Two constants are chosen when the plugin is built: the size of the sparse write buffer and the
  distance of the barriers in a write-ahead log, in KiB.
\<close>

record config =
  SPARSE_BUFFER_SIZE_IN_KB :: u64
  WAL_BARRIER_SIZE_IN_KB :: u64

definition KiB :: u64 where "KiB = 1024"

definition barrier :: "config \<Rightarrow> u64" where
  "barrier cfg = WAL_BARRIER_SIZE_IN_KB cfg * KiB"

definition SPARSE_HEADER_SIZE :: u64 where "SPARSE_HEADER_SIZE = 8"
definition SPARSE_WAL_HEADER_SIZE :: u64 where "SPARSE_WAL_HEADER_SIZE = 8"

definition header_size :: "ZoneFile \<Rightarrow> u64" where
  "header_size zf = SPARSE_HEADER_SIZE + (if is_wal zf then SPARSE_WAL_HEADER_SIZE else 0)"

section \<open>Encoding\<close>

definition ZoneExtent_EncodeTo :: "bytes \<Rightarrow> ZoneExtent \<Rightarrow> bytes" where
  "ZoneExtent_EncodeTo output e = PutFixed64 (PutFixed64 output (e_start e)) (e_length e)"

text \<open>On success, the start and the length that were read.\<close>

definition ZoneExtent_DecodeFrom :: "bytes \<Rightarrow> status \<times> u64 \<times> u64" where
  "ZoneExtent_DecodeFrom input =
     (if length input \<noteq> 8 + 8 then (Corruption, 0, 0)
      else case GetFixed64 input of
        (st, r1) \<Rightarrow> (case GetFixed64 r1 of
          (len, r2) \<Rightarrow> (OK, the st, the len)))"

definition kFileID :: u32 where "kFileID = 1"
definition kFileNameDeprecated :: u32 where "kFileNameDeprecated = 2"
definition kFileSize :: u32 where "kFileSize = 3"
definition kWriteLifeTimeHint :: u32 where "kWriteLifeTimeHint = 4"
definition kExtent :: u32 where "kExtent = 5"
definition kModificationTime :: u32 where "kModificationTime = 6"
definition kActiveExtentStart :: u32 where "kActiveExtentStart = 7"
definition kIsSparse :: u32 where "kIsSparse = 8"
definition kLinkedFilename :: u32 where "kLinkedFilename = 9"
definition kWALSeq :: u32 where "kWALSeq = 10"

lemmas ZoneFileTag_defs =
  kFileID_def kFileNameDeprecated_def kFileSize_def kWriteLifeTimeHint_def kExtent_def
  kModificationTime_def kActiveExtentStart_def kIsSparse_def kLinkedFilename_def kWALSeq_def

fun EncodeExtents :: "bytes \<Rightarrow> ZoneExtent list \<Rightarrow> bytes" where
  "EncodeExtents output [] = output"
| "EncodeExtents output (e # es) =
     EncodeExtents (PutLengthPrefixedSlice (PutFixed32 output kExtent) (ZoneExtent_EncodeTo [] e)) es"

fun EncodeLinks :: "bytes \<Rightarrow> bytes list \<Rightarrow> bytes" where
  "EncodeLinks output [] = output"
| "EncodeLinks output (n # ns) =
     EncodeLinks (PutLengthPrefixedSlice (PutFixed32 output kLinkedFilename) n) ns"

definition ZoneFile_EncodeTo :: "bytes \<Rightarrow> ZoneFile \<Rightarrow> u32 \<Rightarrow> bytes" where
  "ZoneFile_EncodeTo output zf first =
     (let o1 = PutFixed64 (PutFixed32 output kFileID) (file_id zf);
          o2 = PutFixed64 (PutFixed32 o1 kFileSize) (file_size zf);
          o3 = PutFixed32 (PutFixed32 o2 kWriteLifeTimeHint) (zf_lifetime zf);
          o4 = EncodeExtents o3 (drop (unat first) (extents zf));
          o5 = (if is_wal zf then PutFixed64 (PutFixed32 o4 kWALSeq) (wal_seq zf) else o4);
          o6 = PutFixed64 (PutFixed32 o5 kModificationTime) (m_time zf);
          o7 = PutFixed64 (PutFixed32 o6 kActiveExtentStart) (extent_start zf);
          o8 = (if is_sparse zf then PutFixed32 o7 kIsSparse else o7)
      in EncodeLinks o8 (linkfiles zf))"

definition EncodeUpdateTo :: "bytes \<Rightarrow> ZoneFile \<Rightarrow> bytes" where
  "EncodeUpdateTo output zf = ZoneFile_EncodeTo output zf (nr_synced_extents zf)"

definition ZoneFile_EncodeSnapshotTo :: "bytes \<Rightarrow> ZoneFile \<Rightarrow> bytes" where
  "ZoneFile_EncodeSnapshotTo output zf = ZoneFile_EncodeTo output zf 0"

definition MetadataSynced :: "ZoneFile \<Rightarrow> ZoneFile" where
  "MetadataSynced zf = zf\<lparr>nr_synced_extents := of_nat (length (extents zf))\<rparr>"

definition MetadataUnsynced :: "ZoneFile \<Rightarrow> ZoneFile" where
  "MetadataUnsynced zf = zf\<lparr>nr_synced_extents := 0\<rparr>"

section \<open>Decoding\<close>

text \<open>\<open>add_used r n\<close> is \<^verbatim>\<open>zone->used_capacity_ += n\<close>.\<close>

definition add_used :: "zref \<Rightarrow> u64 \<Rightarrow> 'd zbd \<Rightarrow> 'd zbd" where
  "add_used r n dev = put_zone r ((zone_at dev r)\<lparr>z_used_capacity := z_used_capacity (zone_at dev r) + n\<rparr>) dev"

text \<open>
  What the decoding loop carries along: the file, the device, and the two local variables
  \<^verbatim>\<open>is_wal\<close> and \<^verbatim>\<open>pad_sz\<close>.
\<close>

record 'd decoding =
  dc_file :: ZoneFile
  dc_dev :: "'d zbd"
  dc_is_wal :: bool
  dc_pad_sz :: u64

definition DecodeExtent :: "'d backend \<Rightarrow> bytes \<Rightarrow> 'd decoding \<Rightarrow> status \<times> bytes \<times> 'd decoding" where
  "DecodeExtent be input dc =
     (case GetLengthPrefixedSlice input of (sl, rest) \<Rightarrow>
      (case ZoneExtent_DecodeFrom (case sl of Some b \<Rightarrow> b | None \<Rightarrow> []) of (s, st, len) \<Rightarrow>
         if \<not> ok s then (s, rest, dc)
         else case GetIOZone be (dc_dev dc) st of
           None \<Rightarrow> (Corruption, rest, dc)
         | Some r \<Rightarrow>
             (let dev1 = add_used r len (dc_dev dc);
                  align = ucast (len mod 4096) :: u32;
                  pad = (if align \<noteq> 0 then dc_pad_sz dc + (4096 - ucast align) else dc_pad_sz dc);
                  zf1 = (dc_file dc)\<lparr>extents := extents (dc_file dc) @
                           [\<lparr> e_start = st, e_length = len, e_zone = r \<rparr>]\<rparr> in
              case wal zf1 of
                Some h \<Rightarrow> (OK, rest, dc\<lparr>dc_file := zf1, dc_dev := dev1, dc_pad_sz := pad\<rparr>)
              | None \<Rightarrow>
                  (case GetWAL be st dev1 of (wal_pos, dev2) \<Rightarrow>
                     (OK, rest, dc\<lparr>dc_file := (if wal_pos \<noteq> None then zf1\<lparr>wal := wal_pos\<rparr> else zf1),
                                   dc_dev := dev2, dc_pad_sz := pad\<rparr>)))))"

definition DecodeTag :: "'d backend \<Rightarrow> u32 \<Rightarrow> bytes \<Rightarrow> 'd decoding \<Rightarrow> status \<times> bytes \<times> 'd decoding" where
  "DecodeTag be tag input dc =
     (let zf = dc_file dc in
      if tag = kFileSize then
        (case GetFixed64 input of
           (None, r) \<Rightarrow> (Corruption, r, dc)
         | (Some v, r) \<Rightarrow> (OK, r, dc\<lparr>dc_file := zf\<lparr>file_size := v\<rparr>\<rparr>))
      else if tag = kWriteLifeTimeHint then
        (case GetFixed32 input of
           (None, r) \<Rightarrow> (Corruption, r, dc)
         | (Some v, r) \<Rightarrow> (OK, r, dc\<lparr>dc_file := zf\<lparr>zf_lifetime := v\<rparr>\<rparr>))
      else if tag = kExtent then DecodeExtent be input dc
      else if tag = kModificationTime then
        (case GetFixed64 input of
           (None, r) \<Rightarrow> (Corruption, r, dc)
         | (Some v, r) \<Rightarrow> (OK, r, dc\<lparr>dc_file := zf\<lparr>m_time := v\<rparr>\<rparr>))
      else if tag = kActiveExtentStart then
        (case GetFixed64 input of
           (None, r) \<Rightarrow> (Corruption, r, dc)
         | (Some v, r) \<Rightarrow> (OK, r, dc\<lparr>dc_file := zf\<lparr>extent_start := v\<rparr>\<rparr>))
      else if tag = kIsSparse then (OK, input, dc\<lparr>dc_file := zf\<lparr>is_sparse := True\<rparr>\<rparr>)
      else if tag = kLinkedFilename then
        (case GetLengthPrefixedSlice input of
           (None, r) \<Rightarrow> (Corruption, r, dc)
         | (Some n, r) \<Rightarrow>
             if length n = 0 then (Corruption, r, dc)
             else (OK, r, dc\<lparr>dc_file := zf\<lparr>linkfiles := linkfiles zf @ [n]\<rparr>\<rparr>))
      else if tag = kWALSeq then
        (case GetFixed64 input of
           (None, r) \<Rightarrow> (Corruption, r, dc\<lparr>dc_is_wal := True\<rparr>)
         | (Some v, r) \<Rightarrow> (OK, r, dc\<lparr>dc_is_wal := True, dc_file := zf\<lparr>wal_seq := v\<rparr>\<rparr>))
      else (Corruption, input, dc))"

text \<open>The readers return a suffix of their input, so the decoding loop ends.\<close>

lemma GetFixed32_rest: "GetFixed32 input = (v, r) \<Longrightarrow> length r \<le> length input"
  "GetFixed32 input = (Some x, r) \<Longrightarrow> length r < length input"
  by (auto simp: GetFixed32_def split: if_splits)

lemma GetFixed64_rest: "GetFixed64 input = (v, r) \<Longrightarrow> length r \<le> length input"
  by (auto simp: GetFixed64_def split: if_splits)

lemma GetVarint32PtrFallback_loop_rest:
  "GetVarint32PtrFallback_loop sh res p = Some (v, q) \<Longrightarrow> length q < length p"
  by (induction sh res p rule: GetVarint32PtrFallback_loop.induct)
    (auto simp: Let_def split: if_splits dest: less_SucI)

lemma GetVarint32_rest: "GetVarint32 input = (v, r) \<Longrightarrow> length r \<le> length input"
  by (auto simp: GetVarint32_def GetVarint32Ptr_eq GetVarint32PtrFallback_def split: option.splits
      dest: GetVarint32PtrFallback_loop_rest)

lemma GetLengthPrefixedSlice_rest:
  "GetLengthPrefixedSlice input = (v, r) \<Longrightarrow> length r \<le> length input"
  by (auto simp: GetLengthPrefixedSlice_def split: prod.splits option.splits if_splits
      dest: GetVarint32_rest)

lemma DecodeExtent_rest: "DecodeExtent be input dc = (s, r, dc') \<Longrightarrow> length r \<le> length input"
  by (cases "GetLengthPrefixedSlice input")
    (auto simp: DecodeExtent_def Let_def split: prod.splits option.splits if_splits
      dest: GetLengthPrefixedSlice_rest)

lemma DecodeTag_rest: "DecodeTag be tag input dc = (s, r, dc') \<Longrightarrow> length r \<le> length input"
  by (cases "GetFixed64 input"; cases "GetFixed32 input"; cases "GetLengthPrefixedSlice input")
    (auto simp: DecodeTag_def Let_def split: option.splits if_splits
      dest: GetFixed32_rest(1) GetFixed64_rest GetLengthPrefixedSlice_rest DecodeExtent_rest)

function ZoneFile_DecodeFrom_loop ::
    "'d backend \<Rightarrow> bytes \<Rightarrow> 'd decoding \<Rightarrow> status \<times> 'd decoding" where
  "ZoneFile_DecodeFrom_loop be input dc =
     (case GetFixed32 input of
        (None, r) \<Rightarrow> (OK, dc)
      | (Some tag, r) \<Rightarrow>
          (case DecodeTag be tag r dc of
             (s, r', dc') \<Rightarrow> if \<not> ok s then (s, dc') else ZoneFile_DecodeFrom_loop be r' dc'))"
  by pat_completeness auto
termination
  by (relation "measure (\<lambda>(be, input, dc). length input)")
    (auto dest!: sym [of "(Some _, _)"] sym [of "(_, _, _)"] dest: GetFixed32_rest DecodeTag_rest
      intro: le_less_trans)

declare ZoneFile_DecodeFrom_loop.simps [simp del]

definition ZoneFile_DecodeFrom ::
    "config \<Rightarrow> 'd backend \<Rightarrow> bytes \<Rightarrow> ZoneFile \<Rightarrow> 'd zbd \<Rightarrow> status \<times> ZoneFile \<times> 'd zbd" where
  "ZoneFile_DecodeFrom cfg be input zf dev =
     (case GetFixed32 input of (tag, r1) \<Rightarrow>
        if tag \<noteq> Some kFileID then (Corruption, zf, dev)
        else case GetFixed64 r1 of
          (None, r2) \<Rightarrow> (Corruption, zf, dev)
        | (Some fid, r2) \<Rightarrow>
            (case ZoneFile_DecodeFrom_loop be r2
                    \<lparr> dc_file = zf\<lparr>file_id := fid\<rparr>, dc_dev = dev, dc_is_wal = False, dc_pad_sz = 0 \<rparr> of
               (s, dc) \<Rightarrow>
                 if \<not> ok s then (s, dc_file dc, dc_dev dc)
                 else
                   (let zf1 = (if dc_is_wal dc
                               then (dc_file dc)\<lparr>append_bytes_since_last_barrier :=
                                      (file_size (dc_file dc) + dc_pad_sz dc) mod barrier cfg\<rparr>
                               else dc_file dc)
                    in (OK, MetadataSynced zf1, dc_dev dc))))"

section \<open>Extents and links\<close>

text \<open>\<^verbatim>\<open>ClearExtents\<close> gives the extents' bytes back to their zones.\<close>

definition ClearExtents :: "ZoneFile \<Rightarrow> 'd zbd \<Rightarrow> ZoneFile \<times> 'd zbd" where
  "ClearExtents zf dev =
     (zf\<lparr>extents := []\<rparr>, fold (\<lambda>e dev. add_used (e_zone e) (- e_length e) dev) (extents zf) dev)"

definition MergeUpdate ::
    "ZoneFile \<Rightarrow> bool \<Rightarrow> ZoneFile \<Rightarrow> 'd zbd \<Rightarrow> status \<times> ZoneFile \<times> 'd zbd" where
  "MergeUpdate update replace zf dev =
     (if file_id zf \<noteq> file_id update then (Corruption, zf, dev)
      else
        (let zf1 = zf\<lparr>file_size := file_size update, zf_lifetime := zf_lifetime update,
                      m_time := m_time update,
                      wal_seq := (if wal_seq update > wal_seq zf then wal_seq update else wal_seq zf)\<rparr>
         in case (if replace then ClearExtents zf1 dev else (zf1, dev)) of
              (zf2, dev2) \<Rightarrow>
                (let zf3 = MetadataSynced (zf2\<lparr>extents := extents zf2 @ extents update,
                              extent_start := extent_start update, is_sparse := is_sparse update\<rparr>)
                 in (OK, zf3\<lparr>linkfiles := linkfiles update\<rparr>,
                     fold (\<lambda>e dev. add_used (e_zone e) (e_length e) dev) (extents update) dev2))))"

definition SetIOType :: "IOType \<Rightarrow> ZoneFile \<Rightarrow> ZoneFile" where
  "SetIOType t zf =
     zf\<lparr>io_type := t, is_wal := (t = kWAL \<and> ends_with (hd (linkfiles zf)) (str ''.log''))\<rparr>"

fun GetExtent :: "u64 \<Rightarrow> ZoneExtent list \<Rightarrow> (ZoneExtent \<times> u64) option" where
  "GetExtent file_offset [] = None"
| "GetExtent file_offset (e # es) =
     (if file_offset < e_length e then Some (e, e_start e + file_offset)
      else GetExtent (file_offset - e_length e) es)"

text \<open>\<^verbatim>\<open>GetWALExtent\<close> starts at an index and returns the offset within the extent and the new index.\<close>

fun GetWALExtent :: "u64 \<Rightarrow> ZoneExtent list \<Rightarrow> u64 \<Rightarrow> (ZoneExtent \<times> u64 \<times> u64) option" where
  "GetWALExtent file_offset [] i = None"
| "GetWALExtent file_offset (e # es) i =
     (if file_offset < e_length e then Some (e, file_offset, i)
      else GetWALExtent (file_offset - e_length e) es (i + 1))"

definition PushExtent :: "ZoneFile \<Rightarrow> 'd zbd \<Rightarrow> ZoneFile \<times> 'd zbd" where
  "PushExtent zf dev =
     (case active_zone zf of
        None \<Rightarrow> (zf, dev)
      | Some r \<Rightarrow>
          (let len = file_size zf - extent_filepos zf in
           if len = 0 then (zf, dev)
           else (zf\<lparr>extents := extents zf @
                      [\<lparr> e_start = extent_start zf, e_length = len, e_zone = r \<rparr>],
                    extent_start := z_wp (zone_at dev r), extent_filepos := file_size zf\<rparr>,
                 add_used r len dev)))"

definition AddLinkName :: "bytes \<Rightarrow> ZoneFile \<Rightarrow> ZoneFile" where
  "AddLinkName linkf zf = zf\<lparr>linkfiles := linkfiles zf @ [linkf]\<rparr>"

definition RenameLink :: "bytes \<Rightarrow> bytes \<Rightarrow> ZoneFile \<Rightarrow> status \<times> ZoneFile" where
  "RenameLink src dest zf =
     (if src \<in> set (linkfiles zf)
      then (OK, zf\<lparr>linkfiles := remove1 src (linkfiles zf) @ [dest]\<rparr>) else (IOError, zf))"

definition RemoveLinkName :: "bytes \<Rightarrow> ZoneFile \<Rightarrow> status \<times> ZoneFile" where
  "RemoveLinkName linkf zf =
     (if linkf \<in> set (linkfiles zf)
      then (OK, zf\<lparr>linkfiles := remove1 linkf (linkfiles zf)\<rparr>) else (IOError, zf))"

definition GetNrLinks :: "ZoneFile \<Rightarrow> u32" where
  "GetNrLinks zf = of_nat (length (linkfiles zf))"

text \<open>The write lock of a file: taking it while it is held waits.\<close>

definition AcquireWRLock :: "ZoneFile \<Rightarrow> ZoneFile option" where
  "AcquireWRLock zf = (if open_for_wr zf then None else Some (zf\<lparr>open_for_wr := True\<rparr>))"

definition TryAcquireWRLock :: "ZoneFile \<Rightarrow> bool \<times> ZoneFile" where
  "TryAcquireWRLock zf = (if open_for_wr zf then (False, zf) else (True, zf\<lparr>open_for_wr := True\<rparr>))"

definition ReleaseWRLock :: "ZoneFile \<Rightarrow> ZoneFile" where
  "ReleaseWRLock zf = zf\<lparr>open_for_wr := False\<rparr>"

end
