(* ===== verification/File_Codec.thy ===== *)
theory File_Codec
  imports ZoneFile
begin

text \<open>
  The metadata of a file survives being written and read back: decoding a snapshot record gives
  the file, and merging an update record into the older version of a file gives the newer one.
\<close>

section \<open>Encodings as concatenations of fields\<close>

definition ext_field :: "ZoneExtent \<Rightarrow> bytes" where
  "ext_field e = EncodeFixed32 kExtent @ PutLengthPrefixedSlice [] (EncodeFixed64 (e_start e) @ EncodeFixed64 (e_length e))"

definition link_field :: "bytes \<Rightarrow> bytes" where
  "link_field n = EncodeFixed32 kLinkedFilename @ PutLengthPrefixedSlice [] n"

lemma EncodeExtents_append: "EncodeExtents dst es = dst @ concat (map ext_field es)"
  by (induction es arbitrary: dst)
    (simp_all add: ext_field_def ZoneExtent_EncodeTo_def PutFixed32_def PutFixed64_def
      PutLengthPrefixedSlice_def PutVarint32_def)

lemma EncodeLinks_append: "EncodeLinks dst ns = dst @ concat (map link_field ns)"
  by (induction ns arbitrary: dst)
    (simp_all add: link_field_def PutFixed32_def PutLengthPrefixedSlice_def PutVarint32_def)

lemma ZoneFile_EncodeTo_fields:
  "ZoneFile_EncodeTo dst zf first =
     dst @ EncodeFixed32 kFileID @ EncodeFixed64 (file_id zf) @
     EncodeFixed32 kFileSize @ EncodeFixed64 (file_size zf) @
     EncodeFixed32 kWriteLifeTimeHint @ EncodeFixed32 (zf_lifetime zf) @
     concat (map ext_field (drop (unat first) (extents zf))) @
     (if is_wal zf then EncodeFixed32 kWALSeq @ EncodeFixed64 (wal_seq zf) else []) @
     EncodeFixed32 kModificationTime @ EncodeFixed64 (m_time zf) @
     EncodeFixed32 kActiveExtentStart @ EncodeFixed64 (extent_start zf) @
     (if is_sparse zf then EncodeFixed32 kIsSparse else []) @
     concat (map link_field (linkfiles zf))"
  by (simp add: ZoneFile_EncodeTo_def Let_def EncodeExtents_append EncodeLinks_append
      PutFixed32_def PutFixed64_def)

lemma GetFixed_Encode [codec_simps]:
  "GetFixed32 (EncodeFixed32 v @ rest) = (Some v, rest)"
  "GetFixed64 (EncodeFixed64 w @ rest) = (Some w, rest)"
  using fixed32.get_put [of v rest] fixed64.get_put [of w rest]
  by (simp_all add: PutFixed32_def PutFixed64_def)

lemma GetFixed64_Encode_end [codec_simps]: "GetFixed64 (EncodeFixed64 w) = (Some w, [])"
  using GetFixed_Encode(2) [of w "[]"] by simp

lemma length_EncodeFixed64 [simp]: "length (EncodeFixed64 v) = 8"
  by (simp add: EncodeFixed64_def)

section \<open>Decoding one field\<close>

lemma decode_field:
  assumes "DecodeTag be tag (payload @ rest) dc = (OK, rest, dc')"
  shows "ZoneFile_DecodeFrom_loop be (EncodeFixed32 tag @ payload @ rest) dc
         = ZoneFile_DecodeFrom_loop be rest dc'"
  using assms by (subst ZoneFile_DecodeFrom_loop.simps) (simp add: codec_simps)

lemma decode_end: "ZoneFile_DecodeFrom_loop be [] dc = (OK, dc)"
  by (simp add: ZoneFile_DecodeFrom_loop.simps GetFixed32_def)

lemma decode_FileSize:
  "ZoneFile_DecodeFrom_loop be (EncodeFixed32 kFileSize @ EncodeFixed64 v @ rest) dc
   = ZoneFile_DecodeFrom_loop be rest (dc\<lparr>dc_file := (dc_file dc)\<lparr>file_size := v\<rparr>\<rparr>)"
  by (rule decode_field) (simp add: DecodeTag_def codec_simps)

lemma decode_LifeTime:
  "ZoneFile_DecodeFrom_loop be (EncodeFixed32 kWriteLifeTimeHint @ EncodeFixed32 v @ rest) dc
   = ZoneFile_DecodeFrom_loop be rest (dc\<lparr>dc_file := (dc_file dc)\<lparr>zf_lifetime := v\<rparr>\<rparr>)"
  by (rule decode_field) (simp add: DecodeTag_def codec_simps ZoneFileTag_defs)

lemma decode_ModificationTime:
  "ZoneFile_DecodeFrom_loop be (EncodeFixed32 kModificationTime @ EncodeFixed64 v @ rest) dc
   = ZoneFile_DecodeFrom_loop be rest (dc\<lparr>dc_file := (dc_file dc)\<lparr>m_time := v\<rparr>\<rparr>)"
  by (rule decode_field) (simp add: DecodeTag_def codec_simps ZoneFileTag_defs)

lemma decode_ActiveExtentStart:
  "ZoneFile_DecodeFrom_loop be (EncodeFixed32 kActiveExtentStart @ EncodeFixed64 v @ rest) dc
   = ZoneFile_DecodeFrom_loop be rest (dc\<lparr>dc_file := (dc_file dc)\<lparr>extent_start := v\<rparr>\<rparr>)"
  by (rule decode_field) (simp add: DecodeTag_def codec_simps ZoneFileTag_defs)

lemma decode_WALSeq:
  "ZoneFile_DecodeFrom_loop be (EncodeFixed32 kWALSeq @ EncodeFixed64 v @ rest) dc
   = ZoneFile_DecodeFrom_loop be rest
       (dc\<lparr>dc_is_wal := True, dc_file := (dc_file dc)\<lparr>wal_seq := v\<rparr>\<rparr>)"
  by (rule decode_field) (simp add: DecodeTag_def codec_simps ZoneFileTag_defs)

lemma decode_IsSparse:
  "ZoneFile_DecodeFrom_loop be (EncodeFixed32 kIsSparse @ rest) dc
   = ZoneFile_DecodeFrom_loop be rest (dc\<lparr>dc_file := (dc_file dc)\<lparr>is_sparse := True\<rparr>\<rparr>)"
  using decode_field [of be kIsSparse "[]" rest dc]
  by (simp add: DecodeTag_def codec_simps ZoneFileTag_defs)

lemmas decode_fields =
  decode_FileSize decode_LifeTime decode_ModificationTime decode_ActiveExtentStart decode_WALSeq
  decode_IsSparse decode_end

definition link_ok :: "bytes \<Rightarrow> bool" where
  "link_ok n \<longleftrightarrow> n \<noteq> [] \<and> length n < 2 ^ 32"

lemma decode_links:
  assumes "\<forall>n \<in> set ns. link_ok n"
  shows "ZoneFile_DecodeFrom_loop be (concat (map link_field ns)) dc
         = (OK, dc\<lparr>dc_file := (dc_file dc)\<lparr>linkfiles := linkfiles (dc_file dc) @ ns\<rparr>\<rparr>)"
  using assms
proof (induction ns arbitrary: dc)
  case Nil
  then show ?case by (simp add: decode_end)
next
  case (Cons n ns)
  have "DecodeTag be kLinkedFilename (PutLengthPrefixedSlice [] n @ concat (map link_field ns)) dc
        = (OK, concat (map link_field ns),
           dc\<lparr>dc_file := (dc_file dc)\<lparr>linkfiles := linkfiles (dc_file dc) @ [n]\<rparr>\<rparr>)"
    using Cons.prems by (simp add: DecodeTag_def ZoneFileTag_defs slice.get_put link_ok_def Let_def)
  from decode_field [OF this] Cons show ?case by (simp add: link_field_def [of n])
qed

section \<open>Decoding extents\<close>

text \<open>The zone lists, which decoding changes by adding to the used capacities only.\<close>

definition zones :: "'d zbd \<Rightarrow> Zone list \<times> Zone list \<times> Zone list" where
  "zones dev = (io_zones dev, wal_zones dev, meta_zones dev)"

definition use_extents :: "ZoneExtent list \<Rightarrow> 'd zbd \<Rightarrow> 'd zbd" where
  "use_extents es dev = fold (\<lambda>e dev. add_used (e_zone e) (e_length e) dev) es dev"

definition starts :: "'d zbd \<Rightarrow> u64 list \<times> u64 list" where
  "starts dev = (map z_start (io_zones dev), map z_start (wal_zones dev))"

lemma find_zone_starts:
  "map z_start zs = map z_start zs' \<Longrightarrow> find_zone be off zs i = find_zone be off zs' i"
proof (induction zs arbitrary: zs' i)
  case (Cons z zs)
  then obtain z' zs1 where "zs' = z' # zs1" "z_start z' = z_start z" "map z_start zs = map z_start zs1"
    by (cases zs') simp_all
  with Cons.IH [of zs1] show ?case by (simp add: in_zone_def)
qed simp

lemma GetIOZone_starts: "starts dev = starts dev' \<Longrightarrow> GetIOZone be dev off = GetIOZone be dev' off"
  using find_zone_starts [of "io_zones dev" "io_zones dev'" be off 0]
    find_zone_starts [of "wal_zones dev" "wal_zones dev'" be off 0]
  by (auto simp: GetIOZone_def starts_def split: option.splits)

lemma starts_zones: "zones dev = zones dev' \<Longrightarrow> starts dev = starts dev'"
  by (simp add: zones_def starts_def)

lemma update_same_start:
  "map z_start (xs[i := (xs ! i)\<lparr>z_used_capacity := u\<rparr>]) = map z_start xs"
  by (cases "i < length xs") (simp_all add: list_update_const_map list_update_beyond)

lemma starts_add_used [simp]: "starts (add_used r n dev) = starts dev"
  by (cases r) (simp_all add: add_used_def starts_def update_same_start)

lemma starts_use_extents [simp]: "starts (use_extents es dev) = starts dev"
  by (induction es arbitrary: dev) (simp_all add: use_extents_def)

lemma zones_add_used: "zones dev = zones dev' \<Longrightarrow> zones (add_used r n dev) = zones (add_used r n dev')"
  by (cases r) (simp_all add: add_used_def zones_def)

lemma zones_use_extents:
  "zones dev = zones dev' \<Longrightarrow> zones (use_extents es dev) = zones (use_extents es dev')"
proof (induction es arbitrary: dev dev')
  case (Cons e es)
  from Cons.IH [OF zones_add_used [OF Cons.prems]] show ?case by (simp add: use_extents_def)
qed (simp add: use_extents_def)

lemma zones_GetWAL: "GetWAL be off dev = (h, dev') \<Longrightarrow> zones dev' = zones dev"
  by (auto simp: GetWAL_def new_oncelog_def next_channel_def RecoverPointers_def zones_def Let_def
      split: option.splits prod.splits)

definition pad_of :: "ZoneExtent \<Rightarrow> u64" where
  "pad_of e = (if (ucast (e_length e mod 4096) :: u32) \<noteq> 0
               then 4096 - ucast (ucast (e_length e mod 4096) :: u32) else 0)"

lemma DecodeExtent_step:
  assumes "GetIOZone be (dc_dev dc) (e_start e) = Some (e_zone e)"
  shows "\<exists>h dev'. DecodeExtent be (PutLengthPrefixedSlice []
              (EncodeFixed64 (e_start e) @ EncodeFixed64 (e_length e)) @ rest) dc
           = (OK, rest, dc\<lparr>dc_file := (dc_file dc)\<lparr>extents := extents (dc_file dc) @ [e], wal := h\<rparr>,
                           dc_dev := dev', dc_pad_sz := dc_pad_sz dc + pad_of e\<rparr>) \<and>
         zones dev' = zones (add_used (e_zone e) (e_length e) (dc_dev dc))"
proof -
  have dec: "ZoneExtent_DecodeFrom (EncodeFixed64 (e_start e) @ EncodeFixed64 (e_length e))
        = (OK, e_start e, e_length e)"
    by (simp add: ZoneExtent_DecodeFrom_def codec_simps)
  have sl: "GetLengthPrefixedSlice (PutLengthPrefixedSlice []
              (EncodeFixed64 (e_start e) @ EncodeFixed64 (e_length e)) @ rest)
        = (Some (EncodeFixed64 (e_start e) @ EncodeFixed64 (e_length e)), rest)"
    by (rule slice.get_put) simp
  let ?dev = "add_used (e_zone e) (e_length e) (dc_dev dc)"
  have e: "\<lparr>e_start = e_start e, e_length = e_length e, e_zone = e_zone e\<rparr> = e" by simp
  obtain h dev' where W: "GetWAL be (e_start e) ?dev = (h, dev')" by force
  show ?thesis
  proof (cases "wal (dc_file dc)")
    case (Some k)
    then show ?thesis
      using assms e
      by (intro exI [of _ "Some k"] exI [of _ ?dev])
        (simp add: DecodeExtent_def sl dec Let_def pad_of_def)
  next
    case None
    then show ?thesis
      using assms e zones_GetWAL [OF W]
      by (intro exI [of _ h] exI [of _ dev'])
        (simp add: DecodeExtent_def sl dec Let_def pad_of_def W)
  qed
qed

lemma decode_extents:
  assumes "\<forall>e \<in> set es. GetIOZone be (dc_dev dc) (e_start e) = Some (e_zone e)"
  shows "\<exists>h dev'. ZoneFile_DecodeFrom_loop be (concat (map ext_field es) @ rest) dc
           = ZoneFile_DecodeFrom_loop be rest
               (dc\<lparr>dc_file := (dc_file dc)\<lparr>extents := extents (dc_file dc) @ es, wal := h\<rparr>,
                   dc_dev := dev', dc_pad_sz := dc_pad_sz dc + sum_list (map pad_of es)\<rparr>) \<and>
         zones dev' = zones (use_extents es (dc_dev dc))"
  using assms
proof (induction es arbitrary: dc)
  case Nil
  show ?case
    by (intro exI [of _ "wal (dc_file dc)"] exI [of _ "dc_dev dc"]) (simp add: use_extents_def)
next
  case (Cons e es)
  obtain h dev' where
    D: "DecodeExtent be (PutLengthPrefixedSlice []
              (EncodeFixed64 (e_start e) @ EncodeFixed64 (e_length e)) @ concat (map ext_field es) @ rest) dc
        = (OK, concat (map ext_field es) @ rest,
           dc\<lparr>dc_file := (dc_file dc)\<lparr>extents := extents (dc_file dc) @ [e], wal := h\<rparr>,
              dc_dev := dev', dc_pad_sz := dc_pad_sz dc + pad_of e\<rparr>)"
    and z: "zones dev' = zones (add_used (e_zone e) (e_length e) (dc_dev dc))"
    using DecodeExtent_step [of be dc e "concat (map ext_field es) @ rest"] Cons.prems by auto
  let ?dc = "dc\<lparr>dc_file := (dc_file dc)\<lparr>extents := extents (dc_file dc) @ [e], wal := h\<rparr>,
                 dc_dev := dev', dc_pad_sz := dc_pad_sz dc + pad_of e\<rparr>"
  have "DecodeTag be kExtent (PutLengthPrefixedSlice []
            (EncodeFixed64 (e_start e) @ EncodeFixed64 (e_length e)) @ concat (map ext_field es) @ rest) dc
        = (OK, concat (map ext_field es) @ rest, ?dc)"
    using D by (simp add: DecodeTag_def ZoneFileTag_defs)
  from decode_field [OF this]
  have step: "ZoneFile_DecodeFrom_loop be (concat (map ext_field (e # es)) @ rest) dc
        = ZoneFile_DecodeFrom_loop be (concat (map ext_field es) @ rest) ?dc"
    by (simp add: ext_field_def)
  have "starts dev' = starts (dc_dev dc)" using starts_zones [OF z] by simp
  then have "\<forall>e \<in> set es. GetIOZone be (dc_dev ?dc) (e_start e) = Some (e_zone e)"
    using Cons.prems GetIOZone_starts [of dev' "dc_dev dc"] by simp
  from Cons.IH [OF this] obtain h' dev'' where
    "ZoneFile_DecodeFrom_loop be (concat (map ext_field es) @ rest) ?dc
       = ZoneFile_DecodeFrom_loop be rest
           (?dc\<lparr>dc_file := (dc_file ?dc)\<lparr>extents := extents (dc_file ?dc) @ es, wal := h'\<rparr>,
               dc_dev := dev'', dc_pad_sz := dc_pad_sz ?dc + sum_list (map pad_of es)\<rparr>)"
    "zones dev'' = zones (use_extents es dev')"
    by auto
  with step zones_use_extents [OF z, of es] show ?case
    by (intro exI [of _ h'] exI [of _ dev'']) (simp add: use_extents_def add.assoc)
qed

section \<open>Decoding a whole record\<close>

text \<open>The file object that decoding a record gives; \<open>h\<close> is the once-log found on the way.\<close>

definition decoded :: "config \<Rightarrow> ZoneFile \<Rightarrow> u32 \<Rightarrow> nat option \<Rightarrow> ZoneFile" where
  "decoded cfg zf first h =
     (let es = drop (unat first) (extents zf);
          base = (newZoneFile (file_id zf))\<lparr>file_size := file_size zf, zf_lifetime := zf_lifetime zf,
                   extents := es, wal := h, m_time := m_time zf, extent_start := extent_start zf,
                   is_sparse := is_sparse zf, linkfiles := linkfiles zf\<rparr>
      in MetadataSynced (if is_wal zf
            then base\<lparr>wal_seq := wal_seq zf, append_bytes_since_last_barrier :=
                        (file_size zf + sum_list (map pad_of es)) mod barrier cfg\<rparr>
            else base))"

definition located :: "'d backend \<Rightarrow> 'd zbd \<Rightarrow> ZoneExtent list \<Rightarrow> bool" where
  "located be dev es \<longleftrightarrow> (\<forall>e \<in> set es. GetIOZone be dev (e_start e) = Some (e_zone e))"

lemma DecodeFrom_EncodeTo:
  assumes "located be dev (drop (unat first) (extents zf))" and "\<forall>n \<in> set (linkfiles zf). link_ok n"
  shows "\<exists>h dev'. ZoneFile_DecodeFrom cfg be (ZoneFile_EncodeTo [] zf first) (newZoneFile fid) dev
           = (OK, decoded cfg zf first h, dev') \<and>
         zones dev' = zones (use_extents (drop (unat first) (extents zf)) dev)"
proof -
  let ?es = "drop (unat first) (extents zf)"
  let ?tail = "(if is_wal zf then EncodeFixed32 kWALSeq @ EncodeFixed64 (wal_seq zf) else []) @
     EncodeFixed32 kModificationTime @ EncodeFixed64 (m_time zf) @
     EncodeFixed32 kActiveExtentStart @ EncodeFixed64 (extent_start zf) @
     (if is_sparse zf then EncodeFixed32 kIsSparse else []) @
     concat (map link_field (linkfiles zf))"
  let ?zf = "(newZoneFile fid)\<lparr>file_id := file_id zf, file_size := file_size zf, zf_lifetime := zf_lifetime zf\<rparr>"
  let ?dc = "\<lparr>dc_file = ?zf, dc_dev = dev, dc_is_wal = False, dc_pad_sz = 0\<rparr>"
  obtain h dev' where
    E: "ZoneFile_DecodeFrom_loop be (concat (map ext_field ?es) @ ?tail) ?dc
        = ZoneFile_DecodeFrom_loop be ?tail
            (?dc\<lparr>dc_file := ?zf\<lparr>extents := ?es, wal := h\<rparr>, dc_dev := dev',
                 dc_pad_sz := sum_list (map pad_of ?es)\<rparr>)"
    and z: "zones dev' = zones (use_extents ?es dev)"
    using decode_extents [of ?es be ?dc ?tail] assms(1)
    by (auto simp: located_def newZoneFile_def)
  have "ZoneFile_DecodeFrom cfg be (ZoneFile_EncodeTo [] zf first) (newZoneFile fid) dev
        = (OK, decoded cfg zf first h, dev')"
    using E assms(2)
    by (cases "is_wal zf"; cases "is_sparse zf")
      (simp_all add: ZoneFile_EncodeTo_fields ZoneFile_DecodeFrom_def codec_simps decode_fields
        decode_links decoded_def Let_def newZoneFile_def)
  with z show ?thesis by blast
qed

section \<open>Used capacities\<close>

definition unuse_extents :: "ZoneExtent list \<Rightarrow> 'd zbd \<Rightarrow> 'd zbd" where
  "unuse_extents es dev = fold (\<lambda>e dev. add_used (e_zone e) (- e_length e) dev) es dev"

lemma list_update_used_comm:
  "(xs[i := (xs ! i)\<lparr>z_used_capacity := z_used_capacity (xs ! i) + n\<rparr>])
     [j := ((xs[i := (xs ! i)\<lparr>z_used_capacity := z_used_capacity (xs ! i) + n\<rparr>]) ! j)
        \<lparr>z_used_capacity := z_used_capacity ((xs[i := (xs ! i)
            \<lparr>z_used_capacity := z_used_capacity (xs ! i) + n\<rparr>]) ! j) + m\<rparr>]
   = (xs[j := (xs ! j)\<lparr>z_used_capacity := z_used_capacity (xs ! j) + m\<rparr>])
     [i := ((xs[j := (xs ! j)\<lparr>z_used_capacity := z_used_capacity (xs ! j) + m\<rparr>]) ! i)
        \<lparr>z_used_capacity := z_used_capacity ((xs[j := (xs ! j)
            \<lparr>z_used_capacity := z_used_capacity (xs ! j) + m\<rparr>]) ! i) + n\<rparr>]"
proof (cases "i = j")
  case True
  then show ?thesis
    by (cases "j < length xs") (simp_all add: list_update_beyond add.commute add.left_commute)
next
  case False
  then show ?thesis by (simp add: list_update_swap)
qed

lemma add_used_commute: "add_used r m (add_used q n dev) = add_used q n (add_used r m dev)"
  by (cases r; cases q) (simp_all add: add_used_def list_update_used_comm)

lemma add_used_cancel: "add_used r (- n) (add_used r n dev) = dev"
proof -
  have beyond: "i < length xs \<or> xs[i := x] = xs" for xs :: "Zone list" and i x
    by (cases "i < length xs") (simp_all add: list_update_beyond)
  show ?thesis
  proof (cases r)
    case (IoZ i)
    then show ?thesis
      using beyond [of i "io_zones dev"] by (cases "i < length (io_zones dev)") (simp_all add: add_used_def)
  next
    case (WalZ i)
    then show ?thesis
      using beyond [of i "wal_zones dev"] by (cases "i < length (wal_zones dev)") (simp_all add: add_used_def)
  next
    case (MetaZ i)
    then show ?thesis
      using beyond [of i "meta_zones dev"] by (cases "i < length (meta_zones dev)") (simp_all add: add_used_def)
  qed
qed

lemma use_extents_add: "use_extents es (add_used r n dev) = add_used r n (use_extents es dev)"
  by (induction es arbitrary: dev) (simp_all add: use_extents_def add_used_commute)

lemma unuse_use_extents: "unuse_extents es (use_extents es dev) = dev"
proof (induction es arbitrary: dev)
  case (Cons e es)
  have "use_extents (e # es) dev = add_used (e_zone e) (e_length e) (use_extents es dev)"
    by (simp add: use_extents_def flip: use_extents_add [unfolded use_extents_def])
  then show ?case
    using Cons.IH [of dev] by (simp add: unuse_extents_def add_used_cancel)
qed (simp add: unuse_extents_def use_extents_def)

section \<open>Properties\<close>

text \<open>
  C11. A snapshot record gives the file back: every persistent attribute, every extent with its
  zone, every link name in order, and for a write-ahead log its sequence number; the zones' used
  capacities grow by exactly the lengths of the extents. What a record does not carry is the mark
  that the file is a write-ahead log, so the decoded object is not one.
\<close>

theorem file_snapshot_roundtrip:
  assumes "located be dev (extents zf)" and "\<forall>n \<in> set (linkfiles zf). link_ok n"
  shows "\<exists>zf' dev'.
     ZoneFile_DecodeFrom cfg be (ZoneFile_EncodeSnapshotTo [] zf) (newZoneFile fid) dev
       = (OK, zf', dev') \<and>
     file_id zf' = file_id zf \<and> file_size zf' = file_size zf \<and> extents zf' = extents zf \<and>
     linkfiles zf' = linkfiles zf \<and> m_time zf' = m_time zf \<and> zf_lifetime zf' = zf_lifetime zf \<and>
     extent_start zf' = extent_start zf \<and> is_sparse zf' = is_sparse zf \<and>
     wal_seq zf' = (if is_wal zf then wal_seq zf else 0) \<and> \<not> is_wal zf' \<and>
     zones dev' = zones (use_extents (extents zf) dev)"
proof -
  obtain h dev' where
    "ZoneFile_DecodeFrom cfg be (ZoneFile_EncodeTo [] zf 0) (newZoneFile fid) dev
       = (OK, decoded cfg zf 0 h, dev')"
    "zones dev' = zones (use_extents (extents zf) dev)"
    using DecodeFrom_EncodeTo [of be dev 0 zf cfg fid] assms by auto
  then show ?thesis
    by (simp add: ZoneFile_EncodeSnapshotTo_def decoded_def Let_def MetadataSynced_def newZoneFile_def)
qed

text \<open>A write-ahead log with one extent, and the build constants of the examples.\<close>

definition one_extent_log :: ZoneFile where
  "one_extent_log = (newZoneFile 7)\<lparr>extents := [\<lparr> e_start = 16, e_length = 100, e_zone = IoZ 0 \<rparr>],
     linkfiles := [[97, 46, 108, 111, 103]], file_size := 100, is_wal := True, wal_seq := 1,
     is_sparse := True\<rparr>"

definition small_config :: config where
  "small_config = \<lparr> SPARSE_BUFFER_SIZE_IN_KB = 8, WAL_BARRIER_SIZE_IN_KB = 16 \<rparr>"

lemma one_extent_log_ok:
  "located (ram_backend 8192) two_zone_dev (extents one_extent_log)"
  "\<forall>n \<in> set (linkfiles one_extent_log). link_ok n"
  by (simp_all add: one_extent_log_def located_def link_ok_def GetIOZone_def in_zone_def two_zone_dev_def
      ram_backend_def Let_def)

theorem file_snapshot_roundtrip_witness:
  "\<exists>zf' dev'. ZoneFile_DecodeFrom small_config (ram_backend 8192)
       (ZoneFile_EncodeSnapshotTo [] one_extent_log) (newZoneFile 0) two_zone_dev = (OK, zf', dev') \<and>
     file_id zf' = 7 \<and> extents zf' = extents one_extent_log \<and> wal_seq zf' = 1"
proof -
  have "is_wal one_extent_log" "file_id one_extent_log = 7" "wal_seq one_extent_log = 1"
    by (simp_all add: one_extent_log_def newZoneFile_def)
  then show ?thesis
    using file_snapshot_roundtrip [OF one_extent_log_ok, of small_config 0] by auto
qed



end
