(* ===== verification/Crc32c.thy ===== *)
theory Crc32c
  imports Crc_Table
begin

text \<open>
  The checksum of the metadata log and of RocksDB's log files (\<^verbatim>\<open>util/crc32c.cc\<close>, \<^verbatim>\<open>util/crc32c.h\<close>):
  the table-driven implementation that is used where the processor has no instruction for it, and
  the masking of stored checksums. The main result is that it computes the bitwise definition of
  CRC-32C, whatever the alignment of the data.
\<close>

section \<open>Definitions\<close>

text \<open>
  \<^verbatim>\<open>STEP1\<close> takes one byte, \<^verbatim>\<open>DefaultCRC32\<close> eight of them. \<open>l\<close> has 64 bits in the code, of which the
  upper half stays zero.
\<close>

definition STEP1 :: "u64 \<Rightarrow> byte \<Rightarrow> u64" where
  "STEP1 l b = ucast (table0 ! unat ((l AND 0xff) XOR ucast b)) XOR drop_bit 8 l"

definition crc_word :: "u64 \<Rightarrow> bytes \<Rightarrow> u64" where
  "crc_word l p =
     (let c = ucast (l XOR ucast (DecodeFixed32 p)) :: u32
      in ucast (table3 ! unat (c AND 0xff) XOR table2 ! unat (drop_bit 8 c AND 0xff) XOR
           table1 ! unat (drop_bit 16 c AND 0xff) XOR table0 ! unat (drop_bit 24 c)))"

definition DefaultCRC32 :: "u64 \<Rightarrow> bytes \<Rightarrow> u64 \<times> bytes" where
  "DefaultCRC32 l p = (crc_word (crc_word l p) (drop 4 p), drop 8 p)"

fun crc_by16 :: "u64 \<Rightarrow> bytes \<Rightarrow> u64 \<times> bytes" where
  "crc_by16 l p =
     (if length p \<ge> 16 then
        (case DefaultCRC32 l p of (l1, p1) \<Rightarrow>
         (case DefaultCRC32 l1 p1 of (l2, p2) \<Rightarrow> crc_by16 l2 (drop 16 p)))
      else (l, p))"

declare crc_by16.simps [simp del]

fun crc_by8 :: "u64 \<Rightarrow> bytes \<Rightarrow> u64 \<times> bytes" where
  "crc_by8 l p =
     (if length p \<ge> 8 then
        (case DefaultCRC32 l p of (l1, p1) \<Rightarrow> crc_by8 l1 (drop 8 p))
      else (l, p))"

declare crc_by8.simps [simp del]

text \<open>\<open>addr\<close> is the address of the data; the bytes up to the next multiple of 16 go one by one.\<close>

definition to_aligned :: "u64 \<Rightarrow> nat" where
  "to_aligned addr = unat (((addr + 15) AND NOT 15) - addr)"

definition ExtendImpl :: "u64 \<Rightarrow> u32 \<Rightarrow> bytes \<Rightarrow> u32" where
  "ExtendImpl addr crc buf =
     (let l = ucast (crc XOR 0xffffffff);
          x = to_aligned addr;
          (l1, p1) = (if x \<le> length buf then (foldl STEP1 l (take x buf), drop x buf) else (l, buf));
          (l2, p2) = crc_by16 l1 p1;
          (l3, p3) = crc_by8 l2 p2
      in ucast (foldl STEP1 l3 p3 XOR 0xffffffff))"

definition kMaskDelta :: u32 where "kMaskDelta = 0xa282ead8"

definition Mask :: "u32 \<Rightarrow> u32" where
  "Mask crc = (drop_bit 15 crc OR push_bit 17 crc) + kMaskDelta"

definition Unmask :: "u32 \<Rightarrow> u32" where
  "Unmask masked_crc =
     (let rot = masked_crc - kMaskDelta in drop_bit 17 rot OR push_bit 15 rot)"

section \<open>The bitwise definition\<close>

text \<open>A byte enters at the low end.\<close>

definition crc_byte :: "u32 \<Rightarrow> byte \<Rightarrow> u32" where
  "crc_byte c b = (crc_bit ^^ 8) (c XOR ucast b)"

definition crc32c :: "u32 \<Rightarrow> bytes \<Rightarrow> u32" where
  "crc32c crc bs = NOT (foldl crc_byte (NOT crc) bs)"

section \<open>Division by the polynomial is linear\<close>

lemma bit_crc_bit:
  "bit (crc_bit c) n \<longleftrightarrow> (bit c (Suc n) \<noteq> (bit c 0 \<and> bit (0x82f63b78 :: u32) n))"
  by (simp add: crc_bit_def bit_simps)

lemma crc_bit_xor: "crc_bit (x XOR y) = crc_bit x XOR crc_bit y"
  by (rule bit_word_eqI) (simp add: bit_crc_bit bit_xor_iff, blast)

lemma crc_bits_xor: "(crc_bit ^^ n) (x XOR y) = (crc_bit ^^ n) x XOR (crc_bit ^^ n) y"
  by (induction n) (simp_all add: crc_bit_xor)

lemma crc_bits_low: "(\<forall>i < k. \<not> bit x i) \<Longrightarrow> (crc_bit ^^ k) x = drop_bit k x"
proof (induction k arbitrary: x)
  case (Suc k)
  have "crc_bit x = drop_bit 1 x" using Suc.prems by (simp add: crc_bit_def)
  moreover have "\<forall>i < k. \<not> bit (drop_bit 1 x) i" using Suc.prems by (simp add: bit_drop_bit_eq)
  ultimately show ?case using Suc.IH [of "drop_bit 1 x"]
    by (simp add: funpow_swap1 [symmetric] funpow_Suc_right del: funpow.simps)
qed simp

lemma crc_bits_push:
  fixes b :: u32
  assumes "unat b < 256" and "m \<le> 24"
  shows "(crc_bit ^^ (m + n)) (push_bit m b) = (crc_bit ^^ n) b"
proof -
  have "n < 8" if "bit b n" for n
    using bit_less_exp [of b 8 n] assms(1) that by (simp add: not_less [symmetric]) blast
  then have "drop_bit m (push_bit m b) = b"
    by (intro bit_word_eqI) (use assms(2) in \<open>force simp: bit_simps\<close>)
  moreover have "(crc_bit ^^ m) (push_bit m b) = drop_bit m (push_bit m b)"
    by (rule crc_bits_low) (simp add: bit_push_bit_iff)
  ultimately have "(crc_bit ^^ m) (push_bit m b) = b" by simp
  then show ?thesis
    by (simp add: add.commute [of m n] funpow_add)
qed

lemma ones32: "(0xffffffff :: u32) = - 1"
  by simp

lemma and_ff: "w AND 0xff = take_bit 8 w" for w :: u32
  by (rule bit_word_eqI) (auto simp: bit_simps)

section \<open>One byte and four bytes at a time\<close>

lemma low8:
  fixes w :: "'a::len word"
  assumes "\<forall>n. bit w n \<longrightarrow> n < 8"
  shows "unat w < 256"
proof -
  have "take_bit 8 w = w"
    using assms by (intro bit_word_eqI) (auto simp: bit_take_bit_iff)
  then have "unat w = take_bit 8 (unat w)"
    by (metis unsigned_take_bit_eq)
  also have "\<dots> < 2 ^ 8" by (rule take_bit_nat_less_exp)
  finally show ?thesis by simp
qed

lemma low8_ucast: "unat (ucast (b :: byte) :: u32) < 256"
  by (rule low8) (auto simp: bit_simps dest: bit_imp_le_length)

lemma low8_and: "unat (w AND 0xff :: u32) < 256"
  by (rule low8) (simp add: bit_simps)

lemma low8_drop: "unat (drop_bit 24 w :: u32) < 256"
  by (rule low8) (auto simp: bit_simps dest: bit_imp_le_length)

lemma STEP1_byte: "STEP1 (ucast c) b = ucast (crc_byte c b)" for c :: u32
proof -
  define i where "i = (c AND 0xff) XOR ucast b"
  have lt: "unat i < 256"
    by (rule low8) (auto simp: i_def bit_simps dest: bit_imp_le_length)
  have "(ucast c AND 0xff) XOR ucast b = (ucast i :: u64)"
    by (rule bit_word_eqI) (auto simp: i_def bit_simps dest: bit_imp_le_length)
  then have idx: "unat ((ucast c AND 0xff) XOR ucast b :: u64) = unat i"
    by (simp add: unat_ucast_up)
  have "(crc_bit ^^ 8) (push_bit 8 (drop_bit 8 c)) = drop_bit 8 (push_bit 8 (drop_bit 8 c))"
    by (rule crc_bits_low) (auto simp: bit_simps)
  moreover have "drop_bit 8 (push_bit 8 (drop_bit 8 c)) = drop_bit 8 c"
    by (rule bit_word_eqI) (auto simp: bit_simps dest: bit_imp_le_length)
  moreover have "c XOR ucast b = i XOR push_bit 8 (drop_bit 8 c)"
    by (rule bit_word_eqI) (auto simp: i_def bit_simps dest: bit_imp_le_length)
  ultimately have "crc_byte c b = (crc_bit ^^ 8) i XOR drop_bit 8 c"
    by (simp add: crc_byte_def crc_bits_xor)
  then show ?thesis
    unfolding STEP1_def idx using table_nth(1) [OF lt] by (simp add: unsigned_xor_eq drop_bit_ucast_u64)
qed

lemma STEP1_bytes: "foldl STEP1 (ucast c) bs = ucast (foldl crc_byte c bs)" for c :: u32
  by (induction bs arbitrary: c) (simp_all add: STEP1_byte)

text \<open>Four bytes enter at once: each passes through the division that is left for it.\<close>

lemma crc_byte_shift:
  assumes "m \<le> 24"
  shows "crc_byte ((crc_bit ^^ m) x) b = (crc_bit ^^ (m + 8)) (x XOR push_bit m (ucast b))"
proof -
  have "(crc_bit ^^ (m + 8)) (push_bit m (ucast b)) = (crc_bit ^^ 8) (ucast b)"
    using crc_bits_push [OF low8_ucast assms, where n = 8] .
  then show ?thesis
    by (simp add: crc_byte_def crc_bits_xor add.commute [of m 8] funpow_add)
qed

lemma crc_byte4:
  assumes "4 \<le> length p"
  shows "foldl crc_byte c (take 4 p) = (crc_bit ^^ 32) (c XOR DecodeFixed32 p)"
proof -
  obtain b0 b1 b2 b3 q where p: "p = b0 # b1 # b2 # b3 # q"
    using assms by (auto simp: Suc_le_length_iff eval_nat_numeral)
  have w: "c XOR DecodeFixed32 p = c XOR push_bit 0 (ucast b0) XOR push_bit 8 (ucast b1)
      XOR push_bit 16 (ucast b2) XOR push_bit 24 (ucast b3)"
    by (rule bit_word_eqI) (auto simp: p DecodeFixed32_def bit_simps dest: bit_imp_le_length)
  show ?thesis
    unfolding w using crc_byte_shift [of 0 c b0] crc_byte_shift [of 8 _ b1] crc_byte_shift [of 16 _ b2]
      crc_byte_shift [of 24 _ b3]
    by (simp add: p xor.assoc)
qed

lemma crc_bits_split:
  "(crc_bit ^^ 32) c = (crc_bit ^^ 32) (c AND 0xff) XOR (crc_bit ^^ 24) (drop_bit 8 c AND 0xff)
     XOR (crc_bit ^^ 16) (drop_bit 16 c AND 0xff) XOR (crc_bit ^^ 8) (drop_bit 24 c)"
proof -
  have "c = (c AND 0xff) XOR push_bit 8 (drop_bit 8 c AND 0xff)
      XOR push_bit 16 (drop_bit 16 c AND 0xff) XOR push_bit 24 (drop_bit 24 c)"
    unfolding and_ff by (rule bit_word_eqI) (auto simp: bit_simps)
  then have "(crc_bit ^^ 32) c = (crc_bit ^^ 32) (\<dots>)" by (rule arg_cong)
  also have "\<dots> = (crc_bit ^^ 32) (c AND 0xff) XOR (crc_bit ^^ 32) (push_bit 8 (drop_bit 8 c AND 0xff))
      XOR (crc_bit ^^ 32) (push_bit 16 (drop_bit 16 c AND 0xff)) XOR (crc_bit ^^ 32) (push_bit 24 (drop_bit 24 c))"
    by (simp only: crc_bits_xor)
  finally show ?thesis
    using crc_bits_push [OF low8_and, of 8 24 "drop_bit 8 c"] crc_bits_push [OF low8_and, of 16 16 "drop_bit 16 c"]
      crc_bits_push [OF low8_drop, of 24 8 c] by simp
qed

lemma crc_word_bytes:
  fixes c :: u32
  assumes "4 \<le> length p"
  shows "crc_word (ucast c) p = ucast (foldl crc_byte c (take 4 p))"
proof -
  have "(ucast (ucast c XOR ucast (DecodeFixed32 p) :: u64) :: u32) = c XOR DecodeFixed32 p"
    by (rule bit_word_eqI) (auto simp: bit_simps)
  then show ?thesis
    using crc_byte4 [OF assms, of c] crc_bits_split [of "c XOR DecodeFixed32 p"]
      table_nth(4) [OF low8_and] table_nth(3) [OF low8_and] table_nth(2) [OF low8_and] table_nth(1) [OF low8_drop]
    by (simp add: crc_word_def Let_def)
qed

lemma DefaultCRC32_bytes:
  fixes c :: u32
  assumes "8 \<le> length p"
  shows "DefaultCRC32 (ucast c) p = (ucast (foldl crc_byte c (take 8 p)), drop 8 p)"
proof -
  have "take 8 p = take 4 p @ take 4 (drop 4 p)" by (simp add: take_add [symmetric])
  then show ?thesis
    using assms by (simp add: DefaultCRC32_def crc_word_bytes)
qed

section \<open>The whole computation\<close>

lemma crc_by16_bytes:
  "\<exists>n. crc_by16 (ucast c) p = (ucast (foldl crc_byte c (take n p)), drop n p)" for c :: u32
proof (induction p arbitrary: c rule: length_induct)
  case (1 p)
  show ?case
  proof (cases "16 \<le> length p")
    case True
    let ?c2 = "foldl crc_byte c (take 16 p)"
    have "take 16 p = take 8 p @ take 8 (drop 8 p)" by (simp add: take_add [symmetric])
    then have step: "crc_by16 (ucast c) p = crc_by16 (ucast ?c2) (drop 16 p)"
      using True by (simp add: crc_by16.simps [of "ucast c"] DefaultCRC32_bytes)
    obtain n where "crc_by16 (ucast ?c2) (drop 16 p)
        = (ucast (foldl crc_byte ?c2 (take n (drop 16 p))), drop n (drop 16 p))"
      using "1.IH" [rule_format, of "drop 16 p" ?c2] True by force
    then show ?thesis
      unfolding step by (intro exI [of _ "16 + n"]) (simp add: take_add [of 16 n] add.commute [of n 16])
  next
    case False
    then show ?thesis by (intro exI [of _ 0]) (simp add: crc_by16.simps)
  qed
qed

lemma crc_by8_bytes:
  "\<exists>n. crc_by8 (ucast c) p = (ucast (foldl crc_byte c (take n p)), drop n p)" for c :: u32
proof (induction p arbitrary: c rule: length_induct)
  case (1 p)
  show ?case
  proof (cases "8 \<le> length p")
    case True
    let ?c2 = "foldl crc_byte c (take 8 p)"
    have step: "crc_by8 (ucast c) p = crc_by8 (ucast ?c2) (drop 8 p)"
      using True by (simp add: crc_by8.simps [of "ucast c"] DefaultCRC32_bytes)
    obtain n where "crc_by8 (ucast ?c2) (drop 8 p)
        = (ucast (foldl crc_byte ?c2 (take n (drop 8 p))), drop n (drop 8 p))"
      using "1.IH" [rule_format, of "drop 8 p" ?c2] True by force
    then show ?thesis
      unfolding step by (intro exI [of _ "8 + n"]) (simp add: take_add [of 8 n] add.commute [of n 8])
  next
    case False
    then show ?thesis by (intro exI [of _ 0]) (simp add: crc_by8.simps)
  qed
qed

lemma foldl_take_drop: "foldl f (foldl f c (take n p)) (drop n p) = foldl f c p"
  by (metis append_take_drop_id foldl_append)

lemma crc32c_append: "crc32c (crc32c crc as) bs = crc32c crc (as @ bs)"
  by (simp add: crc32c_def)

lemma Unmask_Mask [simp]: "Unmask (Mask crc) = crc"
  by (rule bit_word_eqI) (auto simp: Unmask_def Mask_def Let_def bit_simps, metis le_add_diff_inverse not_le)

lemma ExtendImpl_bitwise: "ExtendImpl addr crc buf = crc32c crc buf"
proof -
  have init: "(ucast (crc XOR 0xffffffff) :: u64) = ucast (NOT crc)"
    by (rule arg_cong [where f = ucast]) (simp add: ones32)
  obtain c1 p1 where 1: "(if to_aligned addr \<le> length buf
        then (foldl STEP1 (ucast (NOT crc)) (take (to_aligned addr) buf), drop (to_aligned addr) buf)
        else (ucast (NOT crc), buf)) = (ucast c1 :: u64, p1)"
      and f1: "foldl crc_byte c1 p1 = foldl crc_byte (NOT crc) buf"
    by (cases "to_aligned addr \<le> length buf") (auto simp: STEP1_bytes foldl_take_drop)
  obtain n2 where 2: "crc_by16 (ucast c1) p1 = (ucast (foldl crc_byte c1 (take n2 p1)), drop n2 p1)"
    using crc_by16_bytes by blast
  obtain n3 where 3: "crc_by8 (ucast (foldl crc_byte c1 (take n2 p1))) (drop n2 p1)
      = (ucast (foldl crc_byte (foldl crc_byte c1 (take n2 p1)) (take n3 (drop n2 p1))), drop n3 (drop n2 p1))"
    using crc_by8_bytes by blast
  have "bit (0xffffffff :: u64) n" if "n < 32" for n
  proof -
    have "(0xffffffff :: u64) = mask 32" by (simp add: mask_eq_exp_minus_1)
    then show ?thesis using that by (simp only: bit_mask_iff) (simp add: possible_bit_def)
  qed
  then have "(ucast ((ucast c :: u64) XOR 0xffffffff) :: u32) = NOT c" for c :: u32
    by (intro bit_word_eqI) (simp add: bit_ucast_iff bit_xor_iff bit_not_iff del: bit_numeral_iff)
  then show ?thesis
    unfolding ExtendImpl_def Let_def init 1 crc32c_def
    by (simp add: 2 3 STEP1_bytes foldl_take_drop f1 del: drop_drop)
qed

section \<open>Properties\<close>

text \<open>
  C26. The checksum routine, which works by alignment, sixteen, eight and single bytes with four
  tables, computes the bitwise CRC-32C of the data. The result depends neither on the address of
  the data nor on how the data is cut into pieces.
\<close>

theorem ExtendImpl_crc32c:
  "ExtendImpl addr crc buf = crc32c crc buf \<and>
   ExtendImpl addr' (ExtendImpl addr crc buf) more = crc32c crc (buf @ more)"
  by (simp add: ExtendImpl_bitwise crc32c_append)

end
