(* ===== verification/File_IO.thy ===== *)
theory File_IO
  imports ZoneFile
begin

text \<open>
  Writing a file (\<^verbatim>\<open>class ZoneFile\<close> of \<^verbatim>\<open>io_zenfs.cc\<close>): allocation of zones, the three append
  routines, closing, recovery of what was written after the last sync, cache invalidation, migration.

  The operations act on a file, the device it lives on and the state \<open>'m\<close> of the metadata writer.
  The writer itself (\<^verbatim>\<open>MetadataWriter::Persist\<close>, an interface) is the argument \<open>persist\<close>.
  Buffers the code writes into are byte lists of the size that was allocated; an access outside is
  \<open>None\<close>. Allocation of a buffer always succeeds.
\<close>

section \<open>State\<close>

record ('d, 'm) fenv =
  f_file :: ZoneFile
  f_dev :: "'d zbd"
  f_meta :: 'm

type_synonym ('d, 'm) persist = "('d, 'm) fenv \<Rightarrow> (status \<times> ('d, 'm) fenv) option"

definition upd_file :: "(ZoneFile \<Rightarrow> ZoneFile) \<Rightarrow> ('d, 'm) fenv \<Rightarrow> ('d, 'm) fenv" where
  "upd_file f st = st\<lparr>f_file := f (f_file st)\<rparr>"

definition upd_dev :: "('d zbd \<Rightarrow> 'd zbd) \<Rightarrow> ('d, 'm) fenv \<Rightarrow> ('d, 'm) fenv" where
  "upd_dev f st = st\<lparr>f_dev := f (f_dev st)\<rparr>"

definition peek :: "nat \<Rightarrow> nat \<Rightarrow> bytes \<Rightarrow> bytes option" where
  "peek off n buf = (if off + n \<le> length buf then Some (take n (drop off buf)) else None)"

definition poke :: "nat \<Rightarrow> bytes \<Rightarrow> bytes \<Rightarrow> bytes option" where
  "poke off data buf =
     (if off + length data \<le> length buf
      then Some (take off buf @ data @ drop (off + length data) buf) else None)"

section \<open>The active zone\<close>

text \<open>\<^verbatim>\<open>Zone::Append\<close> and \<^verbatim>\<open>Zone::ZoneAppend\<close> on a zone of the device.\<close>

definition append_to ::
    "'d backend \<Rightarrow> zref \<Rightarrow> bytes \<Rightarrow> 'd zbd \<Rightarrow> (status \<times> 'd zbd) option" where
  "append_to be r data dev =
     map_option (\<lambda>(s, z, w, d). (s, (put_zone r z dev)\<lparr>bytes_written := w, world := d\<rparr>))
       (Zone_Append be data (zone_at dev r) (bytes_written dev) (world dev))"

definition zone_append_to ::
    "'d backend \<Rightarrow> zref \<Rightarrow> nat \<Rightarrow> bytes \<Rightarrow> 'd zbd \<Rightarrow> status \<times> 'd zbd" where
  "zone_append_to be r h data dev =
     (case ZoneAppend be data h (zone_at dev r) (bytes_written dev) (world dev) of
        (s, z, w, d) \<Rightarrow> (s, (put_zone r z dev)\<lparr>bytes_written := w, world := d\<rparr>))"

definition szd_sync :: "'d backend \<Rightarrow> nat \<Rightarrow> 'd zbd \<Rightarrow> status \<times> 'd zbd" where
  "szd_sync be h dev =
     (case szd_Sync be h (world dev) of
        (success, d) \<Rightarrow> (if success then OK else IOError, dev\<lparr>world := d\<rparr>))"

definition WALSync :: "'d backend \<Rightarrow> ('d, 'm) fenv \<Rightarrow> status \<times> ('d, 'm) fenv" where
  "WALSync be st =
     (case wal (f_file st) of
        None \<Rightarrow> (OK, st)
      | Some h \<Rightarrow>
          (let dev1 = (f_dev st)\<lparr>world := snd (be_AppendSync be h (world (f_dev st)))\<rparr> in
           case szd_sync be h dev1 of (s, dev2) \<Rightarrow> (s, st\<lparr>f_dev := dev2\<rparr>)))"

definition ReleaseActiveZone :: "('d, 'm) fenv \<Rightarrow> ('d, 'm) fenv" where
  "ReleaseActiveZone st =
     (case active_zone (f_file st) of
        None \<Rightarrow> st
      | Some r \<Rightarrow> upd_file (\<lambda>zf. zf\<lparr>active_zone := None\<rparr>)
          (upd_dev (\<lambda>dev. put_zone r (snd (Release (zone_at dev r))) dev) st))"

text \<open>The status of the WAL's sync is lost when there is an active zone to close.\<close>

definition CloseActiveZone :: "'d backend \<Rightarrow> ('d, 'm) fenv \<Rightarrow> status \<times> ('d, 'm) fenv" where
  "CloseActiveZone be st =
     (case (case wal (f_file st) of
              Some h \<Rightarrow>
                if is_wal (f_file st)
                then (case szd_sync be h (f_dev st) of (s, dev) \<Rightarrow> (s, st\<lparr>f_dev := dev\<rparr>))
                else (OK, st)
            | None \<Rightarrow> (OK, st)) of
        (s0, st0) \<Rightarrow>
          (case active_zone (f_file st0) of
             None \<Rightarrow> (s0, st0)
           | Some r \<Rightarrow>
               (let z = zone_at (f_dev st0) r; full = IsFull z in
                case Zone_Close be z (world (f_dev st0)) of
                  (s, z1, d1) \<Rightarrow>
                    (let st1 = ReleaseActiveZone
                           (upd_dev (\<lambda>dev. (put_zone r z1 dev)\<lparr>world := d1\<rparr>) st0) in
                     if \<not> ok s then (s, st1)
                     else (s, upd_dev (\<lambda>dev. (if full then PutActiveIOZoneToken else id)
                                (PutOpenIOZoneToken dev)) st1)))))"

definition CloseWR :: "'d backend \<Rightarrow> ('d, 'm) persist \<Rightarrow> ('d, 'm) fenv \<Rightarrow> (status \<times> ('d, 'm) fenv) option" where
  "CloseWR be persist st =
     (case persist (upd_file (\<lambda>zf. zf\<lparr>extent_start := NO_EXTENT\<rparr>) st) of
        None \<Rightarrow> None
      | Some (s, st1) \<Rightarrow>
          if \<not> ok s then Some (s, st1)
          else Some (CloseActiveZone be (upd_file ReleaseWRLock st1)))"

text \<open>The last zone of a write-ahead log: the extents' zone with the greatest number.\<close>

fun last_wal_zone :: "'d backend \<Rightarrow> 'd zbd \<Rightarrow> ZoneExtent list \<Rightarrow> zref option \<Rightarrow> zref option" where
  "last_wal_zone be dev [] z = z"
| "last_wal_zone be dev (e # es) z =
     last_wal_zone be dev es
       (case z of
          None \<Rightarrow> Some (e_zone e)
        | Some r \<Rightarrow>
            if GetZoneNr be (zone_at dev (e_zone e)) > GetZoneNr be (zone_at dev r)
            then Some (e_zone e) else Some r)"

definition AllocateNewZone ::
    "'d backend \<Rightarrow> ('d, 'm) persist \<Rightarrow> ('d, 'm) fenv \<Rightarrow> (status \<times> ('d, 'm) fenv) option" where
  "AllocateNewZone be persist st =
     (let zf = f_file st in
      case (if is_wal zf then
              AllocateWALZone be (wal zf) (last_wal_zone be (f_dev st) (extents zf) None) (f_dev st)
            else
              map_option (\<lambda>(s, i, dev). (s, map_option IoZ i, wal zf, dev))
                (AllocateIOZone be (zf_lifetime zf) (io_type zf = kWAL) (f_dev st))) of
        None \<Rightarrow> None
      | Some (s, zone, w, dev1) \<Rightarrow>
          (let st1 = st\<lparr>f_file := zf\<lparr>wal := w\<rparr>, f_dev := dev1\<rparr> in
           if \<not> ok s then Some (s, st1)
           else case zone of
             None \<Rightarrow> Some (NoSpace, st1)
           | Some r \<Rightarrow>
               persist (upd_file (\<lambda>zf. zf\<lparr>active_zone := Some r,
                   extent_start := z_wp (zone_at dev1 r), extent_filepos := file_size zf\<rparr>) st1)))"

section \<open>Appending\<close>

text \<open>
  How much is written at once: at most what the zone still holds and, for a write-ahead log, what
  is left until the next barrier. The widths are those of the code: \<^verbatim>\<open>wr_size\<close> has 32 bits.
\<close>

definition write_size :: "config \<Rightarrow> ZoneFile \<Rightarrow> u64 \<Rightarrow> u32 \<Rightarrow> u32" where
  "write_size cfg zf capacity want =
     (let w1 = (if ucast want > capacity then ucast capacity else want);
          room = barrier cfg - append_bytes_since_last_barrier zf
      in if is_wal zf \<and> ucast w1 > room then ucast room else w1)"

definition pad_size :: "u32 \<Rightarrow> u32 \<Rightarrow> u32" where
  "pad_size block wr = (if wr mod block \<noteq> 0 then block - wr mod block else 0)"

text \<open>
  The end of a round of \<^verbatim>\<open>BufferedAppend\<close> and of \<^verbatim>\<open>SparseAppend\<close>: the new extent is recorded, and a
  full zone is replaced. What is left of the data moves to the front only in that case.
\<close>

definition record_extent ::
    "zref \<Rightarrow> u64 \<Rightarrow> u64 \<Rightarrow> ('d, 'm) fenv \<Rightarrow> ('d, 'm) fenv" where
  "record_extent r start len st =
     (let st1 = upd_file (\<lambda>zf. zf\<lparr>extents := extents zf @ [\<lparr> e_start = start, e_length = len, e_zone = r \<rparr>],
                    extent_start := z_wp (zone_at (f_dev st) r),
                    file_size := file_size zf + len\<rparr>) st
      in upd_dev (add_used r len) st1)"

definition next_zone ::
    "'d backend \<Rightarrow> ('d, 'm) persist \<Rightarrow> nat \<Rightarrow> u32 \<Rightarrow> bytes \<Rightarrow> u32 \<Rightarrow> zref \<Rightarrow> ('d, 'm) fenv \<Rightarrow>
     (status \<times> bytes \<times> u32 \<times> ('d, 'm) fenv) option" where
  "next_zone be persist hdr wr buf left r st =
     (if z_capacity (zone_at (f_dev st) r) \<noteq> 0 then Some (OK, buf, left, st)
      else case CloseActiveZone be st of
        (s, st1) \<Rightarrow>
          if \<not> ok s then Some (s, buf, left, st1)
          else
            do {
              buf1 \<leftarrow> (if left \<noteq> 0
                        then do { rest \<leftarrow> peek (unat wr) (unat left) buf; poke hdr rest buf }
                        else Some buf);
              (s2, st2) \<leftarrow> AllocateNewZone be persist st1;
              Some (s2, buf1, left, st2)
            })"

definition BufferedAppend_step ::
    "config \<Rightarrow> 'd backend \<Rightarrow> ('d, 'm) persist \<Rightarrow> bytes \<Rightarrow> u32 \<Rightarrow> ('d, 'm) fenv \<Rightarrow>
     (status \<times> bytes \<times> u32 \<times> ('d, 'm) fenv) option" where
  "BufferedAppend_step cfg be persist buf left st =
     do {
       r \<leftarrow> active_zone (f_file st);
       let zf = f_file st;
       let wr = write_size cfg zf (z_capacity (zone_at (f_dev st) r)) left;
       let pad = pad_size (block_sz be) wr;
       buf1 \<leftarrow> poke (unat wr) (replicate (unat pad) 0) buf;
       data \<leftarrow> peek 0 (unat (wr + pad)) buf1;
       (s, st1) \<leftarrow>
         (if is_wal zf then
            do {
              h \<leftarrow> wal zf;
              let st0 = (if append_bytes_since_last_barrier zf \<ge> barrier cfg
                         then upd_file (\<lambda>zf. zf\<lparr>append_bytes_since_last_barrier := 0\<rparr>)
                                (st\<lparr>f_dev := snd (szd_sync be h (f_dev st))\<rparr>)
                         else st);
              let (s, dev1) = zone_append_to be r h data (f_dev st0);
              Some (s, upd_file (\<lambda>zf. zf\<lparr>append_bytes_since_last_barrier :=
                         append_bytes_since_last_barrier zf + ucast (wr + pad)\<rparr>) (st0\<lparr>f_dev := dev1\<rparr>))
            }
          else
            do {
              (s, dev1) \<leftarrow> append_to be r data (f_dev st);
              Some (s, st\<lparr>f_dev := dev1\<rparr>)
            });
       (if \<not> ok s then Some (s, buf1, left, st1)
        else
          next_zone be persist 0 wr buf1 (left - wr) r
            (record_extent r (extent_start (f_file st1)) (ucast wr) st1))
     }"

partial_function (option) BufferedAppend_loop ::
    "config \<Rightarrow> 'd backend \<Rightarrow> ('d, 'm) persist \<Rightarrow> bytes \<Rightarrow> u32 \<Rightarrow> ('d, 'm) fenv \<Rightarrow>
     (status \<times> bytes \<times> ('d, 'm) fenv) option" where
  "BufferedAppend_loop cfg be persist buf left st =
     (if left = 0 then Some (OK, buf, st)
      else Option.bind (BufferedAppend_step cfg be persist buf left st)
        (\<lambda>x. if \<not> ok (fst x) then Some (fst x, fst (snd x), snd (snd (snd x)))
             else BufferedAppend_loop cfg be persist (fst (snd x)) (fst (snd (snd x)))
                    (snd (snd (snd x)))))"

text \<open>All three routines get a zone first when the file has none.\<close>

definition with_zone ::
    "'d backend \<Rightarrow> ('d, 'm) persist \<Rightarrow> ('d, 'm) fenv \<Rightarrow> (status \<times> ('d, 'm) fenv) option" where
  "with_zone be persist st =
     (if active_zone (f_file st) = None then AllocateNewZone be persist st else Some (OK, st))"

definition BufferedAppend ::
    "config \<Rightarrow> 'd backend \<Rightarrow> ('d, 'm) persist \<Rightarrow> bytes \<Rightarrow> u32 \<Rightarrow> ('d, 'm) fenv \<Rightarrow>
     (status \<times> bytes \<times> ('d, 'm) fenv) option" where
  "BufferedAppend cfg be persist buf data_size st =
     do {
       (s, st1) \<leftarrow> with_zone be persist st;
       (if \<not> ok s then Some (s, buf, st1) else BufferedAppend_loop cfg be persist buf data_size st1)
     }"

text \<open>
  \<^verbatim>\<open>SparseAppend\<close> precedes the data by its length and the sequence number; the buffer has the header
  in front. The sequence number is written whether the file is a write-ahead log or not.
\<close>

definition sparse_barrier :: "config \<Rightarrow> 'd backend \<Rightarrow> ('d, 'm) fenv \<Rightarrow> status \<times> ('d, 'm) fenv" where
  "sparse_barrier cfg be st =
     (if is_wal (f_file st) \<and> append_bytes_since_last_barrier (f_file st) \<ge> barrier cfg
      then (case WALSync be st of
              (s, st1) \<Rightarrow>
                if \<not> ok s then (s, st1)
                else (OK, upd_file (\<lambda>zf. zf\<lparr>append_bytes_since_last_barrier := 0\<rparr>) st1))
      else (OK, st))"

definition sparse_block_sz :: u32 where "sparse_block_sz = 4096"

definition sparse_header :: "u64 \<Rightarrow> u64 \<Rightarrow> bytes \<Rightarrow> bytes option" where
  "sparse_header len seq buf =
     do { buf1 \<leftarrow> poke 0 (EncodeFixed64 len) buf; poke 8 (EncodeFixed64 seq) buf1 }"

definition sparse_write ::
    "'d backend \<Rightarrow> zref \<Rightarrow> bytes \<Rightarrow> u32 \<Rightarrow> ('d, 'm) fenv \<Rightarrow> (status \<times> ('d, 'm) fenv) option" where
  "sparse_write be r data n st =
     (if is_wal (f_file st) then
        do {
          h \<leftarrow> wal (f_file st);
          let (s, dev1) = zone_append_to be r h data (f_dev st);
          let st1 = st\<lparr>f_dev := dev1\<rparr>;
          Some (s, if \<not> ok s then st1
                   else upd_file (\<lambda>zf. zf\<lparr>append_bytes_since_last_barrier :=
                          append_bytes_since_last_barrier zf + ucast n\<rparr>) st1)
        }
      else
        do { (s, dev1) \<leftarrow> append_to be r data (f_dev st); Some (s, st\<lparr>f_dev := dev1\<rparr>) })"

definition SparseAppend_step ::
    "config \<Rightarrow> 'd backend \<Rightarrow> ('d, 'm) persist \<Rightarrow> bytes \<Rightarrow> u32 \<Rightarrow> ('d, 'm) fenv \<Rightarrow>
     (status \<times> bytes \<times> u32 \<times> ('d, 'm) fenv) option" where
  "SparseAppend_step cfg be persist buf left st0 =
     (let hdr = header_size (f_file st0) in
      case sparse_barrier cfg be st0 of
        (s, st) \<Rightarrow>
          if \<not> ok s then Some (s, buf, left, st)
          else
            do {
              r \<leftarrow> active_zone (f_file st);
              let zf = f_file st;
              let wr = write_size cfg zf (z_capacity (zone_at (f_dev st) r)) (ucast (ucast left + hdr));
              let pad = pad_size sparse_block_sz wr;
              let len = ucast wr - hdr;
              buf1 \<leftarrow> poke (unat wr) (replicate (unat pad) 0) buf;
              buf2 \<leftarrow> sparse_header len (wal_seq zf) buf1;
              data \<leftarrow> peek 0 (unat (wr + pad)) buf2;
              (s1, st1) \<leftarrow> sparse_write be r data (wr + pad)
                             (upd_file (\<lambda>zf. zf\<lparr>wal_seq := wal_seq zf + 1\<rparr>) st);
              (if \<not> ok s1 then Some (s1, buf2, left, st1)
               else
                 next_zone be persist (unat hdr) wr buf2 (ucast (ucast left - len)) r
                   (record_extent r (extent_start (f_file st1) + hdr) len st1))
            })"

partial_function (option) SparseAppend_loop ::
    "config \<Rightarrow> 'd backend \<Rightarrow> ('d, 'm) persist \<Rightarrow> bytes \<Rightarrow> u32 \<Rightarrow> ('d, 'm) fenv \<Rightarrow>
     (status \<times> bytes \<times> ('d, 'm) fenv) option" where
  "SparseAppend_loop cfg be persist buf left st =
     (if left = 0 then Some (OK, buf, st)
      else Option.bind (SparseAppend_step cfg be persist buf left st)
        (\<lambda>x. if \<not> ok (fst x) then Some (fst x, fst (snd x), snd (snd (snd x)))
             else SparseAppend_loop cfg be persist (fst (snd x)) (fst (snd (snd x)))
                    (snd (snd (snd x)))))"

definition SparseAppend ::
    "config \<Rightarrow> 'd backend \<Rightarrow> ('d, 'm) persist \<Rightarrow> bytes \<Rightarrow> u32 \<Rightarrow> ('d, 'm) fenv \<Rightarrow>
     (status \<times> bytes \<times> ('d, 'm) fenv) option" where
  "SparseAppend cfg be persist buf data_size st =
     do {
       (s, st1) \<leftarrow> with_zone be persist st;
       (if \<not> ok s then Some (s, buf, st1) else SparseAppend_loop cfg be persist buf data_size st1)
     }"

text \<open>\<^verbatim>\<open>Append\<close>, for direct writes, leaves the extent open; a full zone is replaced before a write.\<close>

definition Append_full ::
    "'d backend \<Rightarrow> ('d, 'm) persist \<Rightarrow> ('d, 'm) fenv \<Rightarrow> (status \<times> ('d, 'm) fenv) option" where
  "Append_full be persist st =
     do {
       r \<leftarrow> active_zone (f_file st);
       (if z_capacity (zone_at (f_dev st) r) = 0 then
          (case PushExtent (f_file st) (f_dev st) of
             (zf, dev) \<Rightarrow>
               (case CloseActiveZone be (st\<lparr>f_file := zf, f_dev := dev\<rparr>) of
                  (s, st1) \<Rightarrow>
                    if \<not> ok s then Some (s, st1) else AllocateNewZone be persist st1))
        else Some (OK, st))
     }"

definition Append_step ::
    "'d backend \<Rightarrow> ('d, 'm) persist \<Rightarrow> bytes \<Rightarrow> u32 \<Rightarrow> u32 \<Rightarrow> ('d, 'm) fenv \<Rightarrow>
     (status \<times> u32 \<times> u32 \<times> ('d, 'm) fenv) option" where
  "Append_step be persist data left offset st =
     do {
       (s, st1) \<leftarrow> Append_full be persist st;
       (if \<not> ok s then Some (s, left, offset, st1)
        else
          do {
            r \<leftarrow> active_zone (f_file st1);
            let cap = z_capacity (zone_at (f_dev st1) r);
            let wr = (if ucast left > cap then ucast cap else left);
            chunk \<leftarrow> peek (unat offset) (unat wr) data;
            (s2, dev2) \<leftarrow> append_to be r chunk (f_dev st1);
            let st2 = st1\<lparr>f_dev := dev2\<rparr>;
            (if \<not> ok s2 then Some (s2, left, offset, st2)
             else Some (OK, left - wr, offset + wr,
                        upd_file (\<lambda>zf. zf\<lparr>file_size := file_size zf + ucast wr\<rparr>) st2))
          })
     }"

partial_function (option) Append_loop ::
    "'d backend \<Rightarrow> ('d, 'm) persist \<Rightarrow> bytes \<Rightarrow> u32 \<Rightarrow> u32 \<Rightarrow> ('d, 'm) fenv \<Rightarrow>
     (status \<times> ('d, 'm) fenv) option" where
  "Append_loop be persist data left offset st =
     (if left = 0 then Some (OK, st)
      else Option.bind (Append_step be persist data left offset st)
        (\<lambda>x. if \<not> ok (fst x) then Some (fst x, snd (snd (snd x)))
             else Append_loop be persist data (fst (snd x)) (fst (snd (snd x))) (snd (snd (snd x)))))"

definition ZoneFile_Append ::
    "'d backend \<Rightarrow> ('d, 'm) persist \<Rightarrow> bytes \<Rightarrow> ('d, 'm) fenv \<Rightarrow> (status \<times> ('d, 'm) fenv) option" where
  "ZoneFile_Append be persist data st =
     do {
       (s, st1) \<leftarrow> with_zone be persist st;
       (if \<not> ok s then Some (s, st1) else Append_loop be persist data (of_nat (length data)) 0 st1)
     }"

end
