(* ===== verification/Meta_Log.thy ===== *)
theory Meta_Log
  imports Crc32c File_IO
begin

text \<open>
  The superblock and the metadata log (\<^verbatim>\<open>class Superblock\<close> and \<^verbatim>\<open>class ZenMetaLog\<close> of
  \<^verbatim>\<open>fs_zenfs.h\<close> and \<^verbatim>\<open>fs_zenfs.cc\<close>). The log is a metadata zone holding checksummed records, each
  padded to whole blocks.
\<close>

section \<open>Superblock\<close>

record Superblock =
  sb_magic :: u32
  sb_uuid :: bytes
  sb_sequence :: u32
  sb_version :: u32
  sb_flags :: u32
  sb_block_size :: u32
  sb_zone_size :: u32
  sb_nr_zones :: u32
  sb_aux_fs_path :: bytes
  sb_finish_treshold :: u32
  sb_zenfs_version :: bytes
  sb_reserved :: bytes

definition sb_MAGIC :: u32 where "sb_MAGIC = 0x5a454e46"
definition ENCODED_SIZE :: nat where "ENCODED_SIZE = 512"
definition CURRENT_SUPERBLOCK_VERSION :: u32 where "CURRENT_SUPERBLOCK_VERSION = 2"
definition DEFAULT_FLAGS :: u32 where "DEFAULT_FLAGS = 0"
definition FLAGS_ENABLE_GC :: u32 where "FLAGS_ENABLE_GC = 1"

text \<open>\<^verbatim>\<open>strncpy\<close> into a zeroed array of \<open>n\<close> characters, leaving the last one zero.\<close>

definition strncpy :: "nat \<Rightarrow> bytes \<Rightarrow> bytes" where
  "strncpy n src =
     (let s = take (n - 1) (takeWhile (\<lambda>c. c \<noteq> 0) src) in s @ replicate (n - length s) 0)"

text \<open>\<open>uuid\<close> is what the environment generated, \<open>version\<close> the constant \<^verbatim>\<open>ZENFS_VERSION\<close>.\<close>

definition ZENFS_VERSION :: bytes where "ZENFS_VERSION = str ''v1.0''"

definition newSuperblock ::
    "'d backend \<Rightarrow> bytes \<Rightarrow> bytes \<Rightarrow> u32 \<Rightarrow> bool \<Rightarrow> Superblock" where
  "newSuperblock be uuid aux_fs_path threshold enable_gc =
     (let u = take (37 - 1) uuid in
      \<lparr> sb_magic = sb_MAGIC, sb_uuid = u @ replicate (37 - length u) 0, sb_sequence = 0,
        sb_version = CURRENT_SUPERBLOCK_VERSION,
        sb_flags = (if enable_gc then DEFAULT_FLAGS OR FLAGS_ENABLE_GC else DEFAULT_FLAGS),
        sb_block_size = block_sz be,
        sb_zone_size = ucast (zone_sz be div ucast (block_sz be)), sb_nr_zones = nr_zones be,
        sb_aux_fs_path = strncpy 256 aux_fs_path, sb_finish_treshold = threshold,
        sb_zenfs_version = strncpy 64 ZENFS_VERSION, sb_reserved = replicate 123 0 \<rparr>)"

text \<open>Encoding bumps the sequence number first, so that no two encodings are the same.\<close>

definition Superblock_EncodeTo :: "Superblock \<Rightarrow> bytes \<times> Superblock" where
  "Superblock_EncodeTo sb0 =
     (let sb = sb0\<lparr>sb_sequence := sb_sequence sb0 + 1\<rparr>;
          o1 = PutFixed32 [] (sb_magic sb) @ sb_uuid sb;
          o2 = PutFixed32 o1 (sb_sequence sb);
          o3 = PutFixed32 o2 (sb_version sb);
          o4 = PutFixed32 o3 (sb_flags sb);
          o5 = PutFixed32 o4 (sb_block_size sb);
          o6 = PutFixed32 o5 (sb_zone_size sb);
          o7 = PutFixed32 o6 (sb_nr_zones sb);
          o8 = PutFixed32 o7 (sb_finish_treshold sb)
      in (o8 @ sb_aux_fs_path sb @ sb_zenfs_version sb @ sb_reserved sb, sb))"

text \<open>The length has been checked, so every \<^verbatim>\<open>GetFixed32\<close> succeeds.\<close>

definition get32 :: "bytes \<Rightarrow> u32 \<times> bytes" where
  "get32 input = (case GetFixed32 input of (v, r) \<Rightarrow> (case v of Some x \<Rightarrow> x | None \<Rightarrow> 0, r))"

definition Superblock_DecodeFrom :: "bytes \<Rightarrow> status \<times> Superblock option" where
  "Superblock_DecodeFrom input =
     (if length input \<noteq> ENCODED_SIZE then (Corruption, None)
      else
        (let (magic, r0) = get32 input;
             uuid = take 37 r0;
             (seq, r1) = get32 (drop 37 r0);
             (version, r2) = get32 r1;
             (flags, r3) = get32 r2;
             (bs, r4) = get32 r3;
             (zs, r5) = get32 r4;
             (nz, r6) = get32 r5;
             (ft, r7) = get32 r6;
             aux = take 256 r7;
             ver = take 64 (drop 256 r7);
             rsv = take 123 (drop 64 (drop 256 r7));
             sb = \<lparr> sb_magic = magic, sb_uuid = uuid, sb_sequence = seq, sb_version = version,
                    sb_flags = flags, sb_block_size = bs, sb_zone_size = zs, sb_nr_zones = nz,
                    sb_aux_fs_path = aux, sb_finish_treshold = ft, sb_zenfs_version = ver,
                    sb_reserved = rsv \<rparr>
         in if magic \<noteq> sb_MAGIC then (Corruption, Some sb)
            else if version \<noteq> CURRENT_SUPERBLOCK_VERSION then (Corruption, Some sb)
            else (OK, Some sb)))"

definition CompatibleWith :: "'d backend \<Rightarrow> Superblock \<Rightarrow> status" where
  "CompatibleWith be sb =
     (if sb_block_size sb \<noteq> block_sz be then Corruption
      else if ucast (sb_zone_size sb) \<noteq> zone_sz be div ucast (sb_block_size sb) then Corruption
      else if sb_nr_zones sb > nr_zones be then Corruption
      else OK)"

definition GetAuxFsPath :: "Superblock \<Rightarrow> bytes" where
  "GetAuxFsPath sb = takeWhile (\<lambda>c. c \<noteq> 0) (sb_aux_fs_path sb)"

definition GetUUID :: "Superblock \<Rightarrow> bytes" where
  "GetUUID sb = takeWhile (\<lambda>c. c \<noteq> 0) (sb_uuid sb)"

definition IsGCEnabled :: "Superblock \<Rightarrow> bool" where
  "IsGCEnabled sb \<longleftrightarrow> sb_flags sb AND FLAGS_ENABLE_GC \<noteq> 0"

section \<open>The metadata log\<close>

record ZenMetaLog =
  ml_read_pos :: u64
  ml_zone :: zref

definition newZenMetaLog :: "zref \<Rightarrow> 'd zbd \<Rightarrow> ZenMetaLog" where
  "newZenMetaLog r dev = \<lparr> ml_read_pos = z_start (zone_at dev r), ml_zone = r \<rparr>"

text \<open>The destructor releases the zone.\<close>

definition delete_ZenMetaLog :: "ZenMetaLog \<Rightarrow> 'd zbd \<Rightarrow> 'd zbd" where
  "delete_ZenMetaLog ml dev = put_zone (ml_zone ml) (snd (Release (zone_at dev (ml_zone ml)))) dev"

definition zMetaHeaderSize :: u64 where "zMetaHeaderSize = 8"

definition align_size :: "u64 \<Rightarrow> u64 \<Rightarrow> u64" where
  "align_size bs n = (if n mod bs \<noteq> 0 then n + (bs - n mod bs) else n)"

text \<open>
  \<open>crc\<close> stands for \<^verbatim>\<open>crc32c::Extend\<close>; the two buffers of the code are at addresses the result does not
  depend on.
\<close>

definition Extend :: "u32 \<Rightarrow> bytes \<Rightarrow> u32" where
  "Extend crc buf = ExtendImpl 0 crc buf"

definition record_crc :: "bytes \<Rightarrow> u32" where
  "record_crc data =
     (let record_sz = of_nat (length data) :: u32 in Extend (Extend 0 (EncodeFixed32 record_sz)) data)"

text \<open>The bytes of a record as they go to the zone.\<close>

definition meta_record :: "'d backend \<Rightarrow> bytes \<Rightarrow> bytes" where
  "meta_record be data =
     (let record_sz = of_nat (length data) :: u32;
          phys_sz = align_size (ucast (block_sz be)) (ucast record_sz + zMetaHeaderSize);
          body = EncodeFixed32 (Mask (record_crc data)) @ EncodeFixed32 record_sz @ data
      in body @ replicate (unat phys_sz - length body) 0)"

definition AddRecord :: "'d backend \<Rightarrow> bytes \<Rightarrow> ZenMetaLog \<Rightarrow> 'd zbd \<Rightarrow> (status \<times> 'd zbd) option" where
  "AddRecord be data ml dev = append_to be (ml_zone ml) (meta_record be data) dev"

text \<open>A device that reads nothing makes the loop spin.\<close>

partial_function (option) MetaRead_loop ::
    "'d backend \<Rightarrow> nat \<Rightarrow> bytes \<Rightarrow> u64 \<Rightarrow> 'd \<Rightarrow> (status \<times> bytes \<times> u64 \<times> 'd) option" where
  "MetaRead_loop be left buf pos d =
     (if left = 0 then Some (OK, buf, pos, d)
      else Option.bind (zbd_Read be pos left False d)
        (\<lambda>rd. case fst rd of
           RErr e \<Rightarrow> (if e = EINTR then MetaRead_loop be left buf pos (snd rd)
                      else Some (IOError, buf, pos, snd rd))
         | RData bs \<Rightarrow>
             MetaRead_loop be (left - length bs) (buf @ bs) (pos + of_nat (length bs)) (snd rd)))"

definition MetaRead ::
    "'d backend \<Rightarrow> nat \<Rightarrow> ZenMetaLog \<Rightarrow> 'd zbd \<Rightarrow> (status \<times> bytes \<times> ZenMetaLog \<times> 'd zbd) option" where
  "MetaRead be to_read ml dev =
     (let z = zone_at dev (ml_zone ml) in
      if ml_read_pos ml \<ge> z_wp z then Some (OK, [], ml, dev)
      else if ml_read_pos ml + of_nat to_read > z_start z + z_max_capacity z then Some (IOError, [], ml, dev)
      else
        map_option (\<lambda>(s, buf, pos, d). (s, buf, ml\<lparr>ml_read_pos := pos\<rparr>, dev\<lparr>world := d\<rparr>))
          (MetaRead_loop be to_read [] (ml_read_pos ml) (world dev)))"

definition ReadRecord ::
    "'d backend \<Rightarrow> ZenMetaLog \<Rightarrow> 'd zbd \<Rightarrow> (status \<times> bytes \<times> ZenMetaLog \<times> 'd zbd) option" where
  "ReadRecord be ml dev =
     do {
       (s, header, ml1, dev1) \<leftarrow> MetaRead be (unat zMetaHeaderSize) ml dev;
       (if \<not> ok s then Some (s, [], ml1, dev1)
        else if header = [] then Some (OK, [], ml1, dev1)
        else
          do {
            let (crc, r) = get32 header;
            let (record_sz, r') = get32 r;
            (s2, rec, ml2, dev2) \<leftarrow> MetaRead be (unat record_sz) ml1 dev1;
            (if \<not> ok s2 then Some (s2, rec, ml2, dev2)
             else if Extend (Extend 0 (EncodeFixed32 record_sz)) rec \<noteq> Unmask crc
             then Some (IOError, rec, ml2, dev2)
             else Some (OK, rec,
                    ml2\<lparr>ml_read_pos := align_size (ucast (block_sz be)) (ml_read_pos ml2)\<rparr>, dev2))
          })
     }"

end
