(* ===== verification/Crc_Combine.thy ===== *)
theory Crc_Combine
  imports Crc32c
begin

text \<open>
  \<^verbatim>\<open>Crc32cCombine\<close> of \<^verbatim>\<open>util/crc32c.cc\<close>: the checksum of two pieces from the checksums of the pieces, by
  multiplication in the field of the polynomial.
\<close>

unbundle bit_operations_syntax

section \<open>The code\<close>

fun gf_multiply_sw_1 :: "nat \<Rightarrow> u32 \<Rightarrow> u32 \<Rightarrow> u32 \<Rightarrow> u32 \<Rightarrow> u32" where
  "gf_multiply_sw_1 0 p a b m = p"
| "gf_multiply_sw_1 (Suc n) p a b m =
     gf_multiply_sw_1 n (p XOR ((0 - (drop_bit 31 b AND 1)) AND a)) (drop_bit 1 a XOR ((0 - (a AND 1)) AND m)) (push_bit 1 b) m"

text \<open>The counter runs from 0 to 32 in the code.\<close>

definition gf_multiply_sw :: "u32 \<Rightarrow> u32 \<Rightarrow> u32 \<Rightarrow> u32" where
  "gf_multiply_sw a b m = gf_multiply_sw_1 32 0 a b m"

definition gf_square_sw :: "u32 \<Rightarrow> u32 \<Rightarrow> u32" where
  "gf_square_sw a m = gf_multiply_sw a a m"

fun gf_powers_memo :: "nat \<Rightarrow> u32 \<Rightarrow> u32" where
  "gf_powers_memo 0 m = m"
| "gf_powers_memo (Suc i) m = gf_square_sw (gf_powers_memo i m) m"

definition crc32c_m :: u32 where "crc32c_m = 0x82f63b78"

definition crc32c_powers :: "u32 list" where
  "crc32c_powers = map (\<lambda>i. gf_powers_memo i crc32c_m) [0..<62]"

text \<open>
  The loop over the set bits of the length. \<^verbatim>\<open>powers\<close> is the rest of the array; the code leaves out the
  zero bits in one step.
\<close>

function CountTrailingZeroBits :: "u64 \<Rightarrow> nat" where
  "CountTrailingZeroBits v = (if v = 0 \<or> bit v 0 then 0 else Suc (CountTrailingZeroBits (drop_bit 1 v)))"
  by pat_completeness auto
termination
proof (relation "measure unat")
  fix v :: u64
  assume "\<not> (v = 0 \<or> bit v 0)"
  then have "0 < unat v" by (simp add: unat_gt_0)
  then show "(drop_bit 1 v, v) \<in> measure unat"
    by (simp add: unat_drop_bit_div [where k = 1, simplified])
qed simp

declare CountTrailingZeroBits.simps [simp del]

text \<open>An access beyond the array is \<open>None\<close>.\<close>

function AppendZeroes_loop :: "u32 \<Rightarrow> u64 \<Rightarrow> u32 \<Rightarrow> u32 list \<Rightarrow> u32 option" where
  "AppendZeroes_loop crc len_bits polynomial powers =
     (if len_bits = 0 then Some crc
      else
        (let r = CountTrailingZeroBits len_bits in
         case drop r powers of
           [] \<Rightarrow> None
         | pw # powers' \<Rightarrow>
             AppendZeroes_loop (gf_multiply_sw crc pw polynomial) (drop_bit 1 (drop_bit r len_bits)) polynomial powers'))"
  by pat_completeness auto
termination
proof (relation "measure (\<lambda>(crc, len_bits, polynomial, powers). unat len_bits)")
  fix len_bits :: u64 and r
  assume "len_bits \<noteq> 0"
  then have "0 < unat len_bits" by (simp add: unat_gt_0)
  moreover have "1 < (2 :: nat) ^ Suc r" by (rule one_less_power) simp_all
  ultimately have "unat len_bits div 2 ^ Suc r < unat len_bits" by (intro div_less_dividend)
  then have "unat (drop_bit 1 (drop_bit r len_bits)) < unat len_bits"
    by (simp add: unat_drop_bit_div)
  then show "((gf_multiply_sw crc pw polynomial, drop_bit 1 (drop_bit r len_bits), polynomial, powers'),
      crc, len_bits, polynomial, powers) \<in> measure (\<lambda>(crc, len_bits, polynomial, powers). unat len_bits)"
    for crc pw polynomial powers powers' by simp
qed simp

declare AppendZeroes_loop.simps [simp del]

definition Crc32AppendZeroes :: "u32 \<Rightarrow> u64 \<Rightarrow> u32 \<Rightarrow> u32 list \<Rightarrow> u32 option" where
  "Crc32AppendZeroes crc len_over_4 polynomial powers_array = AppendZeroes_loop crc len_over_4 polynomial powers_array"

definition InvertedToPure :: "u32 \<Rightarrow> u32" where "InvertedToPure crc = NOT crc"

definition PureToInverted :: "u32 \<Rightarrow> u32" where "PureToInverted crc = NOT crc"

text \<open>\<^verbatim>\<open>addr\<close> is the address of the buffer, which \<^verbatim>\<open>Extend\<close> looks at.\<close>

definition PureExtend :: "u64 \<Rightarrow> u32 \<Rightarrow> bytes \<Rightarrow> u32" where
  "PureExtend addr crc buf = InvertedToPure (ExtendImpl addr (PureToInverted crc) buf)"

definition Crc32cCombine :: "u64 \<Rightarrow> u32 \<Rightarrow> u32 \<Rightarrow> u64 \<Rightarrow> u32 option" where
  "Crc32cCombine addr crc1 crc2 crc2len =
     (let pure_crc1_with_init = InvertedToPure crc1;
          pure_crc2_with_init = InvertedToPure crc2;
          pure_crc2_init = -1;
          len = unat (crc2len AND 3);
          tmp = pure_crc1_with_init XOR pure_crc2_init;
          tmp1 = (if len \<noteq> 0 then PureExtend addr tmp (replicate len 0) else tmp)
      in map_option (\<lambda>c. PureToInverted (c XOR pure_crc2_with_init))
           (Crc32AppendZeroes tmp1 (crc2len div 4) crc32c_m crc32c_powers))"

section \<open>The field\<close>

text \<open>The first bit of a checksum is the highest power, so the top bit is one.\<close>

definition gf_one :: u32 where "gf_one = push_bit 31 1"

abbreviation mul :: "nat \<Rightarrow> u32 \<Rightarrow> u32 \<Rightarrow> u32 \<Rightarrow> u32" where
  "mul n p a b \<equiv> gf_multiply_sw_1 n p a b crc32c_m"

lemma select_bit: "(0 - (w AND 1)) AND a = (if bit w 0 then a else 0)" for w a :: u32
  by (cases "bit w 0") (simp_all add: and_one_eq odd_iff_mod_2_eq_one bit_0)

lemma mul_Suc:
  "mul (Suc n) p a b = mul n (if bit b 31 then p XOR a else p) (crc_bit a) (push_bit 1 b)"
proof -
  have "drop_bit 1 a XOR ((0 - (a AND 1)) AND crc32c_m) = crc_bit a"
    unfolding select_bit by (simp add: crc_bit_def crc32c_m_def)
  moreover have "p XOR ((0 - (drop_bit 31 b AND 1)) AND a) = (if bit b 31 then p XOR a else p)"
    unfolding select_bit by (simp add: bit_drop_bit_eq)
  ultimately show ?thesis by simp
qed

declare gf_multiply_sw_1.simps(2) [simp del]

text \<open>A linear function that commutes with the shift goes through a product.\<close>

lemma mul_linear:
  assumes add: "\<And>x y. f (x XOR y) = f x XOR f y" and shift: "\<And>x. f (crc_bit x) = crc_bit (f x)"
  shows "f (mul n p a b) = mul n (f p) (f a) b"
  by (induction n arbitrary: p a b) (simp_all add: mul_Suc add shift)

lemma mul_start: "mul n p a b = p XOR mul n 0 a b"
proof (induction n arbitrary: p a b)
  case (Suc n)
  show ?case
    using Suc.IH [of "p XOR a"] Suc.IH [of p] Suc.IH [of a] by (simp add: mul_Suc xor.assoc)
qed simp

lemma mul_xor: "mul n 0 (a XOR a') b = mul n 0 a b XOR mul n 0 a' b"
proof (induction n arbitrary: a a' b)
  case (Suc n)
  have "mul n (a XOR a') (crc_bit (a XOR a')) (push_bit 1 b)
      = mul n a (crc_bit a) (push_bit 1 b) XOR mul n a' (crc_bit a') (push_bit 1 b)"
    using Suc.IH [of "crc_bit a" "crc_bit a'" "push_bit 1 b"]
    by (subst (1 2 3) mul_start) (simp add: crc_bit_xor ac_simps)
  then show ?case using Suc.IH by (simp add: mul_Suc crc_bit_xor)
qed simp

lemma mul_shift: "mul n 0 (crc_bit a) b = crc_bit (mul n 0 a b)"
proof -
  have "crc_bit 0 = 0" by (simp add: crc_bit_def)
  then show ?thesis using mul_linear [of crc_bit n 0 a b] by (simp add: crc_bit_xor)
qed

lemma bit_crc_bit_one: "crc_bit (push_bit (Suc n) 1) = push_bit n 1" if "n < 31"
proof (rule bit_word_eqI)
  fix k assume "k < LENGTH(32)"
  then show "bit (crc_bit (push_bit (Suc n) 1)) k \<longleftrightarrow> bit (push_bit n 1 :: u32) k"
    using that by (auto simp: bit_crc_bit bit_simps)
qed

lemma mul_one_part:
  "n < 32 \<Longrightarrow> mul (Suc n) 0 (push_bit n 1) b = drop_bit (31 - n) b"
proof (induction n arbitrary: b)
  case 0
  have "(if bit b 31 then 1 else 0) = drop_bit 31 b" 
  proof (rule bit_word_eqI)
    fix k assume "k < LENGTH(32)"
    then show "bit (if bit b 31 then 1 else 0 :: u32) k \<longleftrightarrow> bit (drop_bit 31 b) k"
      by (cases k) (auto simp: bit_simps dest: bit_imp_le_length)
  qed
  then show ?case by (cases "bit b 31") (simp_all add: mul_Suc)
next
  case (Suc n)
  have shift: "crc_bit (push_bit (Suc n) 1) = push_bit n 1" by (rule bit_crc_bit_one) (use Suc.prems in simp)
  have "mul (Suc (Suc n)) 0 (push_bit (Suc n) 1) b
      = (if bit b 31 then push_bit (Suc n) 1 else 0) XOR mul (Suc n) 0 (push_bit n 1) (push_bit 1 b)"
    by (subst mul_Suc, subst mul_start, subst shift) (simp only: xor.left_neutral)
  also have "\<dots> = (if bit b 31 then push_bit (Suc n) 1 else 0) XOR drop_bit (31 - n) (push_bit 1 b)"
    using Suc by simp
  also have "\<dots> = drop_bit (31 - Suc n) b"
  proof (rule bit_word_eqI)
    fix k assume "k < LENGTH(32)"
    then have k: "k < 32" by simp
    have l: "bit (drop_bit (31 - n) (push_bit 1 b)) k \<longleftrightarrow> k \<le> n \<and> bit b (30 - n + k)"
      unfolding bit_drop_bit_eq o_def bit_push_bit_iff using Suc.prems k by auto
    have o: "bit (if bit b 31 then push_bit (Suc n) 1 else 0 :: u32) k \<longleftrightarrow> bit b 31 \<and> k = Suc n"
      using Suc.prems k by (cases "bit b 31") (auto simp only: if_True if_False bit_push_bit_iff bit_1_iff bit_0_eq, auto)
    have r: "bit (drop_bit (31 - Suc n) b) k \<longleftrightarrow> bit b (30 - n + k)"
      by (simp add: bit_drop_bit_eq)
    have "\<not> bit b (30 - n + k)" if "Suc n < k"
      using that Suc.prems bit_imp_le_length [of b "30 - n + k"] by auto
    moreover have "30 - n + k = 31" if "k = Suc n" using that Suc.prems by simp
    ultimately show "bit ((if bit b 31 then push_bit (Suc n) 1 else 0) XOR drop_bit (31 - n) (push_bit 1 b)) k
        \<longleftrightarrow> bit (drop_bit (31 - Suc n) b) k"
      unfolding bit_xor_iff l o r by (metis Suc_le_eq le_less_Suc_eq not_less_eq_eq not_less)
  qed
  finally show ?case .
qed

lemma mul_one: "mul 32 0 gf_one b = b"
  using mul_one_part [of 31 b] by (simp add: gf_one_def)

text \<open>Hence every such function is a product, and the product commutes.\<close>

lemma linear_mul:
  assumes "\<And>x y. f (x XOR y) = f x XOR f y" and "\<And>x. f (crc_bit x) = crc_bit (f x)"
  shows "f a = mul 32 0 (f gf_one) a"
proof -
  have "f 0 = 0" using assms(1) [of 0 0] by simp
  then show ?thesis using mul_linear [of f 32 0 gf_one a] assms by (simp add: mul_one)
qed

lemma mul_commute: "mul 32 0 a b = mul 32 0 b a"
  using linear_mul [of "\<lambda>a. mul 32 0 a b" a] by (simp add: mul_xor mul_shift mul_one)

text \<open>Multiplying by a power of the shift.\<close>

lemma mul_power: "gf_multiply_sw a ((crc_bit ^^ n) gf_one) crc32c_m = (crc_bit ^^ n) a"
proof -
  have "(crc_bit ^^ n) a = mul 32 0 ((crc_bit ^^ n) gf_one) a"
    by (rule linear_mul) (simp_all add: crc_bits_xor funpow_swap1)
  then show ?thesis by (simp add: gf_multiply_sw_def mul_commute [of a])
qed

lemma gf_powers_memo_power: "gf_powers_memo i crc32c_m = (crc_bit ^^ (32 * 2 ^ i)) gf_one"
proof (induction i)
  case 0
  have "(crc_bit ^^ 31) gf_one = drop_bit 31 gf_one" by (rule crc_bits_low) (unfold gf_one_def bit_push_bit_iff, simp)
  also have "\<dots> = 1" by (simp add: gf_one_def)
  finally have "(crc_bit ^^ 31) gf_one = 1" .
  then have "(crc_bit ^^ Suc 31) gf_one = crc_bit 1" by (simp only: funpow.simps o_apply)
  moreover have "crc_bit 1 = crc32c_m" by (simp add: crc_bit_def crc32c_m_def)
  ultimately show ?case by simp
next
  case (Suc i)
  then show ?case
    by (simp add: gf_square_sw_def mul_power funpow_add [symmetric, unfolded o_def, THEN fun_cong])
qed

section \<open>Combining\<close>

lemma crc32c_powers_drop:
  assumes "n < 62"
  shows "drop n crc32c_powers = gf_powers_memo n crc32c_m # drop (Suc n) crc32c_powers"
proof -
  have "length crc32c_powers = 62" by (simp only: crc32c_powers_def length_map length_upt)
  moreover have "crc32c_powers ! n = gf_powers_memo n crc32c_m"
    unfolding crc32c_powers_def using assms by (subst nth_map_upt) simp_all
  ultimately show ?thesis using assms Cons_nth_drop_Suc [of n crc32c_powers] by simp
qed

lemma CountTrailingZeroBits_split:
  "len \<noteq> 0 \<Longrightarrow> \<exists>q. unat len = 2 ^ CountTrailingZeroBits len * (2 * q + 1) \<and>
     unat (drop_bit 1 (drop_bit (CountTrailingZeroBits len) len)) = q"
proof (induction len rule: CountTrailingZeroBits.induct)
  case (1 v)
  have b0: "bit v 0 \<longleftrightarrow> odd (unat v)" unfolding bit_0 [symmetric] bit_unsigned_iff by simp
  show ?case
  proof (cases "bit v 0")
    case True
    then have "odd (unat v)" using b0 by blast
    then have "unat v = 2 * (unat v div 2) + 1" by presburger
    then show ?thesis using True by (simp add: CountTrailingZeroBits.simps [of v] unat_drop_bit_div [where k = 1, simplified])
  next
    case False
    then have ev: "even (unat v)" using b0 by blast
    have half: "unat (drop_bit 1 v) = unat v div 2" by (simp add: unat_drop_bit_div)
    have "0 < unat v" using "1.prems" by (simp add: unat_gt_0)
    then have "unat v div 2 \<noteq> 0" using ev by presburger
    then have "drop_bit 1 v \<noteq> 0" using half by auto
    from "1.IH" [OF _ this] "1.prems" False obtain q where
      q: "unat (drop_bit 1 v) = 2 ^ CountTrailingZeroBits (drop_bit 1 v) * (2 * q + 1)"
        "unat (drop_bit 1 (drop_bit (CountTrailingZeroBits (drop_bit 1 v)) (drop_bit 1 v))) = q" by blast
    have c: "CountTrailingZeroBits v = Suc (CountTrailingZeroBits (drop_bit 1 v))"
      using "1.prems" False by (simp add: CountTrailingZeroBits.simps [of v])
    have "unat v = 2 * unat (drop_bit 1 v)" using half ev by simp
    then show ?thesis using q unfolding c by (intro exI [of _ q]) (simp add: ac_simps)
  qed
qed

lemma AppendZeroes_loop_bits:
  "unat len < 2 ^ (62 - k) \<Longrightarrow> k \<le> 62 \<Longrightarrow>
   AppendZeroes_loop crc len crc32c_m (drop k crc32c_powers) = Some ((crc_bit ^^ (32 * (2 ^ k * unat len))) crc)"
proof (induction "unat len" arbitrary: len k crc rule: less_induct)
  case less
  show ?case
  proof (cases "len = 0")
    case True
    then show ?thesis by (simp add: AppendZeroes_loop.simps)
  next
    case False
    let ?r = "CountTrailingZeroBits len" and ?rest = "drop_bit 1 (drop_bit (CountTrailingZeroBits len) len)"
    obtain q where q: "unat len = 2 ^ ?r * (2 * q + 1)" "unat ?rest = q" using CountTrailingZeroBits_split [OF False] by blast
    have "(2 :: nat) ^ ?r \<le> unat len" using q(1) by simp
    then have "(2 :: nat) ^ ?r < 2 ^ (62 - k)" using less.prems(1) by linarith
    then have r: "?r < 62 - k" by (rule power_less_imp_less_exp [rotated]) simp
    have pw: "drop ?r (drop k crc32c_powers) = gf_powers_memo (k + ?r) crc32c_m # drop (Suc (k + ?r)) crc32c_powers"
      using r crc32c_powers_drop [of "k + ?r"] by (simp add: add.commute [of ?r])
    have "1 * (2 * q + 1) \<le> 2 ^ ?r * (2 * q + 1)" by (intro mult_le_mono1) simp
    then have lt: "unat ?rest < unat len" unfolding q by simp
    have "q < 2 ^ (62 - Suc (k + ?r))"
    proof -
      have "2 ^ ?r * (2 * q + 1) < 2 ^ ?r * 2 ^ (62 - k - ?r)" using less.prems(1) q(1) r by (simp add: power_add [symmetric])
      moreover have e: "62 - k - ?r = Suc (62 - Suc (k + ?r))" using r by simp
      ultimately have "2 * q + 1 < 2 ^ Suc (62 - Suc (k + ?r))" by (simp only: e nat_mult_less_cancel_disj)
      then show ?thesis by simp
    qed
    from less.hyps [OF lt, of "Suc (k + ?r)" "gf_multiply_sw crc (gf_powers_memo (k + ?r) crc32c_m) crc32c_m"] this q(2) r
    have "AppendZeroes_loop (gf_multiply_sw crc (gf_powers_memo (k + ?r) crc32c_m) crc32c_m) ?rest crc32c_m (drop (Suc (k + ?r)) crc32c_powers)
        = Some ((crc_bit ^^ (32 * (2 ^ Suc (k + ?r) * q))) ((crc_bit ^^ (32 * 2 ^ (k + ?r))) crc))"
      by (simp add: gf_powers_memo_power mul_power)
    moreover have "32 * (2 ^ Suc (k + ?r) * q) + 32 * 2 ^ (k + ?r) = 32 * (2 ^ k * unat len)"
      by (simp add: q(1) power_add algebra_simps)
    ultimately show ?thesis
      using False pw by (simp add: AppendZeroes_loop.simps [of crc len] Let_def funpow_add [symmetric, unfolded o_def, THEN fun_cong])
  qed
qed

lemma zero_bytes: "foldl crc_byte c (replicate n 0) = (crc_bit ^^ (8 * n)) c"
proof (induction n arbitrary: c)
  case (Suc n)
  have "crc_byte c 0 = (crc_bit ^^ 8) c" by (simp add: crc_byte_def)
  moreover have "(crc_bit ^^ (8 * n)) ((crc_bit ^^ 8) c) = (crc_bit ^^ (8 * n + 8)) c" by (simp add: funpow_add)
  ultimately show ?case using Suc.IH by (simp add: add.commute)
qed simp

lemma crc_bytes_xor: "foldl crc_byte (c XOR d) bs = foldl crc_byte c bs XOR (crc_bit ^^ (8 * length bs)) d"
proof (induction bs arbitrary: c d)
  case (Cons b bs)
  have "crc_byte (c XOR d) b = crc_byte c b XOR (crc_bit ^^ 8) d"
    by (simp add: crc_byte_def crc_bits_xor [symmetric] ac_simps)
  moreover have "(crc_bit ^^ (8 * length bs)) ((crc_bit ^^ 8) d) = (crc_bit ^^ (8 * length bs + 8)) d" by (simp add: funpow_add)
  ultimately show ?case using Cons.IH by (simp add: add.commute)
qed simp

section \<open>Properties\<close>

lemma Crc32cCombine_crc32c:
  assumes "length data < 2 ^ 64"
  shows "Crc32cCombine addr crc (crc32c 0 data) (of_nat (length data)) = Some (crc32c crc data)"
proof -
  let ?n = "length data" and ?tmp = "NOT crc XOR -1"
  have n: "unat (of_nat ?n :: u64) = ?n" by (rule unat_of_nat_small) (use assms in simp)
  have "(of_nat ?n AND 3 :: u64) = take_bit 2 (of_nat ?n)" by (simp add: take_bit_eq_mask mask_eq_exp_minus_1)
  then have len: "unat (of_nat ?n AND 3 :: u64) = ?n mod 4"
    by (simp add: take_bit_eq_mod unat_mod n)
  have quarter: "unat (of_nat ?n div 4 :: u64) = ?n div 4" by (simp add: unat_div n)
  have ext: "PureExtend addr ?tmp (replicate m 0) = (crc_bit ^^ (8 * m)) ?tmp" for m
    by (simp add: PureExtend_def InvertedToPure_def PureToInverted_def ExtendImpl_bitwise crc32c_def zero_bytes)
  have tmp: "(if ?n mod 4 \<noteq> 0 then PureExtend addr ?tmp (replicate (?n mod 4) 0) else ?tmp) = (crc_bit ^^ (8 * (?n mod 4))) ?tmp"
    by (simp only: ext) simp
  have "Crc32AppendZeroes ((crc_bit ^^ (8 * (?n mod 4))) ?tmp) (of_nat ?n div 4) crc32c_m crc32c_powers
      = Some ((crc_bit ^^ (32 * (?n div 4))) ((crc_bit ^^ (8 * (?n mod 4))) ?tmp))"
  proof -
    have "unat (of_nat ?n div 4 :: u64) < 2 ^ (62 - 0)" unfolding quarter using assms by simp
    from AppendZeroes_loop_bits [OF this] show ?thesis unfolding Crc32AppendZeroes_def quarter by simp
  qed
  moreover have "32 * (?n div 4) + 8 * (?n mod 4) = 8 * ?n"
    using div_mult_mod_eq [of ?n 4] by linarith
  then have "(crc_bit ^^ (32 * (?n div 4))) ((crc_bit ^^ (8 * (?n mod 4))) ?tmp) = (crc_bit ^^ (8 * ?n)) ?tmp"
    by (metis comp_apply funpow_add)
  moreover have "foldl crc_byte (-1) data XOR (crc_bit ^^ (8 * ?n)) ?tmp = foldl crc_byte (NOT crc) data"
    using crc_bytes_xor [of "-1" ?tmp data] by (simp add: ac_simps xor.assoc [symmetric])
  ultimately show ?thesis
    unfolding Crc32cCombine_def Let_def len InvertedToPure_def tmp
    by (simp add: PureToInverted_def crc32c_def ac_simps)
qed

text \<open>
  C33. \<^verbatim>\<open>Crc32cCombine\<close> gives, from the checksum of a prefix and the checksum and the length of a piece of
  data, the checksum of the prefix followed by the data, without looking at the data. It never leaves
  its array of powers.
\<close>

theorem Crc32cCombine_correct:
  assumes "length data < 2 ^ 64"
  shows "Crc32cCombine addr crc (crc32c 0 data) (of_nat (length data)) = Some (crc32c crc data)"
  by (rule Crc32cCombine_crc32c) (rule assms)

theorem Crc32cCombine_correct_witness:
  "Crc32cCombine 0 (crc32c 0 [1]) (crc32c 0 [5, 6, 7, 8, 9]) 5 = Some (crc32c (crc32c 0 [1]) [5, 6, 7, 8, 9])"
  using Crc32cCombine_correct [of "[5, 6, 7, 8, 9]" 0 "crc32c 0 [1]"] by simp

end
