(* ===== verification/Log_Writer.thy ===== *)
theory Log_Writer
  imports Meta_Log Crc_Combine "HOL-Library.Monad_Syntax"
begin

text \<open>
  The client of the write-ahead logs: RocksDB's log format (\<^verbatim>\<open>db/log_format.h\<close>) and its writer
  (\<^verbatim>\<open>db/log_writer.h\<close>, \<^verbatim>\<open>db/log_writer.cc\<close>). A record is cut into fragments that do not cross blocks of
  32 KiB.

  The file the writer appends to (\<^verbatim>\<open>WritableFileWriter\<close>) and the streaming compression are arguments.
\<close>

section \<open>Format\<close>

definition kZeroType :: u32 where "kZeroType = 0"
definition kFullType :: u32 where "kFullType = 1"
definition kFirstType :: u32 where "kFirstType = 2"
definition kMiddleType :: u32 where "kMiddleType = 3"
definition kLastType :: u32 where "kLastType = 4"
definition kRecyclableFullType :: u32 where "kRecyclableFullType = 5"
definition kRecyclableFirstType :: u32 where "kRecyclableFirstType = 6"
definition kRecyclableMiddleType :: u32 where "kRecyclableMiddleType = 7"
definition kRecyclableLastType :: u32 where "kRecyclableLastType = 8"
definition kSetCompressionType :: u32 where "kSetCompressionType = 9"
definition kUserDefinedTimestampSizeType :: u32 where "kUserDefinedTimestampSizeType = 10"
definition kRecyclableUserDefinedTimestampSizeType :: u32 where
  "kRecyclableUserDefinedTimestampSizeType = 11"
definition kMaxRecordType :: u32 where "kMaxRecordType = kRecyclableUserDefinedTimestampSizeType"

definition kBlockSize :: nat where "kBlockSize = 32768"
definition kHeaderSize :: nat where "kHeaderSize = 4 + 2 + 1"
definition kRecyclableHeaderSize :: nat where "kRecyclableHeaderSize = 4 + 2 + 1 + 4"

lemmas log_types =
  kZeroType_def kFullType_def kFirstType_def kMiddleType_def kLastType_def kRecyclableFullType_def
  kRecyclableFirstType_def kRecyclableMiddleType_def kRecyclableLastType_def kSetCompressionType_def
  kUserDefinedTimestampSizeType_def kRecyclableUserDefinedTimestampSizeType_def kMaxRecordType_def

lemmas log_sizes_defs = kBlockSize_def kHeaderSize_def kRecyclableHeaderSize_def

section \<open>Writer\<close>

record 'w dest_file =
  wf_Append :: "bytes \<Rightarrow> 'w \<Rightarrow> status \<times> 'w"
  wf_Flush :: "'w \<Rightarrow> status \<times> 'w"
  wf_Close :: "'w \<Rightarrow> status \<times> 'w"
  wf_seen_error :: "'w \<Rightarrow> bool"

text \<open>\<^verbatim>\<open>Compress\<close> returns how much of its input remains (negative for an error) and what it put out.\<close>

record 'c compressor =
  cp_Create :: "byte \<Rightarrow> nat \<Rightarrow> 'c"
  cp_Reset :: "'c \<Rightarrow> 'c"
  cp_Compress :: "bytes \<Rightarrow> 'c \<Rightarrow> int \<times> bytes \<times> 'c"

definition kNoCompression :: byte where "kNoCompression = 0"

record 'c log_writer =
  block_offset :: nat
  log_number :: u64
  recycle_log_files :: bool
  manual_flush :: bool
  compression_type :: byte
  compress :: "'c option"
  recorded_cf_to_ts_sz :: "(u32 \<times> nat) list"

definition newWriter :: "u64 \<Rightarrow> bool \<Rightarrow> bool \<Rightarrow> byte \<Rightarrow> 'c log_writer" where
  "newWriter number recycle flush ctype =
     \<lparr> block_offset = 0, log_number = number, recycle_log_files = recycle, manual_flush = flush,
       compression_type = ctype, compress = None, recorded_cf_to_ts_sz = [] \<rparr>"

definition type_crc :: "u32 \<Rightarrow> u32" where
  "type_crc t = Extend 0 [ucast t]"

definition writer_header_size :: "'c log_writer \<Rightarrow> nat" where
  "writer_header_size w = (if recycle_log_files w then kRecyclableHeaderSize else kHeaderSize)"

definition WriteBuffer :: "'w dest_file \<Rightarrow> 'w \<Rightarrow> status \<times> 'w" where
  "WriteBuffer df d = (if wf_seen_error df d then (IOError, d) else wf_Flush df d)"

text \<open>The flag says whether the writer still has its file.\<close>

definition Writer_Close :: "'w dest_file \<Rightarrow> bool \<Rightarrow> 'w \<Rightarrow> status \<times> bool \<times> 'w" where
  "Writer_Close df has_dest d =
     (if has_dest then (case wf_Close df d of (s, d1) \<Rightarrow> (s, False, d1)) else (OK, False, d))"

text \<open>The header of a physical record; the checksum covers the type, the log number and the payload.\<close>

definition legacy_type :: "u32 \<Rightarrow> bool" where
  "legacy_type t \<longleftrightarrow> t < kRecyclableFullType \<or> t = kSetCompressionType \<or> t = kUserDefinedTimestampSizeType"

definition record_header :: "u64 \<Rightarrow> u32 \<Rightarrow> bytes \<Rightarrow> bytes option" where
  "record_header number t data =
     (let n = length data;
          num = EncodeFixed32 (ucast number);
          crc = (if legacy_type t then type_crc t else Extend (type_crc t) num);
          payload_crc = Extend 0 data
      in map_option
           (\<lambda>c. EncodeFixed32 (Mask c) @ [of_nat n, of_nat (n div 256), ucast t] @ (if legacy_type t then [] else num))
           (Crc32cCombine 0 crc payload_crc (of_nat n)))"

definition EmitPhysicalRecord ::
    "'w dest_file \<Rightarrow> u32 \<Rightarrow> bytes \<Rightarrow> 'c log_writer \<Rightarrow> 'w \<Rightarrow> (status \<times> 'c log_writer \<times> 'w) option" where
  "EmitPhysicalRecord df t data w d =
     do {
       header \<leftarrow> record_header (log_number w) t data;
       let (s, d1) = wf_Append df header d;
       let (s2, d2) = (if ok s then wf_Append df data d1 else (s, d1));
       Some (s2, w\<lparr>block_offset := block_offset w + length header + length data\<rparr>, d2)
     }"

text \<open>Switching to a new block fills the old one with zeros.\<close>

definition switch_block :: "'w dest_file \<Rightarrow> 'c log_writer \<Rightarrow> 'w \<Rightarrow> status \<times> 'c log_writer \<times> 'w" where
  "switch_block df w d =
     (let leftover = int kBlockSize - int (block_offset w) in
      if leftover < int (writer_header_size w) then
        (case (if leftover > 0 then wf_Append df (replicate (nat leftover) 0) d else (OK, d)) of
           (s, d1) \<Rightarrow> if \<not> ok s then (s, w, d1) else (OK, w\<lparr>block_offset := 0\<rparr>, d1))
      else (OK, w, d))"

definition fragment_type :: "bool \<Rightarrow> bool \<Rightarrow> bool \<Rightarrow> u32" where
  "fragment_type recycle begin end =
     (if begin \<and> end then (if recycle then kRecyclableFullType else kFullType)
      else if begin then (if recycle then kRecyclableFirstType else kFirstType)
      else if end then (if recycle then kRecyclableLastType else kLastType)
      else (if recycle then kRecyclableMiddleType else kMiddleType))"

text \<open>
  What a round works on: the bytes not written yet, whether they start the record, and what the
  compression still holds back.
\<close>

record adding =
  ad_ptr :: bytes
  ad_begin :: bool
  ad_remaining :: int
  ad_start :: bool

definition compress_step ::
    "'c compressor \<Rightarrow> bytes \<Rightarrow> adding \<Rightarrow> 'c log_writer \<Rightarrow> status \<times> bool \<times> adding \<times> 'c log_writer" where
  "compress_step cp payload a w =
     (case compress w of
        Some c \<Rightarrow>
          if ad_start a \<or> ad_ptr a = [] then
            (case cp_Compress cp payload c of
               (remaining, out, c') \<Rightarrow>
                 let w1 = w\<lparr>compress := Some c'\<rparr>; a1 = a\<lparr>ad_remaining := remaining, ad_ptr := out\<rparr> in
                 if remaining < 0 then (IOError, False, a1, w1)
                 else if out = [] \<and> \<not> ad_start a then (OK, False, a1, w1)
                 else (OK, True, a1\<lparr>ad_start := False\<rparr>, w1))
          else (OK, True, a, w)
      | None \<Rightarrow> (OK, True, a, w))"

text \<open>One round; the flag says that the loop was left by \<^verbatim>\<open>break\<close>.\<close>

definition AddRecord_step ::
    "'w dest_file \<Rightarrow> 'c compressor \<Rightarrow> bytes \<Rightarrow> adding \<Rightarrow> 'c log_writer \<Rightarrow> 'w \<Rightarrow>
     (status \<times> bool \<times> adding \<times> 'c log_writer \<times> 'w) option" where
  "AddRecord_step df cp payload a w d =
     (case switch_block df w d of
        (s, w1, d1) \<Rightarrow>
          if \<not> ok s then Some (s, False, a, w1, d1)
          else
            (case compress_step cp payload a w1 of
               (s2, go, a2, w2) \<Rightarrow>
                 if \<not> go then Some (s2, False, a2, w2, d1)
                 else
                   (let avail = kBlockSize - block_offset w2 - writer_header_size w2;
                        fragment_length = (if length (ad_ptr a2) < avail then length (ad_ptr a2) else avail);
                        end = (length (ad_ptr a2) = fragment_length \<and> ad_remaining a2 = 0);
                        t = fragment_type (recycle_log_files w2) (ad_begin a2) end
                    in do {
                         (s3, w3, d3) \<leftarrow> EmitPhysicalRecord df t (take fragment_length (ad_ptr a2)) w2 d1;
                         Some (s3, True, a2\<lparr>ad_ptr := drop fragment_length (ad_ptr a2), ad_begin := False\<rparr>, w3, d3)
                       })))"

partial_function (option) AddRecord_loop ::
    "'w dest_file \<Rightarrow> 'c compressor \<Rightarrow> bytes \<Rightarrow> adding \<Rightarrow> 'c log_writer \<Rightarrow> 'w \<Rightarrow>
     (status \<times> 'c log_writer \<times> 'w) option" where
  "AddRecord_loop df cp payload a w d =
     Option.bind (AddRecord_step df cp payload a w d)
       (\<lambda>x. let a' = fst (snd (snd x)) in
          if fst (snd x) \<and> ok (fst x) \<and> (ad_ptr a' \<noteq> [] \<or> ad_remaining a' > 0)
          then AddRecord_loop df cp payload a' (fst (snd (snd (snd x)))) (snd (snd (snd (snd x))))
          else Some (fst x, snd (snd (snd x))))"

definition Writer_AddRecord ::
    "'w dest_file \<Rightarrow> 'c compressor \<Rightarrow> bytes \<Rightarrow> 'c log_writer \<Rightarrow> 'w \<Rightarrow> (status \<times> 'c log_writer \<times> 'w) option" where
  "Writer_AddRecord df cp payload w d =
     (let w0 = w\<lparr>compress := map_option (cp_Reset cp) (compress w)\<rparr>;
          a = \<lparr> ad_ptr = payload, ad_begin = True, ad_remaining = 0, ad_start = (compress w \<noteq> None) \<rparr>
      in do {
           (s, w1, d1) \<leftarrow> AddRecord_loop df cp payload a w0 d;
           (if ok s \<and> \<not> manual_flush w1
            then (case wf_Flush df d1 of (s2, d2) \<Rightarrow> Some (s2, w1, d2))
            else Some (s, w1, d1))
         })"

definition AddCompressionTypeRecord ::
    "'w dest_file \<Rightarrow> 'c compressor \<Rightarrow> 'c log_writer \<Rightarrow> 'w \<Rightarrow> (status \<times> 'c log_writer \<times> 'w) option" where
  "AddCompressionTypeRecord df cp w d =
     (if compression_type w = kNoCompression then Some (OK, w, d)
      else
        do {
          (s, w1, d1) \<leftarrow> EmitPhysicalRecord df kSetCompressionType (PutFixed32 [] (ucast (compression_type w))) w d;
          (if ok s then
             (case (if \<not> manual_flush w1 then wf_Flush df d1 else (s, d1)) of
                (s2, d2) \<Rightarrow>
                  Some (s2, w1\<lparr>compress := Some (cp_Create cp (compression_type w1) (kBlockSize - writer_header_size w1))\<rparr>, d2))
           else Some (s, w1\<lparr>compression_type := kNoCompression\<rparr>, d1))
        })"

text \<open>Column families whose timestamp size is not recorded yet, in the order of the caller's map.\<close>

fun ts_sz_to_record :: "(u32 \<times> nat) list \<Rightarrow> (u32 \<times> nat) list \<Rightarrow> (u32 \<times> nat) list" where
  "ts_sz_to_record recorded [] = []"
| "ts_sz_to_record recorded ((cf_id, ts_sz) # rest) =
     (if cf_id \<in> fst ` set recorded \<or> ts_sz = 0 then ts_sz_to_record recorded rest
      else (cf_id, ts_sz) # ts_sz_to_record ((cf_id, ts_sz) # recorded) rest)"

definition UDT_EncodeTo :: "(u32 \<times> nat) list \<Rightarrow> bytes \<Rightarrow> bytes" where
  "UDT_EncodeTo cf_to_ts_sz dst = foldl (\<lambda>dst (cf_id, ts_sz). PutFixed16 (PutFixed32 dst cf_id) (of_nat ts_sz)) dst cf_to_ts_sz"

definition MaybeAddUserDefinedTimestampSizeRecord ::
    "'w dest_file \<Rightarrow> (u32 \<times> nat) list \<Rightarrow> 'c log_writer \<Rightarrow> 'w \<Rightarrow> (status \<times> 'c log_writer \<times> 'w) option" where
  "MaybeAddUserDefinedTimestampSizeRecord df cf_to_ts_sz w d =
     (let new = ts_sz_to_record (recorded_cf_to_ts_sz w) cf_to_ts_sz;
          w1 = w\<lparr>recorded_cf_to_ts_sz := recorded_cf_to_ts_sz w @ new\<rparr>
      in if new = [] then Some (OK, w1, d)
         else EmitPhysicalRecord df
                (if recycle_log_files w1 then kRecyclableUserDefinedTimestampSizeType else kUserDefinedTimestampSizeType)
                (UDT_EncodeTo new []) w1 d)"

end
