(* ===== verification/Log_Reader.thy ===== *)
theory Log_Reader
  imports Log_Writer
begin

text \<open>
  The reader of RocksDB's log format (\<^verbatim>\<open>db/log_reader.h\<close>, \<^verbatim>\<open>db/log_reader.cc\<close>): physical records out of a
  buffer of one block, records out of fragments, and what is reported and skipped when the log is
  damaged or ends early.

  The file (\<^verbatim>\<open>SequentialFileReader\<close>) and the streaming decompression are arguments. \<^verbatim>\<open>ReadRecord\<close> is
  called without \<^verbatim>\<open>record_checksum\<close>, as its default says.
\<close>

datatype WALRecoveryMode =
  kTolerateCorruptedTailRecords | kAbsoluteConsistency | kPointInTimeRecovery | kSkipAnyCorruptedRecords

definition kEof :: u32 where "kEof = kMaxRecordType + 1"
definition kBadRecord :: u32 where "kBadRecord = kMaxRecordType + 2"
definition kBadHeader :: u32 where "kBadHeader = kMaxRecordType + 3"
definition kOldRecord :: u32 where "kOldRecord = kMaxRecordType + 4"
definition kBadRecordLen :: u32 where "kBadRecordLen = kMaxRecordType + 5"
definition kBadRecordChecksum :: u32 where "kBadRecordChecksum = kMaxRecordType + 6"

lemmas read_types = kEof_def kBadRecord_def kBadHeader_def kOldRecord_def kBadRecordLen_def kBadRecordChecksum_def

record 'f seq_file =
  sf_Read :: "nat \<Rightarrow> 'f \<Rightarrow> status \<times> bytes \<times> 'f"

text \<open>
  \<^verbatim>\<open>Uncompress\<close> is given the input once and then nothing; it returns what remains and what it put out.
\<close>

record 'u decompressor =
  dc_supported :: "byte \<Rightarrow> bool"
  dc_Create :: "byte \<Rightarrow> nat \<Rightarrow> 'u"
  dc_Reset :: "'u \<Rightarrow> 'u"
  dc_Uncompress :: "bytes option \<Rightarrow> nat \<Rightarrow> 'u \<Rightarrow> int \<times> bytes \<times> 'u"

section \<open>State\<close>

text \<open>The last field collects what was reported to the reporter, if there is one.\<close>

record 'u log_reader =
  rr_checksum :: bool
  rr_buffer :: bytes
  rr_eof :: bool
  rr_read_error :: bool
  rr_eof_offset :: nat
  rr_last_record_offset :: u64
  rr_end_of_buffer_offset :: u64
  rr_log_number :: u64
  rr_recycled :: bool
  rr_first_record_read :: bool
  rr_compression_type :: byte
  rr_compression_type_record_read :: bool
  rr_uncompress :: "'u option"
  rr_recorded_cf_to_ts_sz :: "(u32 \<times> nat) list"
  rr_reporter :: bool
  rr_reports :: "(nat \<times> status) list"

definition newReader :: "bool \<Rightarrow> bool \<Rightarrow> u64 \<Rightarrow> 'u log_reader" where
  "newReader reporter checksum log_num =
     \<lparr> rr_checksum = checksum, rr_buffer = [], rr_eof = False, rr_read_error = False, rr_eof_offset = 0,
       rr_last_record_offset = 0, rr_end_of_buffer_offset = 0, rr_log_number = log_num, rr_recycled = False,
       rr_first_record_read = False, rr_compression_type = kNoCompression,
       rr_compression_type_record_read = False, rr_uncompress = None, rr_recorded_cf_to_ts_sz = [],
       rr_reporter = reporter, rr_reports = [] \<rparr>"

definition ReportDrop :: "nat \<Rightarrow> status \<Rightarrow> 'u log_reader \<Rightarrow> 'u log_reader" where
  "ReportDrop n reason r = (if rr_reporter r then r\<lparr>rr_reports := rr_reports r @ [(n, reason)]\<rparr> else r)"

definition ReportCorruption :: "nat \<Rightarrow> 'u log_reader \<Rightarrow> 'u log_reader" where
  "ReportCorruption n r = ReportDrop n Corruption r"

definition LastRecordOffset :: "'u log_reader \<Rightarrow> u64" where
  "LastRecordOffset r = rr_last_record_offset r"

definition LastRecordEnd :: "'u log_reader \<Rightarrow> u64" where
  "LastRecordEnd r = rr_end_of_buffer_offset r - of_nat (length (rr_buffer r))"

section \<open>Physical records\<close>

text \<open>\<^verbatim>\<open>ReadMore\<close> returns whether it read, the size that was dropped, and the error.\<close>

definition ReadMore ::
    "'f seq_file \<Rightarrow> nat \<Rightarrow> u32 \<Rightarrow> 'u log_reader \<Rightarrow> 'f \<Rightarrow> bool \<times> nat \<times> u32 \<times> 'u log_reader \<times> 'f" where
  "ReadMore sf drop_size err r f =
     (if \<not> rr_eof r \<and> \<not> rr_read_error r then
        (case sf_Read sf kBlockSize f of
           (s, bs, f1) \<Rightarrow>
             let r1 = r\<lparr>rr_buffer := bs, rr_end_of_buffer_offset := rr_end_of_buffer_offset r + of_nat (length bs)\<rparr> in
             if \<not> ok s then
               (False, drop_size, kEof, ReportDrop kBlockSize s (r1\<lparr>rr_buffer := []\<rparr>)\<lparr>rr_read_error := True\<rparr>, f1)
             else (True, drop_size, err,
                   if length bs < kBlockSize then r1\<lparr>rr_eof := True, rr_eof_offset := length bs\<rparr> else r1, f1))
      else if rr_buffer r \<noteq> [] then (False, length (rr_buffer r), kBadHeader, r\<lparr>rr_buffer := []\<rparr>, f)
      else (False, drop_size, kEof, r, f))"

text \<open>\<^verbatim>\<open>header[6]\<close> is a signed character.\<close>

definition header_type :: "bytes \<Rightarrow> u32" where "header_type header = scast (header ! 6)"

definition header_length :: "bytes \<Rightarrow> nat" where
  "header_length header = unat (ucast (header ! 4) OR push_bit 8 (ucast (header ! 5)) :: u32)"

definition recyclable_type :: "u32 \<Rightarrow> bool" where
  "recyclable_type t \<longleftrightarrow>
     kRecyclableFullType \<le> t \<and> t \<le> kRecyclableLastType \<or> t = kRecyclableUserDefinedTimestampSizeType"

partial_function (option) uncompress_loop ::
    "'u decompressor \<Rightarrow> bytes option \<Rightarrow> nat \<Rightarrow> bytes \<Rightarrow> 'u \<Rightarrow> (bytes option \<times> 'u) option" where
  "uncompress_loop dc input n acc u =
     (let x = dc_Uncompress dc input n u; remaining = fst x; out = fst (snd x); u' = snd (snd x) in
      if remaining < 0 then Some (None, u')
      else if remaining > 0 \<or> length out = kBlockSize then uncompress_loop dc None n (acc @ out) u'
      else Some (Some (acc @ out), u'))"

text \<open>The end of \<^verbatim>\<open>ReadPhysicalRecord\<close>, once the checksum is right.\<close>

definition take_fragment ::
    "'u decompressor \<Rightarrow> u32 \<Rightarrow> nat \<Rightarrow> nat \<Rightarrow> 'u log_reader \<Rightarrow> (u32 \<times> bytes \<times> 'u log_reader) option" where
  "take_fragment dc t hsize n r =
     (let fragment = take n (drop hsize (rr_buffer r));
          r1 = r\<lparr>rr_buffer := drop (hsize + n) (rr_buffer r)\<rparr>
      in case rr_uncompress r1 of
           Some u \<Rightarrow>
             if t = kSetCompressionType \<or> t = kUserDefinedTimestampSizeType \<or> t = kRecyclableUserDefinedTimestampSizeType
             then Some (t, fragment, r1)
             else
               map_option
                 (\<lambda>(out, u'). case out of
                    None \<Rightarrow> (kBadRecord, [], r1\<lparr>rr_buffer := [], rr_uncompress := Some u'\<rparr>)
                  | Some bs \<Rightarrow> (t, bs, r1\<lparr>rr_uncompress := Some u'\<rparr>))
                 (uncompress_loop dc (Some fragment) n [] u)
         | None \<Rightarrow> Some (t, fragment, r1))"

text \<open>
  One round of \<^verbatim>\<open>ReadPhysicalRecord\<close>: a result, or a new round after more was read. The size dropped
  is handed through.
\<close>

definition physical_step ::
    "'f seq_file \<Rightarrow> 'u decompressor \<Rightarrow> nat \<Rightarrow> 'u log_reader \<Rightarrow> 'f \<Rightarrow>
     (bool \<times> u32 \<times> bytes \<times> nat \<times> 'u log_reader \<times> 'f) option" where
  "physical_step sf dc drop_size r f =
     (let more = (\<lambda>r. case ReadMore sf drop_size kEof r f of
                    (got, drop', e, r', f') \<Rightarrow> Some (got, e, [], drop', r', f'))
      in if length (rr_buffer r) < kHeaderSize then more r
         else
           let header = rr_buffer r; t = header_type header; n = header_length header; rec = recyclable_type t;
               hsize = (if rec then kRecyclableHeaderSize else kHeaderSize);
               r1 = (if rec \<and> rr_end_of_buffer_offset r - of_nat (length (rr_buffer r)) = 0
                     then r\<lparr>rr_recycled := True\<rparr> else r)
           in if rec \<and> length header < kRecyclableHeaderSize then more r1
              else if rec \<and> ucast (DecodeFixed32 (drop 7 header)) \<noteq> rr_log_number r1
              then Some (False, kOldRecord, [], drop_size, r1, f)
              else if hsize + n > length header
              then Some (False, kBadRecordLen, [], length header, r1\<lparr>rr_buffer := []\<rparr>, f)
              else if t = kZeroType \<and> n = 0
              then Some (False, kBadRecord, [], drop_size, r1\<lparr>rr_buffer := []\<rparr>, f)
              else if rr_checksum r1 \<and>
                   Extend 0 (take (n + hsize - 6) (drop 6 header)) \<noteq> Unmask (DecodeFixed32 header)
              then Some (False, kBadRecordChecksum, [], length header, r1\<lparr>rr_buffer := []\<rparr>, f)
              else map_option (\<lambda>(t', fragment, r2). (False, t', fragment, drop_size, r2, f))
                     (take_fragment dc t hsize n r1))"

partial_function (option) ReadPhysicalRecord_loop ::
    "'f seq_file \<Rightarrow> 'u decompressor \<Rightarrow> nat \<Rightarrow> 'u log_reader \<Rightarrow> 'f \<Rightarrow>
     (u32 \<times> bytes \<times> nat \<times> 'u log_reader \<times> 'f) option" where
  "ReadPhysicalRecord_loop sf dc drop_size r f =
     Option.bind (physical_step sf dc drop_size r f)
       (\<lambda>x. if fst x
            then ReadPhysicalRecord_loop sf dc (fst (snd (snd (snd x)))) (fst (snd (snd (snd (snd x)))))
                   (snd (snd (snd (snd (snd x)))))
            else Some (snd x))"

definition ReadPhysicalRecord ::
    "'f seq_file \<Rightarrow> 'u decompressor \<Rightarrow> 'u log_reader \<Rightarrow> 'f \<Rightarrow> (u32 \<times> bytes \<times> nat \<times> 'u log_reader \<times> 'f) option" where
  "ReadPhysicalRecord sf dc r f = ReadPhysicalRecord_loop sf dc 0 r f"

section \<open>Records of the log itself\<close>

definition CompressionTypeRecord_DecodeFrom :: "'u decompressor \<Rightarrow> bytes \<Rightarrow> byte option" where
  "CompressionTypeRecord_DecodeFrom dc src =
     (case GetFixed32 src of
        (None, _) \<Rightarrow> None
      | (Some v, _) \<Rightarrow> if dc_supported dc (ucast v) then Some (ucast v) else None)"

definition InitCompression :: "'u decompressor \<Rightarrow> byte \<Rightarrow> 'u log_reader \<Rightarrow> 'u log_reader" where
  "InitCompression dc ctype r =
     r\<lparr>rr_compression_type := ctype, rr_compression_type_record_read := True,
       rr_uncompress := Some (dc_Create dc ctype kBlockSize)\<rparr>"

fun UDT_entries :: "nat \<Rightarrow> bytes \<Rightarrow> (u32 \<times> nat) list option" where
  "UDT_entries 0 src = Some []"
| "UDT_entries (Suc k) src =
     (case GetFixed32 src of
        (None, _) \<Rightarrow> None
      | (Some cf_id, src1) \<Rightarrow>
          (case GetFixed16 src1 of
             (None, _) \<Rightarrow> None
           | (Some ts_sz, src2) \<Rightarrow> map_option (Cons (cf_id, unat ts_sz)) (UDT_entries k src2)))"

definition UDT_DecodeFrom :: "bytes \<Rightarrow> (u32 \<times> nat) list option" where
  "UDT_DecodeFrom src = (if length src mod 6 \<noteq> 0 then None else UDT_entries (length src div 6) src)"

fun UpdateRecordedTimestampSize :: "(u32 \<times> nat) list \<Rightarrow> 'u log_reader \<Rightarrow> status \<times> 'u log_reader" where
  "UpdateRecordedTimestampSize [] r = (OK, r)"
| "UpdateRecordedTimestampSize ((cf, ts_sz) # rest) r =
     (if ts_sz = 0 then (Corruption, r)
      else if cf \<in> fst ` set (rr_recorded_cf_to_ts_sz r) then (Corruption, r)
      else UpdateRecordedTimestampSize rest
             (r\<lparr>rr_recorded_cf_to_ts_sz := (cf, ts_sz) # rr_recorded_cf_to_ts_sz r\<rparr>))"

section \<open>Records\<close>

text \<open>The loop of \<^verbatim>\<open>ReadRecord\<close> works on the fragments of a record gathered so far.\<close>

record gathering =
  ga_in_fragmented_record :: bool
  ga_scratch :: bytes
  ga_offset :: u64

definition strict_mode :: "WALRecoveryMode \<Rightarrow> bool" where
  "strict_mode mode \<longleftrightarrow> mode = kAbsoluteConsistency \<or> mode = kPointInTimeRecovery"

text \<open>The end of the log, or what is treated as the end.\<close>

definition end_of_log :: "WALRecoveryMode \<Rightarrow> gathering \<Rightarrow> 'u log_reader \<Rightarrow> 'u log_reader" where
  "end_of_log mode g r =
     (if ga_in_fragmented_record g \<and> strict_mode mode then ReportCorruption (length (ga_scratch g)) r else r)"

text \<open>A damaged fragment ends the record it belongs to.\<close>

definition drop_partial :: "gathering \<Rightarrow> 'u log_reader \<Rightarrow> gathering \<times> 'u log_reader" where
  "drop_partial g r =
     (if ga_in_fragmented_record g
      then (g\<lparr>ga_in_fragmented_record := False, ga_scratch := []\<rparr>, ReportCorruption (length (ga_scratch g)) r)
      else (g, r))"

definition report_partial :: "gathering \<Rightarrow> 'u log_reader \<Rightarrow> 'u log_reader" where
  "report_partial g r =
     (if ga_in_fragmented_record g \<and> ga_scratch g \<noteq> [] then ReportCorruption (length (ga_scratch g)) r else r)"

definition set_compression :: "'u decompressor \<Rightarrow> bytes \<Rightarrow> u64 \<Rightarrow> 'u log_reader \<Rightarrow> 'u log_reader" where
  "set_compression dc fragment pos r =
     (let r1 = (if rr_compression_type_record_read r then ReportCorruption (length fragment) r else r);
          r2 = (if rr_first_record_read r1 then ReportCorruption (length fragment) r1 else r1);
          r3 = r2\<lparr>rr_last_record_offset := pos\<rparr>
      in case CompressionTypeRecord_DecodeFrom dc fragment of
           None \<Rightarrow> ReportCorruption (if length fragment < 4 then length fragment else length fragment - 4) r3
         | Some v \<Rightarrow> InitCompression dc v r3)"

definition set_timestamp_sizes :: "bytes \<Rightarrow> u64 \<Rightarrow> 'u log_reader \<Rightarrow> 'u log_reader" where
  "set_timestamp_sizes fragment pos r =
     (let r1 = r\<lparr>rr_last_record_offset := pos\<rparr> in
      case UDT_DecodeFrom fragment of
        None \<Rightarrow> ReportCorruption (length fragment) r1
      | Some l \<Rightarrow>
          (case UpdateRecordedTimestampSize l r1 of
             (s, r2) \<Rightarrow> if \<not> ok s then ReportCorruption 0 r2 else r2))"

text \<open>
  What one physical record does: \<open>Inl\<close> goes on, \<open>Inr\<close> returns, with a record or with \<^verbatim>\<open>false\<close>.
\<close>

definition ReadRecord_step ::
    "'u decompressor \<Rightarrow> WALRecoveryMode \<Rightarrow> u64 \<Rightarrow> u32 \<Rightarrow> bytes \<Rightarrow> nat \<Rightarrow> gathering \<Rightarrow> 'u log_reader \<Rightarrow>
     gathering \<times> 'u log_reader + bytes option \<times> 'u log_reader" where
  "ReadRecord_step dc mode pos t fragment drop_size g r =
     (if t = kFullType \<or> t = kRecyclableFullType then
        Inr (Some fragment, (report_partial g r)\<lparr>rr_last_record_offset := pos, rr_first_record_read := True\<rparr>)
      else if t = kFirstType \<or> t = kRecyclableFirstType then
        Inl (g\<lparr>ga_offset := pos, ga_scratch := fragment, ga_in_fragmented_record := True\<rparr>, report_partial g r)
      else if t = kMiddleType \<or> t = kRecyclableMiddleType then
        (if \<not> ga_in_fragmented_record g then Inl (g, ReportCorruption (length fragment) r)
         else Inl (g\<lparr>ga_scratch := ga_scratch g @ fragment\<rparr>, r))
      else if t = kLastType \<or> t = kRecyclableLastType then
        (if \<not> ga_in_fragmented_record g then Inl (g, ReportCorruption (length fragment) r)
         else Inr (Some (ga_scratch g @ fragment),
                   r\<lparr>rr_last_record_offset := ga_offset g, rr_first_record_read := True\<rparr>))
      else if t = kSetCompressionType then
        Inl (g\<lparr>ga_offset := pos, ga_scratch := []\<rparr>, set_compression dc fragment pos r)
      else if t = kUserDefinedTimestampSizeType \<or> t = kRecyclableUserDefinedTimestampSizeType then
        Inl (g\<lparr>ga_offset := pos, ga_scratch := []\<rparr>, set_timestamp_sizes fragment pos (report_partial g r))
      else if t = kBadHeader \<or> t = kEof then
        Inr (None, end_of_log mode g (if t = kBadHeader \<and> strict_mode mode then ReportCorruption drop_size r else r))
      else if t = kOldRecord \<and> mode \<noteq> kSkipAnyCorruptedRecords then Inr (None, end_of_log mode g r)
      else if t = kOldRecord \<or> t = kBadRecord then Inl (drop_partial g r)
      else if t = kBadRecordLen \<and> rr_eof r then
        Inr (None, if strict_mode mode then ReportCorruption drop_size r else r)
      else if t = kBadRecordLen \<or> t = kBadRecordChecksum then
        (if rr_recycled r \<and> mode = kTolerateCorruptedTailRecords then Inr (None, r)
         else Inl (drop_partial g (ReportCorruption drop_size r)))
      else
        Inl (g\<lparr>ga_in_fragmented_record := False, ga_scratch := []\<rparr>,
             ReportCorruption (length fragment + (if ga_in_fragmented_record g then length (ga_scratch g) else 0)) r))"

partial_function (option) ReadRecord_loop ::
    "'f seq_file \<Rightarrow> 'u decompressor \<Rightarrow> WALRecoveryMode \<Rightarrow> gathering \<Rightarrow> 'u log_reader \<Rightarrow> 'f \<Rightarrow>
     (bytes option \<times> 'u log_reader \<times> 'f) option" where
  "ReadRecord_loop sf dc mode g r f =
     Option.bind (ReadPhysicalRecord sf dc r f)
       (\<lambda>x. case ReadRecord_step dc mode (rr_end_of_buffer_offset r - of_nat (length (rr_buffer r)))
                   (fst x) (fst (snd x)) (fst (snd (snd x))) g (fst (snd (snd (snd x)))) of
          Inl y \<Rightarrow> ReadRecord_loop sf dc mode (fst y) (snd y) (snd (snd (snd (snd x))))
        | Inr y \<Rightarrow> Some (fst y, snd y, snd (snd (snd (snd x)))))"

definition Reader_ReadRecord ::
    "'f seq_file \<Rightarrow> 'u decompressor \<Rightarrow> WALRecoveryMode \<Rightarrow> 'u log_reader \<Rightarrow> 'f \<Rightarrow>
     (bytes option \<times> 'u log_reader \<times> 'f) option" where
  "Reader_ReadRecord sf dc mode r f =
     ReadRecord_loop sf dc mode \<lparr> ga_in_fragmented_record = False, ga_scratch = [], ga_offset = 0 \<rparr>
       (r\<lparr>rr_uncompress := map_option (dc_Reset dc) (rr_uncompress r)\<rparr>) f"

section \<open>Reading on after the end\<close>

definition UnmarkEOF :: "'f seq_file \<Rightarrow> 'u log_reader \<Rightarrow> 'f \<Rightarrow> 'u log_reader \<times> 'f" where
  "UnmarkEOF sf r f =
     (if rr_read_error r then (r, f)
      else
        let r0 = r\<lparr>rr_eof := False\<rparr> in
        if rr_eof_offset r0 = 0 then (r0, f)
        else
          let remaining = kBlockSize - rr_eof_offset r0 in
          case sf_Read sf remaining f of
            (s, bs, f1) \<Rightarrow>
              let r1 = r0\<lparr>rr_end_of_buffer_offset := rr_end_of_buffer_offset r0 + of_nat (length bs)\<rparr> in
              if \<not> ok s then
                ((if bs \<noteq> [] then ReportDrop (length bs) s r1 else r1)\<lparr>rr_read_error := True\<rparr>, f1)
              else
                let r2 = r1\<lparr>rr_buffer := rr_buffer r1 @ bs\<rparr> in
                (if length bs < remaining
                 then r2\<lparr>rr_eof := True, rr_eof_offset := rr_eof_offset r2 + length bs\<rparr>
                 else r2\<lparr>rr_eof_offset := 0\<rparr>, f1))"

end
