(* ===== verification/Log_Props.thy ===== *)
theory Log_Props
  imports Log_Reader
begin

text \<open>
  Correctness of RocksDB's log format: what the writer puts into its file is the reference format
  \<open>frag_stream\<close>, every call of the writer returns, and the reader gets back exactly the records that
  were written, in order and without a report.
\<close>

section \<open>The files the writer and the reader use\<close>

text \<open>
  Documented behaviour of \<^verbatim>\<open>WritableFileWriter\<close>: what it accepts is appended to the content, and
  flushing does not change the content. A call may fail.
\<close>

definition dest_law :: "'w dest_file \<Rightarrow> ('w \<Rightarrow> bytes) \<Rightarrow> bool" where
  "dest_law df content \<longleftrightarrow>
     (\<forall>d bs. ok (fst (wf_Append df bs d)) \<longrightarrow> content (snd (wf_Append df bs d)) = content d @ bs) \<and>
     (\<forall>d. ok (fst (wf_Flush df d)) \<longrightarrow> content (snd (wf_Flush df d)) = content d)"

text \<open>
  Documented behaviour of \<^verbatim>\<open>SequentialFileReader\<close> on a file without read errors: it returns the next
  \<open>n\<close> bytes, fewer only at the end.
\<close>

definition seq_law :: "'f seq_file \<Rightarrow> ('f \<Rightarrow> bytes) \<Rightarrow> bool" where
  "seq_law sf rest \<longleftrightarrow>
     (\<forall>n f. fst (sf_Read sf n f) = OK \<and> fst (snd (sf_Read sf n f)) = take n (rest f) \<and>
            rest (snd (snd (sf_Read sf n f))) = drop n (rest f))"

definition mem_dest :: "bytes dest_file" where
  "mem_dest = \<lparr> wf_Append = (\<lambda>bs d. (OK, d @ bs)), wf_Flush = (\<lambda>d. (OK, d)), wf_Close = (\<lambda>d. (OK, d)),
                wf_seen_error = (\<lambda>d. False) \<rparr>"

definition mem_seq :: "bytes seq_file" where
  "mem_seq = \<lparr> sf_Read = (\<lambda>n f. (OK, take n f, drop n f)) \<rparr>"

definition plain_compressor :: "unit compressor" where
  "plain_compressor = \<lparr> cp_Create = (\<lambda>_ _. ()), cp_Reset = id, cp_Compress = (\<lambda>bs c. (0, bs, c)) \<rparr>"

definition plain_decompressor :: "unit decompressor" where
  "plain_decompressor =
     \<lparr> dc_supported = (\<lambda>_. False), dc_Create = (\<lambda>_ _. ()), dc_Reset = id, dc_Uncompress = (\<lambda>bs n u. (0, case bs of Some b \<Rightarrow> b | None \<Rightarrow> [], u)) \<rparr>"

lemma dest_lawD:
  "dest_law df content \<Longrightarrow> wf_Append df bs d = (s, d') \<Longrightarrow> ok s \<Longrightarrow> content d' = content d @ bs"
  unfolding dest_law_def by (metis fst_conv snd_conv)

lemma mem_dest_law: "dest_law mem_dest id"
  by (simp add: dest_law_def mem_dest_def)

lemma mem_seq_law: "seq_law mem_seq id"
  by (simp add: seq_law_def mem_seq_def)

text \<open>All records of a list are added, and every call succeeds; a whole log is read to its end.\<close>

fun add_records ::
    "'w dest_file \<Rightarrow> 'c compressor \<Rightarrow> bytes list \<Rightarrow> 'c log_writer \<Rightarrow> 'w \<Rightarrow> ('c log_writer \<times> 'w) option" where
  "add_records df cp [] w d = Some (w, d)"
| "add_records df cp (rec # recs) w d =
     (case Writer_AddRecord df cp rec w d of
        Some (s, w1, d1) \<Rightarrow> if ok s then add_records df cp recs w1 d1 else None
      | None \<Rightarrow> None)"

fun read_records ::
    "'f seq_file \<Rightarrow> 'u decompressor \<Rightarrow> WALRecoveryMode \<Rightarrow> nat \<Rightarrow> 'u log_reader \<Rightarrow> 'f \<Rightarrow>
     (bytes list \<times> 'u log_reader \<times> 'f) option" where
  "read_records sf dc mode 0 r f = None"
| "read_records sf dc mode (Suc n) r f =
     (case Reader_ReadRecord sf dc mode r f of
        None \<Rightarrow> None
      | Some (None, r1, f1) \<Rightarrow> Some ([], r1, f1)
      | Some (Some rec, r1, f1) \<Rightarrow>
          map_option (\<lambda>(recs, x). (rec # recs, x)) (read_records sf dc mode n r1 f1))"

section \<open>The reference format\<close>

definition hsize :: "bool \<Rightarrow> nat" where
  "hsize rec = (if rec then kRecyclableHeaderSize else kHeaderSize)"

definition header :: "bool \<Rightarrow> u64 \<Rightarrow> u32 \<Rightarrow> bytes \<Rightarrow> bytes" where
  "header rec num t data =
     (let tail = (if rec then EncodeFixed32 (ucast num) else []) in
      EncodeFixed32 (Mask (crc32c 0 (ucast t # tail @ data))) @
      [of_nat (length data), of_nat (length data div 256), ucast t] @ tail)"

definition pad_len :: "bool \<Rightarrow> nat \<Rightarrow> nat" where
  "pad_len rec off = (if kBlockSize - off < hsize rec then kBlockSize - off else 0)"

definition start_off :: "bool \<Rightarrow> nat \<Rightarrow> nat" where
  "start_off rec off = (if kBlockSize - off < hsize rec then 0 else off)"

definition frag_len :: "bool \<Rightarrow> nat \<Rightarrow> bytes \<Rightarrow> nat" where
  "frag_len rec off ptr = min (length ptr) (kBlockSize - start_off rec off - hsize rec)"

definition frag_type :: "bool \<Rightarrow> nat \<Rightarrow> bool \<Rightarrow> bytes \<Rightarrow> u32" where
  "frag_type rec off first ptr = fragment_type rec first (length ptr = frag_len rec off ptr)"

definition frag :: "bool \<Rightarrow> u64 \<Rightarrow> nat \<Rightarrow> bool \<Rightarrow> bytes \<Rightarrow> bytes" where
  "frag rec num off first ptr =
     (let data = take (frag_len rec off ptr) ptr in header rec num (frag_type rec off first ptr) data @ data)"

definition next_off :: "bool \<Rightarrow> nat \<Rightarrow> bytes \<Rightarrow> nat" where
  "next_off rec off ptr = start_off rec off + hsize rec + frag_len rec off ptr"

lemmas frag_defs = pad_len_def start_off_def frag_len_def next_off_def hsize_def log_sizes_defs

lemma frag_len_le: "frag_len rec off ptr \<le> length ptr"
  by (simp add: frag_len_def)

lemma next_off_le: "next_off rec off ptr \<le> kBlockSize"
  by (auto simp: frag_defs)

lemma next_off_full: "frag_len rec off ptr < length ptr \<Longrightarrow> next_off rec off ptr = kBlockSize"
  by (auto simp: frag_defs split: if_splits)

lemma frag_len_pos: "off = kBlockSize \<Longrightarrow> ptr \<noteq> [] \<Longrightarrow> 0 < frag_len rec off ptr"
  by (simp add: frag_defs)

lemma frag_len_block: "frag_len rec off ptr + hsize rec \<le> kBlockSize"
  by (auto simp: frag_defs)

function frag_stream :: "bool \<Rightarrow> u64 \<Rightarrow> nat \<Rightarrow> bool \<Rightarrow> bytes \<Rightarrow> bytes \<times> nat" where
  "frag_stream rec num off first ptr =
     (let bs = replicate (pad_len rec off) 0 @ frag rec num off first ptr;
          off' = next_off rec off ptr; n = frag_len rec off ptr
      in if n = length ptr then (bs, off')
         else case frag_stream rec num off' False (drop n ptr) of (bs', off'') \<Rightarrow> (bs @ bs', off''))"
  by pat_completeness auto

termination
proof (relation "measure (\<lambda>(rec, num, off, first, ptr). 2 * length ptr + (if off = kBlockSize then 0 else 1))", goal_cases)
  case 1
  then show ?case by simp
next
  case (2 rec num off first ptr bs off' n)
  have lt: "frag_len rec off ptr < length ptr" using 2 frag_len_le [of rec off ptr] by simp
  have "0 < frag_len rec off ptr \<or> off \<noteq> kBlockSize" using frag_len_pos [of off ptr rec] lt by (cases "ptr = []") auto
  then show ?case using 2 lt next_off_full [OF lt] by auto
qed

declare frag_stream.simps [simp del]

fun log_stream :: "bool \<Rightarrow> u64 \<Rightarrow> nat \<Rightarrow> bytes list \<Rightarrow> bytes" where
  "log_stream rec num off [] = []"
| "log_stream rec num off (r # rs) =
     (case frag_stream rec num off True r of (bs, off') \<Rightarrow> bs @ log_stream rec num off' rs)"

section \<open>The writer follows the format\<close>

lemma Extend_crc: "Extend crc bs = crc32c crc bs"
  by (simp add: Extend_def ExtendImpl_bitwise)

lemma fragment_legacy: "legacy_type (fragment_type rec a b) \<longleftrightarrow> \<not> rec"
  by (simp add: fragment_type_def legacy_type_def log_types)

lemma record_header_format:
  assumes "length data \<le> kBlockSize" and "legacy_type t \<longleftrightarrow> \<not> rec"
  shows "record_header num t data = Some (header rec num t data)"
proof -
  have "length data < 2 ^ 64" using assms(1) by (simp add: kBlockSize_def)
  from Crc32cCombine_crc32c [OF this] show ?thesis
    using assms(2) by (simp add: record_header_def header_def Let_def Extend_crc type_crc_def crc32c_append)
qed

lemma EncodeFixed32_len: "length (EncodeFixed32 v) = 4"
  by (simp add: EncodeFixed32_def)

lemma length_header: "length (header rec num t data) = hsize rec"
  by (simp add: header_def Let_def EncodeFixed32_len hsize_def log_sizes_defs)

text \<open>A writer without compression in a block.\<close>

definition plain_writer :: "bool \<Rightarrow> u64 \<Rightarrow> nat \<Rightarrow> 'c log_writer \<Rightarrow> bool" where
  "plain_writer rec num off w \<longleftrightarrow>
     compress w = None \<and> recycle_log_files w = rec \<and> log_number w = num \<and> block_offset w = off \<and> off \<le> kBlockSize"

definition plain_adding :: "bool \<Rightarrow> bytes \<Rightarrow> adding" where
  "plain_adding first ptr = \<lparr> ad_ptr = ptr, ad_begin = first, ad_remaining = 0, ad_start = False \<rparr>"

lemma plain_adding_simps [simp]:
  "ad_ptr (plain_adding first ptr) = ptr" "ad_begin (plain_adding first ptr) = first"
  "ad_remaining (plain_adding first ptr) = 0" "ad_start (plain_adding first ptr) = False"
  by (simp_all add: plain_adding_def)

lemma switch_block_plain:
  assumes "plain_writer rec num off w" and "dest_law df content"
  obtains s w1 d1 where "switch_block df w d = (s, w1, d1)"
    and "ok s \<Longrightarrow> plain_writer rec num (start_off rec off) w1 \<and> content d1 = content d @ replicate (pad_len rec off) 0"
    and "\<not> ok s \<Longrightarrow> plain_writer rec num off w1" and "manual_flush w1 = manual_flush w"
proof -
  have hs: "writer_header_size w = hsize rec"
    using assms(1) by (simp add: writer_header_size_def hsize_def plain_writer_def)
  have off: "block_offset w = off" "off \<le> kBlockSize" using assms(1) by (simp_all add: plain_writer_def)
  obtain s d1 where A: "wf_Append df (replicate (kBlockSize - off) 0) d = (s, d1)" by (metis surj_pair)
  have law: "ok s \<Longrightarrow> content d1 = content d @ replicate (kBlockSize - off) 0"
    using assms(2) A unfolding dest_law_def by (metis fst_conv snd_conv)
  have int: "int kBlockSize - int off < int (hsize rec) \<longleftrightarrow> kBlockSize - off < hsize rec"
    "0 < int kBlockSize - int off \<longleftrightarrow> off < kBlockSize" "nat (int kBlockSize - int off) = kBlockSize - off"
    using off(2) by auto
  consider "kBlockSize - off < hsize rec" "off < kBlockSize" | "off = kBlockSize" | "\<not> kBlockSize - off < hsize rec"
    using off(2) by linarith
  then show ?thesis
  proof cases
    case 1
    then have "switch_block df w d = (if ok s then (OK, w\<lparr>block_offset := 0\<rparr>, d1) else (s, w, d1))"
      unfolding switch_block_def Let_def off(1) hs int by (simp add: A)
    then show ?thesis using that 1 law assms(1)
      by (cases "ok s") (auto simp: plain_writer_def start_off_def pad_len_def)
  next
    case 2
    then have "switch_block df w d = (OK, w\<lparr>block_offset := 0\<rparr>, d)"
      unfolding switch_block_def Let_def off(1) hs int by (simp add: hsize_def log_sizes_defs)
    then show ?thesis using that 2 assms(1)
      by (auto simp: plain_writer_def start_off_def pad_len_def hsize_def log_sizes_defs)
  next
    case 3
    then have "switch_block df w d = (OK, w, d)"
      unfolding switch_block_def Let_def off(1) hs int by simp
    then show ?thesis using that 3 assms(1) by (auto simp: plain_writer_def start_off_def pad_len_def)
  qed
qed


lemma compress_step_plain:
  "compress w = None \<Longrightarrow> compress_step cp payload a w = (OK, True, a, w)"
  by (simp add: compress_step_def)

lemma EmitPhysicalRecord_plain:
  assumes "plain_writer rec num off w" and "dest_law df content" and "legacy_type t \<longleftrightarrow> \<not> rec"
    and "off + hsize rec + length data \<le> kBlockSize"
  obtains s w1 d1 where "EmitPhysicalRecord df t data w d = Some (s, w1, d1)"
    and "plain_writer rec num (off + hsize rec + length data) w1" and "manual_flush w1 = manual_flush w"
    and "ok s \<Longrightarrow> content d1 = content d @ header rec num t data @ data"
proof -
  let ?h = "header rec num t data" and ?w = "w\<lparr>block_offset := off + hsize rec + length data\<rparr>"
  obtain s1 d1 where 1: "wf_Append df ?h d = (s1, d1)" by (metis surj_pair)
  obtain s2 d2 where 2: "wf_Append df data d1 = (s2, d2)" by (metis surj_pair)
  have law: "ok s1 \<Longrightarrow> content d1 = content d @ ?h" "ok s2 \<Longrightarrow> content d2 = content d1 @ data"
    using assms(2) 1 2 unfolding dest_law_def by (metis fst_conv snd_conv)+
  have "log_number w = num" "block_offset w = off" using assms(1) by (simp_all add: plain_writer_def)
  then have "EmitPhysicalRecord df t data w d = Some (if ok s1 then (s2, ?w, d2) else (s1, ?w, d1))"
    using assms(3,4) record_header_format [of data t rec num]
    by (simp add: EmitPhysicalRecord_def length_header 1 2)
  moreover have "plain_writer rec num (off + hsize rec + length data) ?w"
    using assms(1,4) by (simp add: plain_writer_def)
  ultimately show ?thesis using that law by (cases "ok s1") auto
qed

lemma AddRecord_step_plain:
  assumes "plain_writer rec num off w" and "dest_law df content"
  obtains s go a' w' d' where "AddRecord_step df cp payload (plain_adding first ptr) w d = Some (s, go, a', w', d')"
    and "\<not> go \<Longrightarrow> \<not> ok s" and "go \<Longrightarrow> a' = plain_adding False (drop (frag_len rec off ptr) ptr)"
    and "go \<Longrightarrow> plain_writer rec num (next_off rec off ptr) w'" and "manual_flush w' = manual_flush w"
    and "go \<Longrightarrow> ok s \<Longrightarrow> content d' = content d @ replicate (pad_len rec off) 0 @ frag rec num off first ptr"
proof -
  obtain s1 w1 d1 where sw: "switch_block df w d = (s1, w1, d1)"
    and ok1: "ok s1 \<Longrightarrow> plain_writer rec num (start_off rec off) w1 \<and> content d1 = content d @ replicate (pad_len rec off) 0"
    and mf: "manual_flush w1 = manual_flush w"
    by (rule switch_block_plain [OF assms, of d]) (rule that)
  show ?thesis
  proof (cases "ok s1")
    case False
    then have "AddRecord_step df cp payload (plain_adding first ptr) w d = Some (s1, False, plain_adding first ptr, w1, d1)"
      by (simp add: AddRecord_step_def sw)
    then show ?thesis by (rule that) (use False mf in simp_all)
  next
    case True
    let ?n = "frag_len rec off ptr" and ?t = "frag_type rec off first ptr"
    have pw: "plain_writer rec num (start_off rec off) w1" and c1: "content d1 = content d @ replicate (pad_len rec off) 0"
      using ok1 [OF True] by simp_all
    have len: "length (take ?n ptr) = ?n" using frag_len_le [of rec off ptr] by simp
    have fits: "start_off rec off + hsize rec + length (take ?n ptr) \<le> kBlockSize"
      unfolding len using next_off_le [of rec off ptr] by (simp add: next_off_def)
    have leg: "legacy_type ?t \<longleftrightarrow> \<not> rec" by (simp add: frag_type_def fragment_legacy)
    obtain s2 w2 d2 where emit: "EmitPhysicalRecord df ?t (take ?n ptr) w1 d1 = Some (s2, w2, d2)"
      and pw2: "plain_writer rec num (start_off rec off + hsize rec + length (take ?n ptr)) w2"
      and mf2: "manual_flush w2 = manual_flush w1"
      and c2: "ok s2 \<Longrightarrow> content d2 = content d1 @ header rec num ?t (take ?n ptr) @ take ?n ptr"
      by (rule EmitPhysicalRecord_plain [OF pw assms(2) leg fits, of d1]) (rule that)
    have w1: "compress w1 = None" "recycle_log_files w1 = rec" "block_offset w1 = start_off rec off"
      "writer_header_size w1 = hsize rec"
      using pw by (simp_all add: plain_writer_def writer_header_size_def hsize_def)
    have "AddRecord_step df cp payload (plain_adding first ptr) w d
        = Some (s2, True, plain_adding False (drop ?n ptr), w2, d2)"
      unfolding AddRecord_step_def sw using True emit
      by (cases "length ptr < kBlockSize - start_off rec off - hsize rec")
        (simp_all add: compress_step_plain w1 plain_adding_def Let_def frag_len_def frag_type_def)
    then show ?thesis
      by (rule that) (use pw2 [unfolded len] mf mf2 c1 c2 in \<open>simp_all add: next_off_def frag_def Let_def\<close>)
  qed
qed

lemma AddRecord_loop_plain:
  assumes "plain_writer rec num off w" and "dest_law df content"
  shows "\<exists>s w' d'. AddRecord_loop df cp payload (plain_adding first ptr) w d = Some (s, w', d') \<and>
    (ok s \<longrightarrow> plain_writer rec num (snd (frag_stream rec num off first ptr)) w' \<and> manual_flush w' = manual_flush w \<and>
       content d' = content d @ fst (frag_stream rec num off first ptr))"
  using assms(1)
proof (induction rec num off first ptr arbitrary: w d rule: frag_stream.induct)
  case (1 rec num off first ptr)
  let ?n = "frag_len rec off ptr" and ?bs = "replicate (pad_len rec off) 0 @ frag rec num off first ptr"
  obtain s go a' w' d' where step: "AddRecord_step df cp payload (plain_adding first ptr) w d = Some (s, go, a', w', d')"
    and stop: "\<not> go \<Longrightarrow> \<not> ok s" and a': "go \<Longrightarrow> a' = plain_adding False (drop ?n ptr)"
    and pw: "go \<Longrightarrow> plain_writer rec num (next_off rec off ptr) w'" and mf: "manual_flush w' = manual_flush w"
    and c: "go \<Longrightarrow> ok s \<Longrightarrow> content d' = content d @ ?bs"
    by (rule AddRecord_step_plain [OF 1(2) assms(2), of cp payload first ptr d]) (rule that)
  note loop = AddRecord_loop.simps [of df cp payload "plain_adding first ptr" w d]
  show ?case
  proof (cases "go \<and> ok s")
    case False
    then have "AddRecord_loop df cp payload (plain_adding first ptr) w d = Some (s, w', d')" "\<not> ok s"
      using stop by (auto simp: loop step)
    then show ?thesis by simp
  next
    case True
    note go = a' [OF conjunct1 [OF True]] pw [OF conjunct1 [OF True]]
    show ?thesis
    proof (cases "?n = length ptr")
      case whole: True
      have "AddRecord_loop df cp payload (plain_adding first ptr) w d = Some (s, w', d')"
        using True whole by (simp add: loop step go(1))
      moreover have "frag_stream rec num off first ptr = (?bs, next_off rec off ptr)"
        using whole by (simp add: frag_stream.simps [of rec num off first ptr] Let_def)
      ultimately show ?thesis using True go(2) c mf by simp
    next
      case more: False
      then have ne: "drop ?n ptr \<noteq> []" using frag_len_le [of rec off ptr] by simp
      obtain s2 w2 d2 where rest: "AddRecord_loop df cp payload (plain_adding False (drop ?n ptr)) w' d' = Some (s2, w2, d2)"
        and spec: "ok s2 \<longrightarrow> plain_writer rec num (snd (frag_stream rec num (next_off rec off ptr) False (drop ?n ptr))) w2 \<and>
          manual_flush w2 = manual_flush w' \<and>
          content d2 = content d' @ fst (frag_stream rec num (next_off rec off ptr) False (drop ?n ptr))"
        using 1(1) [OF refl refl refl more go(2), of d'] by (elim exE conjE) (rule that)
      have "AddRecord_loop df cp payload (plain_adding first ptr) w d = Some (s2, w2, d2)"
        using True rest ne by (simp add: loop step go(1))
      moreover have "frag_stream rec num off first ptr =
          (?bs @ fst (frag_stream rec num (next_off rec off ptr) False (drop ?n ptr)),
           snd (frag_stream rec num (next_off rec off ptr) False (drop ?n ptr)))"
        using more by (simp add: frag_stream.simps [of rec num off first ptr] Let_def case_prod_beta)
      ultimately show ?thesis using spec c True mf by simp
    qed
  qed
qed

lemma Writer_AddRecord_plain:
  assumes "plain_writer rec num off w" and "dest_law df content"
  obtains s w' d' where "Writer_AddRecord df cp payload w d = Some (s, w', d')"
    and "ok s \<Longrightarrow> plain_writer rec num (snd (frag_stream rec num off True payload)) w'"
    and "ok s \<Longrightarrow> content d' = content d @ fst (frag_stream rec num off True payload)"
proof -
  have c: "compress w = None" "w\<lparr>compress := None\<rparr> = w" using assms(1) by (simp_all add: plain_writer_def)
  obtain s1 w1 d1 where run: "AddRecord_loop df cp payload (plain_adding True payload) w d = Some (s1, w1, d1)"
    and spec: "ok s1 \<longrightarrow> plain_writer rec num (snd (frag_stream rec num off True payload)) w1 \<and>
      manual_flush w1 = manual_flush w \<and> content d1 = content d @ fst (frag_stream rec num off True payload)"
    using AddRecord_loop_plain [OF assms, of cp payload True payload d] by (elim exE conjE) (rule that)
  obtain s2 d2 where fl: "wf_Flush df d1 = (s2, d2)" by (metis surj_pair)
  have law: "ok s2 \<Longrightarrow> content d2 = content d1" using assms(2) fl unfolding dest_law_def by (metis fst_conv snd_conv)
  have "Writer_AddRecord df cp payload w d = Some (if ok s1 \<and> \<not> manual_flush w1 then (s2, w1, d2) else (s1, w1, d1))"
    unfolding Writer_AddRecord_def Let_def using run by (simp add: plain_adding_def fl c)
  then show ?thesis using that spec law by (cases "ok s1 \<and> \<not> manual_flush w1") auto
qed

lemma add_records_plain:
  assumes "dest_law df content"
  shows "plain_writer rec num off w \<Longrightarrow> add_records df cp recs w d = Some (w', d') \<Longrightarrow>
    content d' = content d @ log_stream rec num off recs"
proof (induction recs arbitrary: off w d)
  case (Cons r recs)
  obtain s w1 d1 where run: "Writer_AddRecord df cp r w d = Some (s, w1, d1)"
    and pw: "ok s \<Longrightarrow> plain_writer rec num (snd (frag_stream rec num off True r)) w1"
    and c: "ok s \<Longrightarrow> content d1 = content d @ fst (frag_stream rec num off True r)"
    by (rule Writer_AddRecord_plain [OF Cons.prems(1) assms, of cp r d]) (rule that)
  have "ok s" "add_records df cp recs w1 d1 = Some (w', d')" using Cons.prems(2) run by (auto split: if_splits)
  from Cons.IH [OF pw this(2)] c this(1) show ?case by (simp add: case_prod_beta)
qed simp


section \<open>The reader follows the format\<close>

text \<open>
  The reader at offset \<open>off\<close> of a block, with the bytes \<open>S\<close> of the log in front of it: the rest of the
  block is in its buffer and what comes after it is still in the file. At the end of a block the buffer
  is empty.
\<close>

definition reader_pos :: "('f \<Rightarrow> bytes) \<Rightarrow> u64 \<Rightarrow> nat \<Rightarrow> bytes \<Rightarrow> 'u log_reader \<Rightarrow> 'f \<Rightarrow> bool" where
  "reader_pos rest num off S r f \<longleftrightarrow>
     off \<le> kBlockSize \<and> rr_buffer r = take (kBlockSize - off) S \<and> rest f = drop (kBlockSize - off) S \<and>
     \<not> rr_read_error r \<and> (rr_eof r \<longleftrightarrow> length S < kBlockSize - off) \<and>
     rr_uncompress r = None \<and> rr_log_number r = num"

lemma four_prefix:
  assumes "length xs = 4"
  shows "(xs @ a # b # c # ys) ! 4 = a" "(xs @ a # b # c # ys) ! 5 = b" "(xs @ a # b # c # ys) ! 6 = c"
    "drop 6 (xs @ a # b # c # ys) = c # ys" "drop 7 (xs @ a # b # c # ys) = ys"
  using assms by (simp_all add: nth_append)

lemma ReadMore_block:
  assumes law: "seq_law sf rest" and at: "reader_pos rest num off (pad @ S) r f" and pad: "length pad = kBlockSize - off"
  obtains r1 f1 where "ReadMore sf n e r f = (True, n, e, r1, f1)"
    and "reader_pos rest num 0 S r1 f1" and "rr_reports r1 = rr_reports r"
proof -
  have eof: "\<not> rr_eof r" "\<not> rr_read_error r" "rest f = S" using at pad by (simp_all add: reader_pos_def)
  obtain s bs f1 where rd: "sf_Read sf kBlockSize f = (s, bs, f1)" by (metis surj_pair)
  have "s = OK" "bs = take kBlockSize S" "rest f1 = drop kBlockSize S"
    using law rd eof(3) unfolding seq_law_def by (metis fst_conv snd_conv)+
  note rd = rd [unfolded this(1,2)] and f1 = this(3)
  let ?r = "r\<lparr>rr_buffer := take kBlockSize S,
      rr_end_of_buffer_offset := rr_end_of_buffer_offset r + of_nat (length (take kBlockSize S))\<rparr>"
  let ?r1 = "if length S < kBlockSize then ?r\<lparr>rr_eof := True, rr_eof_offset := length S\<rparr> else ?r"
  have "ReadMore sf n e r f = (True, n, e, ?r1, f1)"
    using eof by (simp add: ReadMore_def rd Let_def)
  moreover have "reader_pos rest num 0 S ?r1 f1" using at eof f1 by (simp add: reader_pos_def)
  moreover have "rr_reports ?r1 = rr_reports r" by simp
  ultimately show ?thesis by (rule that)
qed

text \<open>A trailer that cannot hold a header is skipped; a longer one is a record of type zero.\<close>

lemma physical_skip:
  assumes law: "seq_law sf rest" and at: "reader_pos rest num off (pad @ S) r f"
    and pad: "length pad = kBlockSize - off" "length pad < kHeaderSize"
  obtains r1 f1 where "ReadPhysicalRecord_loop sf dc n r f = ReadPhysicalRecord_loop sf dc n r1 f1"
    and "reader_pos rest num 0 S r1 f1" and "rr_reports r1 = rr_reports r"
proof -
  have b: "rr_buffer r = pad" using at pad(1) by (simp add: reader_pos_def)
  obtain r1 f1 where more: "ReadMore sf n kEof r f = (True, n, kEof, r1, f1)"
    and r1: "reader_pos rest num 0 S r1 f1" "rr_reports r1 = rr_reports r"
    by (rule ReadMore_block [OF law at pad(1)]) (rule that)
  have "ReadPhysicalRecord_loop sf dc n r f = ReadPhysicalRecord_loop sf dc n r1 f1"
    using pad(2) by (simp add: ReadPhysicalRecord_loop.simps [of sf dc n r f] physical_step_def b more)
  then show ?thesis using r1 by (rule that)
qed

lemma physical_zero_trailer:
  assumes at: "reader_pos rest num off (replicate (kBlockSize - off) 0 @ S) r f" and pad: "kHeaderSize \<le> kBlockSize - off"
  obtains r1 where "ReadPhysicalRecord_loop sf dc n r f = Some (kBadRecord, [], n, r1, f)"
    and "reader_pos rest num kBlockSize S r1 f" and "rr_reports r1 = rr_reports r"
proof -
  have b: "rr_buffer r = replicate (kBlockSize - off) 0" using at by (simp add: reader_pos_def)
  have nth: "rr_buffer r ! k = 0" if "k < 7" for k using that pad by (simp add: b kHeaderSize_def)
  have ty: "header_type (rr_buffer r) = 0" by (simp add: header_type_def nth)
  have len: "header_length (rr_buffer r) = 0" by (simp add: header_length_def nth)
  have "\<not> recyclable_type 0" by (simp add: recyclable_type_def log_types)
  then have "ReadPhysicalRecord_loop sf dc n r f = Some (kBadRecord, [], n, r\<lparr>rr_buffer := []\<rparr>, f)"
    using pad
    by (simp add: ReadPhysicalRecord_loop.simps [of sf dc n r f] physical_step_def ty len Let_def kZeroType_def)
       (simp add: b)
  moreover have "reader_pos rest num kBlockSize S (r\<lparr>rr_buffer := []\<rparr>) f" using at by (simp add: reader_pos_def)
  ultimately show ?thesis by (rule that) simp
qed

text \<open>The types of the fragments of records.\<close>

lemma fragment_recyclable: "recyclable_type (fragment_type rec a b) \<longleftrightarrow> rec"
  by (simp add: fragment_type_def recyclable_type_def log_types word_le_nat_alt)

lemma fragment_type_byte: "scast (ucast (fragment_type rec a b) :: byte) = fragment_type rec a b"
  by (simp add: fragment_type_def log_types)

lemma fragment_type_nonzero: "fragment_type rec a b \<noteq> kZeroType"
  by (simp add: fragment_type_def log_types)

lemma length_bytes:
  assumes "n < 65536"
  shows "unat (ucast (of_nat n :: byte) OR push_bit 8 (ucast (of_nat (n div 256) :: byte)) :: u32) = n"
proof -
  have "(ucast (of_nat n :: byte) OR push_bit 8 (ucast (of_nat (n div 256) :: byte)) :: u32) = of_nat n"
  proof (rule bit_word_eqI)
    fix k assume "k < LENGTH(32)"
    have hi: "k < 16" if "bit n k"
    proof (rule ccontr)
      assume "\<not> k < 16"
      then have "n < 2 ^ k" using assms power_increasing [of 16 k "2::nat"] by simp
      then show False using that by (simp add: bit_iff_odd)
    qed
    have div: "n div 256 = drop_bit 8 n" by (simp add: drop_bit_eq_div)
    show "bit (ucast (of_nat n :: byte) OR push_bit 8 (ucast (of_nat (n div 256) :: byte)) :: u32) k \<longleftrightarrow> bit (of_nat n :: u32) k"
      using \<open>k < LENGTH(32)\<close> hi
      by (auto simp: div bit_simps not_less)
  qed
  moreover have "unat (of_nat n :: u32) = n" by (rule unat_of_nat_small) (use assms in simp)
  ultimately show ?thesis by simp
qed

lemma header_shape:
  "header rec num t data @ X =
     EncodeFixed32 (Mask (crc32c 0 (ucast t # (if rec then EncodeFixed32 (ucast num) else []) @ data))) @
     of_nat (length data) # of_nat (length data div 256) # ucast t # (if rec then EncodeFixed32 (ucast num) else []) @ X"
  by (simp add: header_def Let_def)

lemma header_fields:
  assumes "length data < 65536" and t: "t = fragment_type rec a b"
  shows "header_type (header rec num t data @ X) = t" "header_length (header rec num t data @ X) = length data"
    "rec \<Longrightarrow> DecodeFixed32 (drop 7 (header rec num t data @ X)) = ucast num"
    "Unmask (DecodeFixed32 (header rec num t data @ data @ X)) = crc32c 0 (take (length data + hsize rec - 6) (drop 6 (header rec num t data @ data @ X)))"
proof -
  note fp = four_prefix [OF EncodeFixed32_len]
  show "header_type (header rec num t data @ X) = t"
    unfolding header_shape header_type_def fp t by (rule fragment_type_byte)
  show "header_length (header rec num t data @ X) = length data"
    unfolding header_shape header_length_def fp by (rule length_bytes [OF assms(1)])
  show "DecodeFixed32 (drop 7 (header rec num t data @ X)) = ucast num" if rec
    unfolding header_shape fp using that by (simp add: DecodeFixed32_Encode)
  have "take (length data + hsize rec - 6) (drop 6 (header rec num t data @ data @ X))
      = ucast t # (if rec then EncodeFixed32 (ucast num) else []) @ data"
    unfolding header_shape fp by (simp add: hsize_def log_sizes_defs EncodeFixed32_len take_Cons')
  then show "Unmask (DecodeFixed32 (header rec num t data @ data @ X))
      = crc32c 0 (take (length data + hsize rec - 6) (drop 6 (header rec num t data @ data @ X)))"
    by (simp only: header_shape DecodeFixed32_Encode Unmask_Mask)
qed

lemma take_fragment_plain:
  assumes "rr_buffer r = h @ data @ X" and "length h = hs" and "rr_uncompress r = None"
  shows "take_fragment dc t hs (length data) r = Some (t, data, r\<lparr>rr_buffer := X\<rparr>)"
  using assms by (simp add: take_fragment_def)

lemma physical_step_good:
  assumes "rr_buffer r = B" and "header_type B = t" and "header_length B = n" and "recyclable_type t = rec"
    and "hsize rec + n \<le> length B" and "t \<noteq> kZeroType"
    and "rec \<Longrightarrow> ucast (DecodeFixed32 (drop 7 B)) = rr_log_number r"
    and "Unmask (DecodeFixed32 B) = crc32c 0 (take (n + hsize rec - 6) (drop 6 B))"
    and "take_fragment dc t (hsize rec) n
           (if rec \<and> rr_end_of_buffer_offset r - of_nat (length B) = 0 then r\<lparr>rr_recycled := True\<rparr> else r) = Some (t', data, r2)"
  shows "physical_step sf dc m r f = Some (False, t', data, m, r2, f)"
  using assms unfolding physical_step_def Let_def
  by (cases rec) (auto simp: Extend_crc hsize_def log_sizes_defs)

lemma physical_step_old:
  assumes "rr_buffer r = B" and "header_type B = t" and "recyclable_type t" and "kRecyclableHeaderSize \<le> length B"
    and "ucast (DecodeFixed32 (drop 7 B)) \<noteq> rr_log_number r"
  shows "\<exists>r'. physical_step sf dc m r f = Some (False, kOldRecord, [], m, r', f) \<and> rr_reports r' = rr_reports r"
  using assms unfolding physical_step_def Let_def by (simp add: log_sizes_defs)

lemma physical_fragment:
  assumes at: "reader_pos rest num off (header rec num t data @ data @ S) r f" and t: "t = fragment_type rec a b"
    and fits: "off + hsize rec + length data \<le> kBlockSize" and num: "num < 2 ^ 32"
  obtains r1 where "ReadPhysicalRecord_loop sf dc n r f = Some (t, data, n, r1, f)"
    and "reader_pos rest num (off + hsize rec + length data) S r1 f" and "rr_reports r1 = rr_reports r"
proof -
  let ?X = "take (kBlockSize - off - hsize rec - length data) S" and ?len = "length data"
  let ?B = "header rec num t data @ data @ ?X"
  define r1 where "r1 = (if rec \<and> rr_end_of_buffer_offset r - of_nat (length ?B) = 0 then r\<lparr>rr_recycled := True\<rparr> else r)"
  let ?r2 = "r1\<lparr>rr_buffer := ?X\<rparr>"
  have small: "?len < 65536" using fits by (simp add: kBlockSize_def)
  have b: "rr_buffer r = ?B" using at fits by (simp add: reader_pos_def length_header)
  have r1: "rr_buffer r1 = ?B" "rr_log_number r1 = num" "rr_uncompress r1 = None"
    using at b by (simp_all add: reader_pos_def r1_def)
  have num': "ucast (ucast num :: u32) = num"
  proof -
    have "unat num < 2 ^ 32" using num by (simp add: word_less_nat_alt)
    then show ?thesis by (simp add: word_unat_eq_iff unsigned_ucast_eq unsigned_take_bit_eq take_bit_nat_eq_self)
  qed
  note fields = header_fields(1,2) [OF small t, of num "data @ ?X"] header_fields(3) [OF small t, of num "data @ ?X"]
    header_fields(4) [OF small t, of num ?X]
  have tf: "take_fragment dc t (hsize rec) ?len r1 = Some (t, data, ?r2)"
    by (rule take_fragment_plain [OF r1(1) length_header r1(3)])
  have rec: "recyclable_type t \<longleftrightarrow> rec" by (simp add: t fragment_recyclable)
  have nz: "t \<noteq> kZeroType" unfolding t by (rule fragment_type_nonzero)
  have "physical_step sf dc n r f = Some (False, t, data, n, ?r2, f)"
  proof (rule physical_step_good [OF b fields(1,2) rec _ nz _ fields(4)])
    show "hsize rec + ?len \<le> length ?B" by (simp add: length_header)
    show "ucast (DecodeFixed32 (drop 7 ?B)) = rr_log_number r" if rec
      using at fields(3) [OF that] num' by (simp add: reader_pos_def)
  qed (unfold r1_def [symmetric], rule tf)
  then have "ReadPhysicalRecord_loop sf dc n r f = Some (t, data, n, ?r2, f)"
    by (simp add: ReadPhysicalRecord_loop.simps [of sf dc n r f])
  moreover have "reader_pos rest num (off + hsize rec + ?len) S ?r2 f"
    using at fits by (auto simp: reader_pos_def r1_def length_header diff_diff_eq)
  moreover have "rr_reports ?r2 = rr_reports r" by (simp add: r1_def)
  ultimately show ?thesis by (rule that)
qed

lemma ReadRecord_loop_next:
  assumes "ReadPhysicalRecord_loop sf dc 0 r f = Some (t, data, n, r1, f1)"
  shows "ReadRecord_loop sf dc mode g r f =
    (case ReadRecord_step dc mode (rr_end_of_buffer_offset r - of_nat (length (rr_buffer r))) t data n g r1 of
       Inl y \<Rightarrow> ReadRecord_loop sf dc mode (fst y) (snd y) f1
     | Inr y \<Rightarrow> Some (fst y, snd y, f1))"
  using assms by (simp add: ReadRecord_loop.simps [of sf dc mode g r f] ReadPhysicalRecord_def split: sum.split)

text \<open>
  One fragment: after the trailer in front of it, if there is one, the loop of \<^verbatim>\<open>ReadRecord\<close> comes to
  the fragment with the state as it was.
\<close>

lemma ReadRecord_fragment:
  assumes law: "seq_law sf rest" and num: "num < 2 ^ 32"
    and at: "reader_pos rest num off (replicate (pad_len rec off) 0 @ frag rec num off first ptr @ S) r f"
    and g: "ga_in_fragmented_record g \<Longrightarrow> off = kBlockSize"
  obtains pos rx fx where
    "ReadRecord_loop sf dc mode g r f =
       (case ReadRecord_step dc mode pos (frag_type rec off first ptr) (take (frag_len rec off ptr) ptr) 0 g rx of
          Inl y \<Rightarrow> ReadRecord_loop sf dc mode (fst y) (snd y) fx
        | Inr y \<Rightarrow> Some (fst y, snd y, fx))"
    and "reader_pos rest num (next_off rec off ptr) S rx fx" and "rr_reports rx = rr_reports r"
proof -
  note res = that
  let ?t = "frag_type rec off first ptr" and ?data = "take (frag_len rec off ptr) ptr"
  let ?F = "header rec num ?t ?data @ ?data @ S"
  have F: "frag rec num off first ptr @ S = ?F" by (simp add: frag_def Let_def)
  have t: "?t = fragment_type rec first (length ptr = frag_len rec off ptr)" by (simp add: frag_type_def)
  have len: "length ?data = frag_len rec off ptr" using frag_len_le [of rec off ptr] by simp
  have fits: "start_off rec off + hsize rec + length ?data \<le> kBlockSize"
    unfolding len using next_off_le [of rec off ptr] by (simp add: next_off_def)
  have nxt: "start_off rec off + hsize rec + length ?data = next_off rec off ptr" unfolding len by (simp add: next_off_def)
  have le: "off \<le> kBlockSize" using at by (simp add: reader_pos_def)
  have direct: thesis
    if at': "reader_pos rest num (start_off rec off) ?F r' f'" and reports: "rr_reports r' = rr_reports r"
      and run: "ReadRecord_loop sf dc mode g r f = ReadRecord_loop sf dc mode g r'' f''"
      and phys: "ReadPhysicalRecord_loop sf dc 0 r'' f'' = ReadPhysicalRecord_loop sf dc 0 r' f'" for r' f' r'' f''
  proof -
    obtain r1 where "ReadPhysicalRecord_loop sf dc 0 r' f' = Some (?t, ?data, 0, r1, f')"
      and "reader_pos rest num (next_off rec off ptr) S r1 f'" "rr_reports r1 = rr_reports r'"
      by (rule physical_fragment [OF at' t fits num, unfolded nxt]) (rule that)
    then show thesis
      using reports ReadRecord_loop_next [of sf dc r'' f'' ?t ?data 0 r1 f' mode g]
      by (intro res [where pos = "rr_end_of_buffer_offset r'' - of_nat (length (rr_buffer r''))" and rx = r1 and fx = f'])
        (simp_all add: run phys)
  qed
  have skip: thesis
    if at': "reader_pos rest num off' (replicate (kBlockSize - off') 0 @ ?F) r' f'" and short: "kBlockSize - off' < kHeaderSize"
      and so: "start_off rec off = 0" and reports: "rr_reports r' = rr_reports r"
      and run: "ReadRecord_loop sf dc mode g r f = ReadRecord_loop sf dc mode g r' f'" for off' r' f'
  proof -
    obtain r1 f1 where "ReadPhysicalRecord_loop sf dc 0 r' f' = ReadPhysicalRecord_loop sf dc 0 r1 f1"
      and "reader_pos rest num 0 ?F r1 f1" "rr_reports r1 = rr_reports r'"
      by (rule physical_skip [OF law at']) (use short in simp, simp add: short, rule that)
    then show thesis using direct [of r1 f1 r' f'] so reports run by simp
  qed
  consider "\<not> kBlockSize - off < hsize rec" | "kBlockSize - off < hsize rec" "kBlockSize - off < kHeaderSize"
    | "kBlockSize - off < hsize rec" "kHeaderSize \<le> kBlockSize - off" by linarith
  then show thesis
  proof cases
    case 1
    then show thesis using direct [of r f r f] at F by (simp add: pad_len_def start_off_def)
  next
    case 2
    then show thesis using skip [of off r f] at F by (simp add: pad_len_def start_off_def)
  next
    case 3
    then have "off \<noteq> kBlockSize" by (auto simp: kHeaderSize_def)
    then have out: "\<not> ga_in_fragmented_record g" using g by blast
    have at2: "reader_pos rest num off (replicate (kBlockSize - off) 0 @ ?F) r f" using at F 3 by (simp add: pad_len_def)
    obtain r1 where bad: "ReadPhysicalRecord_loop sf dc 0 r f = Some (kBadRecord, [], 0, r1, f)"
      and r1: "reader_pos rest num kBlockSize ?F r1 f" "rr_reports r1 = rr_reports r"
      by (rule physical_zero_trailer [OF at2 3(2)]) (rule that)
    have "ReadRecord_loop sf dc mode g r f = ReadRecord_loop sf dc mode g r1 f"
      using out by (simp add: ReadRecord_loop_next [OF bad] ReadRecord_step_def read_types log_types drop_partial_def)
    then show thesis using skip [of kBlockSize r1 f] r1 3 by (simp add: start_off_def kHeaderSize_def)
  qed
qed

text \<open>Steps of \<^verbatim>\<open>ReadRecord\<close> on the fragments of a record.\<close>

lemma ReadRecord_step_first:
  assumes "\<not> ga_in_fragmented_record g"
  shows "ReadRecord_step dc mode pos (fragment_type rec True True) data n g r
       = Inr (Some data, r\<lparr>rr_last_record_offset := pos, rr_first_record_read := True\<rparr>)"
    and "ReadRecord_step dc mode pos (fragment_type rec True False) data n g r
       = Inl (g\<lparr>ga_offset := pos, ga_scratch := data, ga_in_fragmented_record := True\<rparr>, r)"
  using assms by (simp_all add: ReadRecord_step_def fragment_type_def log_types report_partial_def)

lemma ReadRecord_step_next:
  assumes "ga_in_fragmented_record g"
  shows "ReadRecord_step dc mode pos (fragment_type rec False True) data n g r
       = Inr (Some (ga_scratch g @ data), r\<lparr>rr_last_record_offset := ga_offset g, rr_first_record_read := True\<rparr>)"
    and "ReadRecord_step dc mode pos (fragment_type rec False False) data n g r
       = Inl (g\<lparr>ga_scratch := ga_scratch g @ data\<rparr>, r)"
  using assms by (simp_all add: ReadRecord_step_def fragment_type_def log_types)

definition gathered :: "bool \<Rightarrow> gathering \<Rightarrow> bytes" where
  "gathered first g = (if first then [] else ga_scratch g)"

lemma reader_pos_offsets [simp]:
  "reader_pos rest num off S (r\<lparr>rr_last_record_offset := p, rr_first_record_read := b\<rparr>) f \<longleftrightarrow> reader_pos rest num off S r f"
  by (simp add: reader_pos_def)

lemma ReadRecord_step_end:
  assumes "ga_in_fragmented_record g \<longleftrightarrow> \<not> first"
  obtains p where "ReadRecord_step dc mode pos (fragment_type rec first True) data n g r
    = Inr (Some (gathered first g @ data), r\<lparr>rr_last_record_offset := p, rr_first_record_read := True\<rparr>)"
  using assms that by (cases first) (simp_all add: ReadRecord_step_first ReadRecord_step_next gathered_def)

lemma ReadRecord_step_more:
  assumes "ga_in_fragmented_record g \<longleftrightarrow> \<not> first"
  obtains g' where "ReadRecord_step dc mode pos (fragment_type rec first False) data n g r = Inl (g', r)"
    and "ga_in_fragmented_record g'" and "ga_scratch g' = gathered first g @ data"
  using assms that by (cases first) (simp_all add: ReadRecord_step_first ReadRecord_step_next gathered_def)

lemma ReadRecord_loop_plain:
  assumes law: "seq_law sf rest" and num: "num < 2 ^ 32"
    and "reader_pos rest num off (fst (frag_stream rec num off first ptr) @ S) r f"
    and "ga_in_fragmented_record g \<longleftrightarrow> \<not> first" and "\<not> first \<Longrightarrow> off = kBlockSize"
  shows "\<exists>r' f'. ReadRecord_loop sf dc mode g r f = Some (Some (gathered first g @ ptr), r', f') \<and>
    reader_pos rest num (snd (frag_stream rec num off first ptr)) S r' f' \<and> rr_reports r' = rr_reports r"
  using num assms(3-)
proof (induction rec num off first ptr arbitrary: r f g rule: frag_stream.induct)
  case (1 rec num off first ptr)
  let ?n = "frag_len rec off ptr" and ?off = "next_off rec off ptr"
  let ?rest = "frag_stream rec num ?off False (drop ?n ptr)"
  let ?S = "if ?n = length ptr then S else fst ?rest @ S"
  have stream: "fst (frag_stream rec num off first ptr) @ S = replicate (pad_len rec off) 0 @ frag rec num off first ptr @ ?S"
    by (simp add: frag_stream.simps [of rec num off first ptr] Let_def case_prod_beta)
  have at: "reader_pos rest num off (replicate (pad_len rec off) 0 @ frag rec num off first ptr @ ?S) r f"
    using 1(3) unfolding stream .
  have off: "off = kBlockSize" if "ga_in_fragmented_record g" using 1(4,5) that by blast
  obtain pos r1 f1 where run: "ReadRecord_loop sf dc mode g r f =
       (case ReadRecord_step dc mode pos (frag_type rec off first ptr) (take ?n ptr) 0 g r1 of
          Inl y \<Rightarrow> ReadRecord_loop sf dc mode (fst y) (snd y) f1
        | Inr y \<Rightarrow> Some (fst y, snd y, f1))"
    and r1: "reader_pos rest num ?off ?S r1 f1" "rr_reports r1 = rr_reports r"
    by (rule ReadRecord_fragment [OF law 1(2) at off, where dc = dc and mode = mode]) (assumption, rule that)
  show ?case
  proof (cases "?n = length ptr")
    case True
    then have t: "frag_type rec off first ptr = fragment_type rec first True" by (simp add: frag_type_def)
    obtain p where "ReadRecord_step dc mode pos (fragment_type rec first True) (take ?n ptr) 0 g r1
        = Inr (Some (gathered first g @ take ?n ptr), r1\<lparr>rr_last_record_offset := p, rr_first_record_read := True\<rparr>)"
      by (rule ReadRecord_step_end [OF 1(4)]) (rule that)
    then show ?thesis
      using True run r1 by (simp add: t frag_stream.simps [of rec num off first ptr] Let_def)
  next
    case False
    then have t: "frag_type rec off first ptr = fragment_type rec first False" by (auto simp: frag_type_def)
    have full: "?off = kBlockSize" by (rule next_off_full) (use False frag_len_le [of rec off ptr] in simp)
    obtain g' where step: "ReadRecord_step dc mode pos (fragment_type rec first False) (take ?n ptr) 0 g r1 = Inl (g', r1)"
      and g': "ga_in_fragmented_record g'" "ga_scratch g' = gathered first g @ take ?n ptr"
      by (rule ReadRecord_step_more [OF 1(4)]) (rule that)
    have at1: "reader_pos rest num ?off (fst ?rest @ S) r1 f1" using r1(1) False by simp
    have "\<exists>r' f'. ReadRecord_loop sf dc mode g' r1 f1 = Some (Some (gathered False g' @ drop ?n ptr), r', f') \<and>
        reader_pos rest num (snd ?rest) S r' f' \<and> rr_reports r' = rr_reports r1"
      by (rule 1(1) [OF refl refl refl False 1(2) at1]) (use g' full in simp_all)
    moreover have "gathered False g' @ drop ?n ptr = gathered first g @ ptr" by (simp add: gathered_def g')
    moreover have "ReadRecord_loop sf dc mode g r f = ReadRecord_loop sf dc mode g' r1 f1" by (simp add: run t step)
    moreover have "snd (frag_stream rec num off first ptr) = snd ?rest"
      using False by (simp add: frag_stream.simps [of rec num off first ptr] Let_def case_prod_beta)
    ultimately show ?thesis using r1(2) by simp
  qed
qed

lemma Reader_ReadRecord_plain:
  assumes "seq_law sf rest" and "num < 2 ^ 32"
    and at: "reader_pos rest num off (fst (frag_stream rec num off True ptr) @ S) r f"
  obtains r' f' where "Reader_ReadRecord sf dc mode r f = Some (Some ptr, r', f')"
    and "reader_pos rest num (snd (frag_stream rec num off True ptr)) S r' f'" and "rr_reports r' = rr_reports r"
proof -
  let ?g = "\<lparr> ga_in_fragmented_record = False, ga_scratch = [], ga_offset = 0 \<rparr>"
  have "rr_uncompress r = None" "r\<lparr>rr_uncompress := None\<rparr> = r" using at by (simp_all add: reader_pos_def)
  then have "Reader_ReadRecord sf dc mode r f = ReadRecord_loop sf dc mode ?g r f"
    unfolding Reader_ReadRecord_def by (simp add: \<open>r\<lparr>rr_uncompress := None\<rparr> = r\<close>)
  moreover have "\<exists>r' f'. ReadRecord_loop sf dc mode ?g r f = Some (Some (gathered True ?g @ ptr), r', f') \<and>
    reader_pos rest num (snd (frag_stream rec num off True ptr)) S r' f' \<and> rr_reports r' = rr_reports r"
    by (rule ReadRecord_loop_plain [OF assms]) simp_all
  ultimately show ?thesis using that by (auto simp: gathered_def)
qed

text \<open>The end of the log.\<close>

lemma physical_eof_block:
  assumes "reader_pos rest num off [] r f" and "off < kBlockSize"
  shows "ReadPhysicalRecord_loop sf dc 0 r f = Some (kEof, [], 0, r, f)"
  using assms
  by (simp add: ReadPhysicalRecord_loop.simps [of sf dc 0 r f] physical_step_def reader_pos_def ReadMore_def kHeaderSize_def)

lemma Reader_ReadRecord_end:
  assumes law: "seq_law sf rest" and at: "reader_pos rest num off [] r f"
  obtains r' f' where "Reader_ReadRecord sf dc mode r f = Some (None, r', f')" and "rr_reports r' = rr_reports r"
proof -
  let ?g = "\<lparr> ga_in_fragmented_record = False, ga_scratch = [], ga_offset = 0 \<rparr>"
  have "rr_uncompress r = None" "r\<lparr>rr_uncompress := None\<rparr> = r" using at by (simp_all add: reader_pos_def)
  then have start: "Reader_ReadRecord sf dc mode r f = ReadRecord_loop sf dc mode ?g r f"
    unfolding Reader_ReadRecord_def by (simp add: \<open>r\<lparr>rr_uncompress := None\<rparr> = r\<close>)
  obtain r1 f1 where eof: "ReadPhysicalRecord_loop sf dc 0 r f = Some (kEof, [], 0, r1, f1)" and "rr_reports r1 = rr_reports r"
  proof (cases "off < kBlockSize")
    case True
    show thesis by (rule that [OF physical_eof_block [OF at True] refl])
  next
    case False
    then have at': "reader_pos rest num off ([] @ []) r f" "length [] = kBlockSize - off" "length ([] :: bytes) < kHeaderSize"
      using at by (simp_all add: kHeaderSize_def)
    obtain r1 f1 where "ReadPhysicalRecord_loop sf dc 0 r f = ReadPhysicalRecord_loop sf dc 0 r1 f1"
      "reader_pos rest num 0 [] r1 f1" "rr_reports r1 = rr_reports r"
      by (rule physical_skip [OF law at'(1), of dc 0]) (use at'(2,3) in simp_all)
    then show thesis using that [of r1 f1] physical_eof_block [of rest num 0 r1 f1] by (simp add: kBlockSize_def)
  qed
  moreover have "ReadRecord_step dc mode pos kEof [] 0 ?g r1 = Inr (None, r1)" for pos
    by (simp add: ReadRecord_step_def read_types log_types end_of_log_def)
  ultimately show ?thesis using that start by (simp add: ReadRecord_loop_next [OF eof])
qed

lemma read_records_plain:
  assumes "seq_law sf rest" and "num < 2 ^ 32"
  shows "reader_pos rest num off (log_stream rec num off recs) r f \<Longrightarrow>
    \<exists>r' f'. read_records sf dc mode (Suc (length recs)) r f = Some (recs, r', f') \<and> rr_reports r' = rr_reports r"
proof (induction recs arbitrary: off r f)
  case Nil
  then have at: "reader_pos rest num off [] r f" by simp
  obtain r' f' where "Reader_ReadRecord sf dc mode r f = Some (None, r', f')" "rr_reports r' = rr_reports r"
    by (rule Reader_ReadRecord_end [OF assms(1) at]) (rule that)
  then show ?case by simp
next
  case (Cons p recs)
  then have at: "reader_pos rest num off (fst (frag_stream rec num off True p) @
      log_stream rec num (snd (frag_stream rec num off True p)) recs) r f"
    by (simp add: case_prod_beta)
  obtain r1 f1 where run: "Reader_ReadRecord sf dc mode r f = Some (Some p, r1, f1)" "rr_reports r1 = rr_reports r"
    and at1: "reader_pos rest num (snd (frag_stream rec num off True p))
      (log_stream rec num (snd (frag_stream rec num off True p)) recs) r1 f1"
    by (rule Reader_ReadRecord_plain [OF assms at]) (rule that)
  from Cons.IH [OF at1] show ?case using run by auto
qed

lemma frag_stream_start: "frag_stream rec num kBlockSize first ptr = frag_stream rec num 0 first ptr"
proof -
  have "pad_len rec kBlockSize = pad_len rec 0" "start_off rec kBlockSize = start_off rec 0"
    by (simp_all add: frag_defs)
  then have "frag_len rec kBlockSize ptr = frag_len rec 0 ptr" "next_off rec kBlockSize ptr = next_off rec 0 ptr"
    "frag rec num kBlockSize first ptr = frag rec num 0 first ptr" "pad_len rec kBlockSize = pad_len rec 0"
    by (simp_all add: frag_len_def next_off_def frag_def frag_type_def)
  then show ?thesis by (simp add: frag_stream.simps [of rec num _ first ptr])
qed

lemma log_stream_start: "log_stream rec num kBlockSize recs = log_stream rec num 0 recs"
  by (cases recs) (simp_all add: frag_stream_start)

lemma reader_pos_new: "reader_pos rest num kBlockSize (rest f) (newReader rep chk num) f"
  by (simp add: reader_pos_def newReader_def)

lemma newWriter_plain: "plain_writer rec num 0 (newWriter num rec flush kNoCompression)"
  by (simp add: plain_writer_def newWriter_def)

section \<open>A file that accepts everything\<close>

definition dest_accepts :: "'w dest_file \<Rightarrow> bool" where
  "dest_accepts df \<longleftrightarrow> (\<forall>bs d. fst (wf_Append df bs d) = OK) \<and> (\<forall>d. fst (wf_Flush df d) = OK)"

lemma dest_acceptsD:
  assumes "dest_accepts df"
  shows "wf_Append df bs d = (s, d') \<Longrightarrow> s = OK" "wf_Flush df d = (s, d') \<Longrightarrow> s = OK"
  using assms unfolding dest_accepts_def by (metis fst_conv)+

lemma mem_dest_accepts: "dest_accepts mem_dest"
  by (simp add: dest_accepts_def mem_dest_def)

lemma switch_block_accepts:
  "dest_accepts df \<Longrightarrow> switch_block df w d = (s, w1, d1) \<Longrightarrow> s = OK \<and> compress w1 = compress w"
  by (auto simp: switch_block_def Let_def dest_acceptsD split: if_splits prod.splits)

lemma EmitPhysicalRecord_accepts:
  "dest_accepts df \<Longrightarrow> EmitPhysicalRecord df t data w d = Some (s, w1, d1) \<Longrightarrow> s = OK \<and> compress w1 = compress w"
  by (auto simp: EmitPhysicalRecord_def dest_accepts_def bind_eq_Some_conv case_prod_beta)

lemma AddRecord_step_accepts:
  assumes "dest_accepts df" and "compress w = None" and "AddRecord_step df cp payload a w d = Some (s, go, a', w', d')"
  shows "s = OK \<and> go \<and> compress w' = None"
proof -
  obtain s1 w1 d1 where sw: "switch_block df w d = (s1, w1, d1)" by (metis surj_pair)
  have "s1 = OK" "compress w1 = None" using switch_block_accepts [OF assms(1) sw] assms(2) by simp_all
  then show ?thesis
    using assms(3) EmitPhysicalRecord_accepts [OF assms(1)]
    by (fastforce simp: AddRecord_step_def sw compress_step_plain Let_def bind_eq_Some_conv)
qed

lemma AddRecord_loop_accepts:
  assumes acc: "dest_accepts df" and run: "AddRecord_loop df cp payload a w d = Some (s, w', d')" and "compress w = None"
  shows "s = OK"
proof -
  have "df = df \<longrightarrow> compress w = None \<longrightarrow> fst y = OK"
    if "AddRecord_loop df cp payload a w d = Some y" for y
    by (rule AddRecord_loop.raw_induct [OF _ that,
          where P = "\<lambda>df' cp payload a w d y. df' = df \<longrightarrow> compress w = None \<longrightarrow> fst y = OK"])
      (auto simp: bind_eq_Some_conv Let_def split: if_splits dest: AddRecord_step_accepts [OF acc])
  from this [OF run] assms(3) show ?thesis by simp
qed

lemma Writer_AddRecord_accepts:
  assumes acc: "dest_accepts df" and "compress w = None" and run: "Writer_AddRecord df cp payload w d = Some (s, w', d')"
  shows "s = OK"
proof -
  obtain s1 w1 d1 where loop: "AddRecord_loop df cp payload
      \<lparr> ad_ptr = payload, ad_begin = True, ad_remaining = 0, ad_start = False \<rparr> (w\<lparr>compress := None\<rparr>) d = Some (s1, w1, d1)"
    using run assms(2) by (auto simp: Writer_AddRecord_def Let_def bind_eq_Some_conv)
  have "s1 = OK" by (rule AddRecord_loop_accepts [OF acc loop]) simp
  then show ?thesis
    using run assms(2) loop dest_acceptsD(2) [OF acc]
    by (auto simp: Writer_AddRecord_def Let_def split: if_splits prod.splits)
qed

lemma add_records_accepts:
  assumes "dest_accepts df" and "dest_law df content"
  shows "plain_writer rec num off w \<Longrightarrow> \<exists>w' d'. add_records df cp recs w d = Some (w', d')"
proof (induction recs arbitrary: off w d)
  case (Cons r recs)
  obtain s w1 d1 where run: "Writer_AddRecord df cp r w d = Some (s, w1, d1)"
    and pw: "ok s \<Longrightarrow> plain_writer rec num (snd (frag_stream rec num off True r)) w1"
    by (rule Writer_AddRecord_plain [OF Cons.prems assms(2), of cp r d]) (rule that)
  have "s = OK" by (rule Writer_AddRecord_accepts [OF assms(1) _ run]) (use Cons.prems in \<open>simp add: plain_writer_def\<close>)
  with Cons.IH [OF pw, of d1] run show ?case by simp
qed simp

lemma UDT_EncodeTo_length: "length (UDT_EncodeTo l dst) = length dst + 6 * length l"
  unfolding UDT_EncodeTo_def
  by (induction l arbitrary: dst) (simp_all add: case_prod_beta PutFixed32_def PutFixed16_def EncodeFixed32_def EncodeFixed16_def)

section \<open>Properties\<close>

text \<open>
  C7. Whatever records are written to a log, with or without recycling, the reader returns exactly
  these records, in the order in which they were written, then reports the end of the log, and never
  reports a corruption. This holds for every length of the records, for every recovery mode, with and
  without checking of the checksums.
\<close>

theorem log_roundtrip:
  assumes "dest_law df content" and "seq_law sf rest" and "num < 2 ^ 32" and "content d = []"
    and "add_records df cp recs (newWriter num rec flush kNoCompression) d = Some (w', d')" and "rest f = content d'"
  shows "\<exists>r' f'. read_records sf dc mode (Suc (length recs)) (newReader rep chk num) f = Some (recs, r', f') \<and> rr_reports r' = []"
proof -
  have "content d' = log_stream rec num 0 recs" using add_records_plain [OF assms(1) newWriter_plain assms(5)] assms(4) by simp
  then have "reader_pos rest num kBlockSize (log_stream rec num kBlockSize recs) (newReader rep chk num) f"
    using reader_pos_new [of rest num f rep chk] assms(6) by (simp add: log_stream_start)
  from read_records_plain [OF assms(2,3) this] show ?thesis by (simp add: newReader_def)
qed

theorem log_roundtrip_witness:
  "\<exists>w' d' r' f'.
     add_records mem_dest plain_compressor [[1, 2], [], replicate 70000 3] (newWriter 7 True False kNoCompression :: unit log_writer) []
       = Some (w', d') \<and>
     read_records mem_seq plain_decompressor kPointInTimeRecovery 4 (newReader True True 7) d'
       = Some ([[1, 2], [], replicate 70000 3], r', f') \<and> rr_reports r' = []"
proof -
  let ?recs = "[[1, 2], [], replicate 70000 3] :: bytes list" and ?w = "newWriter 7 True False kNoCompression :: unit log_writer"
  obtain w' d' where run: "add_records mem_dest plain_compressor ?recs ?w [] = Some (w', d')"
    using add_records_accepts [OF mem_dest_accepts mem_dest_law newWriter_plain, of plain_compressor ?recs 7 True False "[]"] by blast
  have "\<exists>r' f'. read_records mem_seq plain_decompressor kPointInTimeRecovery (Suc (length ?recs))
      (newReader True True 7) d' = Some (?recs, r', f') \<and> rr_reports r' = []"
    by (rule log_roundtrip [OF mem_dest_law mem_seq_law _ _ run]) simp_all
  moreover have "Suc (length ?recs) = 4" by simp
  ultimately show ?thesis using run by (metis (no_types, lifting))
qed

text \<open>
  C32. \<^verbatim>\<open>AddRecord\<close> always returns, whatever the file does and however long the record is, and when it
  succeeds it has appended exactly the reference format of the record at its place in the block: a
  trailer of zeros if no header fits, then fragments that end at the block and carry the checksum of
  their type, log number and data. It succeeds if the file accepts what it is given.
\<close>

theorem AddRecord_refines_format:
  assumes "plain_writer rec num off w" and "dest_law df content"
  shows "\<exists>s w' d'. Writer_AddRecord df cp payload w d = Some (s, w', d') \<and>
    (s = OK \<longrightarrow> plain_writer rec num (snd (frag_stream rec num off True payload)) w' \<and>
       content d' = content d @ fst (frag_stream rec num off True payload)) \<and>
    (dest_accepts df \<longrightarrow> s = OK)"
proof -
  obtain s w' d' where run: "Writer_AddRecord df cp payload w d = Some (s, w', d')"
    and spec: "ok s \<Longrightarrow> plain_writer rec num (snd (frag_stream rec num off True payload)) w'"
      "ok s \<Longrightarrow> content d' = content d @ fst (frag_stream rec num off True payload)"
    by (rule Writer_AddRecord_plain [OF assms]) (rule that)
  have "compress w = None" using assms(1) by (simp add: plain_writer_def)
  from Writer_AddRecord_accepts [OF _ this run] run spec show ?thesis by simp
qed

theorem AddRecord_refines_format_witness:
  "\<exists>w' d'. Writer_AddRecord mem_dest plain_compressor (replicate 40000 9) (newWriter 7 False True kNoCompression :: unit log_writer) [] = Some (OK, w', d') \<and>
     plain_writer False 7 (snd (frag_stream False 7 0 True (replicate 40000 9))) w' \<and>
     d' = fst (frag_stream False 7 0 True (replicate 40000 9))"
proof -
  let ?w = "newWriter 7 False True kNoCompression :: unit log_writer"
  have "plain_writer False 7 0 ?w" by (rule newWriter_plain)
  from AddRecord_refines_format [OF this mem_dest_law, of plain_compressor "replicate 40000 9" "[]"]
  show ?thesis using mem_dest_accepts by (simp only: id_apply append_Nil) blast
qed



text \<open>
  C35. \<^verbatim>\<open>MaybeAddUserDefinedTimestampSizeRecord\<close> emits its record without switching to a new block, as
  \<^verbatim>\<open>AddRecord\<close> does. If the record does not fit into the rest of the block it is written across the
  end of the block, and the writer goes on to count from the end of that record as if it were in the
  block.
\<close>

theorem timestamp_record_crosses_block:
  assumes "plain_writer False num off w" and "dest_law df content" and "dest_accepts df"
    and "ts_sz_to_record (recorded_cf_to_ts_sz w) sizes = new" and "new \<noteq> []" and "length new < 5000"
    and "kBlockSize < off + kHeaderSize + 6 * length new"
  shows "\<exists>w' d'. MaybeAddUserDefinedTimestampSizeRecord df sizes w d = Some (OK, w', d') \<and>
    length (content d') = length (content d) + kHeaderSize + 6 * length new \<and> kBlockSize < block_offset w'"
proof -
  note enc = UDT_EncodeTo_length
  let ?data = "UDT_EncodeTo new []" and ?t = kUserDefinedTimestampSizeType
  let ?w = "w\<lparr>recorded_cf_to_ts_sz := recorded_cf_to_ts_sz w @ new\<rparr>"
  have h: "record_header num ?t ?data = Some (header False num ?t ?data)"
    by (rule record_header_format) (use assms(6) in \<open>simp_all add: enc kBlockSize_def legacy_type_def log_types\<close>)
  obtain s1 d1 where 1: "wf_Append df (header False num ?t ?data) d = (s1, d1)" by (metis surj_pair)
  obtain s2 d2 where 2: "wf_Append df ?data d1 = (s2, d2)" by (metis surj_pair)
  have s: "s1 = OK" "s2 = OK" by (rule dest_acceptsD(1) [OF assms(3) 1], rule dest_acceptsD(1) [OF assms(3) 2])
  have law: "content d1 = content d @ header False num ?t ?data" "content d2 = content d1 @ ?data"
    using dest_lawD [OF assms(2) 1] dest_lawD [OF assms(2) 2] s by simp_all
  have w: "recycle_log_files w = False" "log_number w = num" "block_offset w = off" using assms(1) by (simp_all add: plain_writer_def)
  have "MaybeAddUserDefinedTimestampSizeRecord df sizes w d
      = Some (OK, ?w\<lparr>block_offset := off + kHeaderSize + 6 * length new\<rparr>, d2)"
    using assms(4,5) w h s 1 2
    by (simp add: MaybeAddUserDefinedTimestampSizeRecord_def Let_def EmitPhysicalRecord_def length_header hsize_def enc)
  then show ?thesis using law assms(7) by (simp add: length_header hsize_def enc)
qed

theorem timestamp_record_crosses_block_witness:
  "\<exists>w' d'. MaybeAddUserDefinedTimestampSizeRecord mem_dest [(1, 8)]
      ((newWriter 7 False False kNoCompression :: unit log_writer)\<lparr>block_offset := 32760\<rparr>) []
        = Some (OK, w', d') \<and> length d' = 13 \<and> kBlockSize < block_offset w'"
proof -
  let ?w = "(newWriter 7 False False kNoCompression :: unit log_writer)\<lparr>block_offset := 32760\<rparr>"
  have "plain_writer False 7 32760 ?w" by (simp add: plain_writer_def newWriter_def kBlockSize_def)
  from timestamp_record_crosses_block [OF this mem_dest_law mem_dest_accepts, of "[(1, 8)]" "[(1, 8)]" "[]"]
  show ?thesis by (simp add: newWriter_def log_sizes_defs)
qed

end
