(* ===== verification/File_Read.thy ===== *)
theory File_Read
  imports File_IO
begin

text \<open>
  The rest of \<^verbatim>\<open>class ZoneFile\<close> that reaches the device (\<^verbatim>\<open>io_zenfs.cc\<close>): cache invalidation, reading
  by extents, recovery of extents after a crash, migration of data, resetting the zones of a
  write-ahead log, destruction.
\<close>

section \<open>Cache invalidation\<close>

text \<open>Every round takes at least one byte: an extent that was found holds the offset.\<close>

lemma GetExtent_end:
  "GetExtent off es = Some (e, pos) \<Longrightarrow> e_start e + e_length e - pos \<noteq> 0"
  by (induction off es rule: GetExtent.induct) (auto split: if_splits)

lemma InvalidateCache_less:
  assumes "left \<noteq> 0" and "GetExtent off es = Some (e, pos)"
  shows "unat (left - min left (e_start e + e_length e - pos)) < unat left"
proof -
  let ?n = "min left (e_start e + e_length e - pos)"
  have "?n \<noteq> 0" "?n \<le> left"
    using assms GetExtent_end [OF assms(2)] by (auto simp: min_def)
  moreover from this have "0 < unat ?n" by (simp add: unat_gt_0)
  ultimately show ?thesis
    by (simp add: unat_diff_le word_le_nat_alt)
qed

function InvalidateCache_loop ::
    "'d backend \<Rightarrow> ZoneExtent list \<Rightarrow> u64 \<Rightarrow> u64 \<Rightarrow> 'd zbd \<Rightarrow> status \<times> 'd zbd" where
  "InvalidateCache_loop be es offset left dev =
     (if left = 0 then (OK, dev)
      else case GetExtent offset es of
        None \<Rightarrow> (IOError, dev)
      | Some (e, dev_offset) \<Rightarrow>
          (let extent_end = e_start e + e_length e;
               n = min left (extent_end - dev_offset) in
           case zbd_InvalidateCache be dev_offset n (world dev) of
             (s, d) \<Rightarrow>
               if \<not> ok s then (s, dev\<lparr>world := d\<rparr>)
               else InvalidateCache_loop be es (offset + n) (left - n) (dev\<lparr>world := d\<rparr>)))"
  by pat_completeness auto
termination
  by (relation "measure (\<lambda>(be, es, offset, left, dev). unat left)") (auto intro: InvalidateCache_less)

declare InvalidateCache_loop.simps [simp del]

definition ZoneFile_InvalidateCache ::
    "'d backend \<Rightarrow> ZoneFile \<Rightarrow> u64 \<Rightarrow> u64 \<Rightarrow> 'd zbd \<Rightarrow> status \<times> 'd zbd" where
  "ZoneFile_InvalidateCache be zf pos sz dev =
     InvalidateCache_loop be (extents zf) pos (if sz = 0 then file_size zf else sz) dev"

section \<open>Reading by extents\<close>

text \<open>
  A round of the read loop asks for \<^verbatim>\<open>pread_sz\<close> bytes, rounded up to blocks when the read is direct,
  and keeps what it asked for before the rounding. The buffer \<^verbatim>\<open>scratch\<close> is what was read so far.
\<close>

definition pread_size :: "u64 \<Rightarrow> u64 \<Rightarrow> u64 \<Rightarrow> u64" where
  "pread_size wanted r_off extent_end =
     (if wanted + r_off > extent_end then extent_end - r_off else wanted)"

definition align_up :: "'d backend \<Rightarrow> bool \<Rightarrow> u64 \<Rightarrow> u64" where
  "align_up be direct n =
     (let b = ucast (block_sz be) in if direct \<and> n mod b \<noteq> 0 then b - n mod b else 0)"

definition kept :: "nat \<Rightarrow> u64 \<Rightarrow> u64 \<Rightarrow> u64" where
  "kept r pread_sz bytes_to_align =
     (if of_nat r \<le> pread_sz - bytes_to_align then of_nat r else pread_sz - bytes_to_align)"

definition limit_read :: "ZoneFile \<Rightarrow> u64 \<Rightarrow> u64 \<Rightarrow> u64" where
  "limit_read zf offset n = (if offset + n > file_size zf then file_size zf - offset else n)"

text \<open>The flag says that the last device read failed.\<close>

partial_function (option) NormalPositionedRead_loop ::
    "'d backend \<Rightarrow> ZoneExtent list \<Rightarrow> bool \<Rightarrow> u64 \<Rightarrow> u64 \<Rightarrow> u64 \<Rightarrow> u64 \<Rightarrow> u64 \<Rightarrow> bytes \<Rightarrow> 'd \<Rightarrow>
     (bool \<times> bytes \<times> 'd) option" where
  "NormalPositionedRead_loop be es direct offset r_sz read r_off extent_end scratch d =
     (if read = r_sz then Some (False, scratch, d)
      else
        let sz = pread_size (r_sz - read) r_off extent_end; pad = align_up be direct sz in
        Option.bind (zbd_Read be r_off (unat (sz + pad)) direct d)
          (\<lambda>rd. case fst rd of
             RErr e \<Rightarrow> Some (True, scratch, snd rd)
           | RData bs \<Rightarrow>
               (if bs = [] then Some (False, scratch, snd rd)
                else
                  let k = kept (length bs) (sz + pad) pad; read' = read + k; r_off' = r_off + k;
                      scratch' = scratch @ take (unat k) bs in
                  if read' \<noteq> r_sz \<and> r_off' = extent_end then
                    (case GetExtent (offset + read') es of
                       None \<Rightarrow> Some (False, scratch', snd rd)
                     | Some x \<Rightarrow>
                         NormalPositionedRead_loop be es direct offset r_sz read' (e_start (fst x))
                           (e_start (fst x) + e_length (fst x)) scratch' (snd rd))
                  else NormalPositionedRead_loop be es direct offset r_sz read' r_off' extent_end
                         scratch' (snd rd))))"

definition NormalPositionedRead ::
    "'d backend \<Rightarrow> ZoneFile \<Rightarrow> u64 \<Rightarrow> u64 \<Rightarrow> bool \<Rightarrow> 'd zbd \<Rightarrow> (status \<times> bytes \<times> 'd zbd) option" where
  "NormalPositionedRead be zf offset n direct dev =
     (if offset \<ge> file_size zf then Some (OK, [], dev)
      else case GetExtent offset (extents zf) of
        None \<Rightarrow> Some (OK, [], dev)
      | Some (e, r_off) \<Rightarrow>
          (let extent_end = (if is_wal zf then e_length e else e_start e + e_length e) in
           map_option
             (\<lambda>(failed, scratch, d).
                (if failed then IOError else OK, if failed then [] else scratch, dev\<lparr>world := d\<rparr>))
             (NormalPositionedRead_loop be (extents zf) direct offset (limit_read zf offset n) 0 r_off
                extent_end [] (world dev))))"

section \<open>Recovery\<close>

definition blocks_of :: "u64 \<Rightarrow> u64 \<Rightarrow> u64" where
  "blocks_of b n = n div b + (if n mod b \<noteq> 0 then 1 else 0)"

text \<open>
  One segment of a sparse file, starting at \<^verbatim>\<open>next_extent_start\<close>: its header is at the front of its
  first block. \<open>seq\<close> is the greatest sequence number seen.
\<close>

partial_function (option) RecoverSparseExtents_loop ::
    "'d backend \<Rightarrow> u64 \<Rightarrow> zref \<Rightarrow> u64 \<Rightarrow> u64 \<Rightarrow> ZoneFile \<Rightarrow> 'd zbd \<Rightarrow>
     (status \<times> u64 \<times> ZoneFile \<times> 'd zbd) option" where
  "RecoverSparseExtents_loop be end r start seq zf dev =
     (if \<not> start < end then Some (OK, seq, zf, dev)
      else
        let hdr = header_size zf; b = ucast (block_sz be) in
        Option.bind (zbd_Read be start (unat b) False (world dev))
          (\<lambda>rd. let dev1 = dev\<lparr>world := snd rd\<rparr> in
             case fst rd of
               RErr e \<Rightarrow> Some (IOError, seq, zf, dev1)
             | RData bs \<Rightarrow>
                 (if length bs \<noteq> unat b then Some (IOError, seq, zf, dev1)
                  else
                    let len = DecodeFixed64 bs in
                    if len = 0 then Some (IOError, seq, zf, dev1)
                    else
                      let seq' = (if ends_with (hd (linkfiles zf)) (str ''.log'')
                                  then max seq (DecodeFixed64 (drop 8 bs)) else seq);
                          zf' = zf\<lparr>extents := extents zf @
                                  [\<lparr> e_start = start + hdr, e_length = len, e_zone = r \<rparr>]\<rparr> in
                      RecoverSparseExtents_loop be end r (start + blocks_of b (len + hdr) * b) seq' zf'
                        (add_used r len dev1))))"

definition RecoverSparseExtents ::
    "'d backend \<Rightarrow> u64 \<Rightarrow> u64 \<Rightarrow> zref \<Rightarrow> ZoneFile \<Rightarrow> 'd zbd \<Rightarrow>
     (status \<times> ZoneFile \<times> 'd zbd) option" where
  "RecoverSparseExtents be start end r zf dev =
     map_option (\<lambda>(s, seq, zf', dev'). (s, zf'\<lparr>wal_seq := seq\<rparr>, dev'))
       (RecoverSparseExtents_loop be end r start (wal_seq zf) zf dev)"

definition HasActiveExtent :: "ZoneFile \<Rightarrow> bool" where
  "HasActiveExtent zf \<longleftrightarrow> extent_start zf \<noteq> NO_EXTENT"

definition sum_extents :: "ZoneExtent list \<Rightarrow> u64" where
  "sum_extents es = fold (\<lambda>e n. n + e_length e) es 0"

definition ZoneFile_Recover ::
    "'d backend \<Rightarrow> ZoneFile \<Rightarrow> 'd zbd \<Rightarrow> (status \<times> ZoneFile \<times> 'd zbd) option" where
  "ZoneFile_Recover be zf dev =
     (if \<not> HasActiveExtent zf then Some (OK, zf, dev)
      else case GetIOZone be dev (extent_start zf) of
        None \<Rightarrow> Some (IOError, zf, dev)
      | Some r \<Rightarrow>
          (let wp = z_wp (zone_at dev r) in
           if wp < extent_start zf then Some (IOError, zf, dev)
           else
             (let to_recover = wp - extent_start zf in
              if to_recover = 0 then Some (OK, zf\<lparr>extent_start := NO_EXTENT\<rparr>, dev)
              else
                do {
                  (s, zf1, dev1) \<leftarrow>
                    (if is_sparse zf then RecoverSparseExtents be (extent_start zf) wp r zf dev
                     else Some (OK, zf\<lparr>extents := extents zf @
                              [\<lparr> e_start = extent_start zf, e_length = to_recover, e_zone = r \<rparr>]\<rparr>,
                            add_used r to_recover dev));
                  (if \<not> ok s then Some (s, zf1, dev1)
                   else Some (OK, zf1\<lparr>extent_start := NO_EXTENT,
                                file_size := sum_extents (extents zf1)\<rparr>, dev1))
                })))"

section \<open>Other operations\<close>

definition ReplaceExtentList :: "ZoneExtent list \<Rightarrow> ZoneFile \<Rightarrow> ZoneFile" where
  "ReplaceExtentList new_list zf = zf\<lparr>extents := new_list\<rparr>"

text \<open>\<^verbatim>\<open>MigrateData\<close> copies in steps of 128 KiB; the status of the append is not looked at.\<close>

definition migrate_step :: u32 where "migrate_step = 131072"

partial_function (option) MigrateData_loop ::
    "'d backend \<Rightarrow> zref \<Rightarrow> u64 \<Rightarrow> u32 \<Rightarrow> u32 \<Rightarrow> 'd zbd \<Rightarrow> (status \<times> 'd zbd) option" where
  "MigrateData_loop be target offset len read_sz dev =
     (if len = 0 then Some (OK, dev)
      else
        let rs = (if len > read_sz then read_sz else len); pad = pad_size (block_sz be) rs in
        Option.bind (zbd_Read be offset (unat (rs + pad)) True (world dev))
          (\<lambda>rd. let dev1 = dev\<lparr>world := snd rd\<rparr> in
             case fst rd of
               RErr e \<Rightarrow> Some (IOError, dev1)
             | RData bs \<Rightarrow>
                 Option.bind (append_to be target bs dev1)
                   (\<lambda>x. MigrateData_loop be target (offset + of_nat (length bs)) (len - rs) rs (snd x))))"

definition MigrateData ::
    "'d backend \<Rightarrow> u64 \<Rightarrow> u32 \<Rightarrow> zref \<Rightarrow> 'd zbd \<Rightarrow> (status \<times> 'd zbd) option" where
  "MigrateData be offset len target dev =
     (if offset mod ucast (block_sz be) \<noteq> 0 then Some (IOError, dev)
      else MigrateData_loop be target offset len migrate_step dev)"

text \<open>
  \<^verbatim>\<open>ResetWALZones\<close> spins on the first extent's zone, and \<^verbatim>\<open>OpenWALZone\<close> spins on it once more.
\<close>

definition reset_wal :: "'d backend \<Rightarrow> nat \<Rightarrow> 'd zbd \<Rightarrow> (status \<times> 'd zbd) option" where
  "reset_wal be h dev =
     (case szd_ResetAll be h (world dev) of
        (success, d) \<Rightarrow>
          if success then ReleaseUnusedWALZones (dev\<lparr>world := d\<rparr>)
          else Some (IOError, dev\<lparr>world := d\<rparr>))"

definition ResetWALZones ::
    "'d backend \<Rightarrow> ZoneFile \<Rightarrow> 'd zbd \<Rightarrow> (status \<times> ZoneFile \<times> 'd zbd) option" where
  "ResetWALZones be zf dev =
     (case (extents zf, wal zf) of
        (e # es, None) \<Rightarrow>
          (let r = e_zone e in
           case Acquire (zone_at dev r) of
             (False, z) \<Rightarrow> None
           | (True, z) \<Rightarrow>
               do {
                 (s, w, dev1) \<leftarrow> OpenWALZone be None r (put_zone r z dev);
                 (if \<not> ok s then Some (s, zf\<lparr>wal := w\<rparr>, dev1)
                  else
                    do {
                      (s2, dev2) \<leftarrow> (case w of Some h \<Rightarrow> reset_wal be h dev1 | None \<Rightarrow> Some (s, dev1));
                      Some (s2, zf\<lparr>wal := w\<rparr>, put_zone r (snd (Release (zone_at dev2 r))) dev2)
                    })
               })
      | (_, Some h) \<Rightarrow>
          do { (s, dev1) \<leftarrow> reset_wal be h dev; Some (s, zf, dev1) }
      | ([], None) \<Rightarrow> Some (OK, zf, dev))"

text \<open>The destructor.\<close>

definition delete_ZoneFile :: "'d backend \<Rightarrow> ZoneFile \<Rightarrow> 'd zbd \<Rightarrow> 'd zbd" where
  "delete_ZoneFile be zf dev =
     snd (ClearExtents zf
       (case wal zf of
          None \<Rightarrow> dev
        | Some h \<Rightarrow>
            delete_wal be (Some h)
              (snd (szd_sync be h (dev\<lparr>world := snd (be_AppendSync be h (world dev))\<rparr>)))))"

end
