(* ===== verification/Wal.thy ===== *)
theory Wal
  imports File_Read
begin

text \<open>
  Reading write-ahead logs (\<^verbatim>\<open>class ZoneFile\<close> of \<^verbatim>\<open>io_zenfs.cc\<close>). Zone appends may land on the device
  in another order than they were issued, so a log is read chunk by chunk (what lies between two
  barriers), and the records of a chunk are put in order by their sequence numbers.
\<close>

section \<open>Chunks\<close>

definition shift_block_size :: "u64 \<Rightarrow> nat" where
  "shift_block_size blocksize = (if blocksize = 512 then 9 else 12)"

definition block_shift :: "'d backend \<Rightarrow> nat" where
  "block_shift be = shift_block_size (ucast (block_sz be))"

definition wal_header_sz :: u64 where
  "wal_header_sz = SPARSE_HEADER_SIZE + SPARSE_WAL_HEADER_SIZE"

text \<open>
  \<open>ptr\<close> is what was read and not yet decoded, \<open>r\<close> and \<open>br\<close> count bytes with and without headers.
  Decoding past the end of what was read is \<open>None\<close>. \<open>later\<close> says that this is not the log's first
  chunk.
\<close>

function RecoverWALChunk_loop ::
    "bool \<Rightarrow> u64 \<Rightarrow> bytes \<Rightarrow> u64 \<Rightarrow> u64 \<Rightarrow> (u64 \<times> (u64 \<times> bytes) list) option" where
  "RecoverWALChunk_loop later str_size ptr r br =
     (if r < str_size \<and> br < str_size then
        (if length ptr < 16 then None
         else
           let len = DecodeFixed64 ptr; seqn = DecodeFixed64 (drop 8 ptr) in
           if len = 0 then Some (r, [])
           else if seqn = 0 \<and> later then Some (r, [])
           else
             (case peek (unat wal_header_sz) (unat len) ptr of
                None \<Rightarrow> None
              | Some dat \<Rightarrow>
                  map_option (\<lambda>(r', es). (r', (seqn, dat) # es))
                    (RecoverWALChunk_loop later str_size (drop (unat len + unat wal_header_sz) ptr)
                       (r + (len + wal_header_sz)) (br + len))))
      else Some (r, []))"
  by pat_completeness auto
termination
  by (relation "measure (\<lambda>(later, str_size, ptr, r, br). length ptr)")
    (auto simp: unat_gt_0 wal_header_sz_def SPARSE_HEADER_SIZE_def SPARSE_WAL_HEADER_SIZE_def)

declare RecoverWALChunk_loop.simps [simp del]

text \<open>
  \<^verbatim>\<open>std::sort\<close> by sequence number: when the numbers are distinct, as they are in a log, there is one
  sorted list.
\<close>

definition RecoverWALChunk ::
    "'d backend \<Rightarrow> nat \<Rightarrow> u64 \<Rightarrow> u64 \<Rightarrow> 'd zbd \<Rightarrow> (status \<times> (u64 \<times> bytes) list \<times> 'd zbd) option" where
  "RecoverWALChunk be h begin end dev =
     (let str_size = end - begin in
      case szd_Read be h (drop_bit (block_shift be) begin) (unat str_size) (world dev) of
        (None, d) \<Rightarrow> Some (IOError, [], dev\<lparr>world := d\<rparr>)
      | (Some ptr, d) \<Rightarrow>
          (let later = begin > push_bit (block_shift be) (szd_GetWriteTail be h d) in
           case RecoverWALChunk_loop later str_size ptr 0 0 of
             None \<Rightarrow> None
           | Some (r, entries) \<Rightarrow>
               if r > str_size then Some (Corruption, entries, dev\<lparr>world := d\<rparr>)
               else Some (OK, sort_key fst entries, dev\<lparr>world := d\<rparr>)))"

section \<open>Loading the chunk of an offset\<close>

definition chunk_bounds :: "config \<Rightarrow> 'd backend \<Rightarrow> nat \<Rightarrow> u64 \<Rightarrow> 'd \<Rightarrow> u64 \<times> u64" where
  "chunk_bounds cfg be h cid d =
     (let tail = push_bit (block_shift be) (szd_GetWriteTail be h d);
          head = push_bit (block_shift be) (szd_GetWriteHead be h d)
      in (min (tail + cid * barrier cfg) head, min (tail + (cid + 1) * barrier cfg) head))"

definition entries_size :: "(u64 \<times> bytes) list \<Rightarrow> u64" where
  "entries_size es = fold (\<lambda>e n. n + of_nat (length (snd e))) es 0"

text \<open>One round: the status, whether the loop ends here, and the state.\<close>

definition load_chunk ::
    "config \<Rightarrow> 'd backend \<Rightarrow> nat \<Rightarrow> ZoneFile \<Rightarrow> 'd zbd \<Rightarrow> (status \<times> bool \<times> ZoneFile \<times> 'd zbd) option" where
  "load_chunk cfg be h zf dev =
     (let jump = of_nat (length (chunk_entries zf)) in
      case chunk_bounds cfg be h (chunk_id zf) (world dev) of
        (lba_in, lba_out) \<Rightarrow>
          if lba_in \<ge> lba_out then Some (OK, True, zf, dev)
          else
            do {
              (s, es, dev1) \<leftarrow> RecoverWALChunk be h lba_in lba_out dev;
              let zf1 = zf\<lparr>chunk_entries := es\<rparr>;
              (if \<not> ok s then Some (s, True, zf1, dev1)
               else Some (OK, False,
                 zf1\<lparr>chunk_start := chunk_end zf, chunk_end := chunk_end zf + entries_size es,
                     chunk_jump := chunk_jump zf + jump, chunk_id := chunk_id zf + 1\<rparr>, dev1))
            })"

partial_function (option) TryRecoverWAL_loop ::
    "config \<Rightarrow> 'd backend \<Rightarrow> nat \<Rightarrow> u64 \<Rightarrow> ZoneFile \<Rightarrow> 'd zbd \<Rightarrow> (status \<times> ZoneFile \<times> 'd zbd) option" where
  "TryRecoverWAL_loop cfg be h offset zf dev =
     Option.bind (load_chunk cfg be h zf dev)
       (\<lambda>x. let zf1 = fst (snd (snd x)); dev1 = snd (snd (snd x)) in
            if fst (snd x) then Some (fst x, zf1, dev1)
            else if chunk_entries zf1 \<noteq> [] \<and> chunk_end zf1 < offset
            then TryRecoverWAL_loop cfg be h offset zf1 dev1
            else Some (fst x, zf1, dev1))"

definition TryRecoverWAL ::
    "config \<Rightarrow> 'd backend \<Rightarrow> u64 \<Rightarrow> ZoneFile \<Rightarrow> 'd zbd \<Rightarrow> (status \<times> ZoneFile \<times> 'd zbd) option" where
  "TryRecoverWAL cfg be offset zf dev =
     (if chunk_entries zf \<noteq> [] \<and> chunk_end zf > offset then Some (OK, zf, dev)
      else
        do {
          (s, w, dev1) \<leftarrow>
            (case wal zf of
               Some h \<Rightarrow> Some (OK, Some h, dev)
             | None \<Rightarrow> (if extents zf = [] then None
                        else OpenWALZone be None (e_zone (hd (extents zf))) dev));
          let zf1 = zf\<lparr>wal := w\<rparr>;
          (if \<not> ok s then Some (s, zf1, dev1)
           else do { h \<leftarrow> w; TryRecoverWAL_loop cfg be h (min offset (file_size zf)) zf1 dev1 })
        })"

section \<open>Reading\<close>

text \<open>
  \<^verbatim>\<open>GetWALExtent\<close> goes on from an index. Reading a log, \<^verbatim>\<open>r_off\<close> is the offset within the record.
\<close>

definition wal_extent :: "ZoneFile \<Rightarrow> u64 \<Rightarrow> u64 \<Rightarrow> (ZoneExtent \<times> u64 \<times> u64) option" where
  "wal_extent zf file_offset index =
     (let i = ucast index :: u32 in GetWALExtent file_offset (drop (unat i) (extents zf)) (ucast i))"

text \<open>
  What a read of a file carries along: the position in the current extent and its end, the extent's
  index (for logs), the bytes read, and whether the last device read failed.
\<close>

record reading =
  rd_off :: u64
  rd_end :: u64
  rd_id :: u64
  rd_buf :: bytes
  rd_failed :: bool

text \<open>The data of one round: from the loaded records of a log, or from the device.\<close>

definition read_piece ::
    "'d backend \<Rightarrow> bool \<Rightarrow> bool \<Rightarrow> ZoneFile \<Rightarrow> reading \<Rightarrow> u64 \<Rightarrow> 'd zbd \<Rightarrow> (read_result \<times> 'd zbd) option" where
  "read_piece be iswal direct zf rd n dev =
     (if iswal then
        (let i = unat (rd_id rd - chunk_jump zf) in
         if i < length (chunk_entries zf)
         then map_option (\<lambda>bs. (RData bs, dev)) (peek (unat (rd_off rd)) (unat n) (snd (chunk_entries zf ! i)))
         else None)
      else
        map_option (\<lambda>(r, d). (r, dev\<lparr>world := d\<rparr>)) (zbd_Read be (rd_off rd) (unat n) direct (world dev)))"

text \<open>Moving on to the next extent once the current one is read.\<close>

definition next_extent ::
    "config \<Rightarrow> 'd backend \<Rightarrow> bool \<Rightarrow> u64 \<Rightarrow> reading \<Rightarrow> ZoneFile \<Rightarrow> 'd zbd \<Rightarrow>
     (status \<times> bool \<times> reading \<times> ZoneFile \<times> 'd zbd) option" where
  "next_extent cfg be iswal offset rd zf dev =
     do {
       (s, zf1, dev1) \<leftarrow> (if iswal then TryRecoverWAL cfg be offset zf dev else Some (OK, zf, dev));
       (if \<not> ok s then Some (s, False, rd, zf1, dev1)
        else if iswal then
          (case wal_extent zf1 (rd_off rd) (rd_id rd) of
             None \<Rightarrow> Some (OK, False, rd, zf1, dev1)
           | Some (e, off, i) \<Rightarrow>
               Some (OK, True, rd\<lparr>rd_off := 0, rd_end := e_length e, rd_id := i\<rparr>, zf1, dev1))
        else
          (case GetExtent offset (extents zf1) of
             None \<Rightarrow> Some (OK, False, rd, zf1, dev1)
           | Some (e, off) \<Rightarrow>
               Some (OK, True, rd\<lparr>rd_off := e_start e, rd_end := e_start e + e_length e\<rparr>, zf1, dev1)))
     }"

text \<open>One round: the status, whether to go on, and the state.\<close>

definition WALPositionedRead_step ::
    "config \<Rightarrow> 'd backend \<Rightarrow> bool \<Rightarrow> bool \<Rightarrow> u64 \<Rightarrow> u64 \<Rightarrow> reading \<Rightarrow> ZoneFile \<Rightarrow> 'd zbd \<Rightarrow>
     (status \<times> bool \<times> reading \<times> ZoneFile \<times> 'd zbd) option" where
  "WALPositionedRead_step cfg be iswal direct offset r_sz rd zf dev =
     (let sz = pread_size (r_sz - of_nat (length (rd_buf rd))) (rd_off rd) (rd_end rd);
          pad = align_up be direct sz in
      do {
        (r, dev1) \<leftarrow> read_piece be iswal direct zf rd (sz + pad) dev;
        (case r of
           RErr e \<Rightarrow> Some (OK, False, rd\<lparr>rd_failed := True\<rparr>, zf, dev1)
         | RData bs \<Rightarrow>
             if bs = [] then Some (OK, False, rd, zf, dev1)
             else
               (let k = kept (length bs) (sz + pad) pad;
                    rd1 = rd\<lparr>rd_off := rd_off rd + k, rd_buf := rd_buf rd @ take (unat k) bs\<rparr>;
                    read = of_nat (length (rd_buf rd1)) in
                if read \<noteq> r_sz \<and> rd_off rd1 = rd_end rd1
                then next_extent cfg be iswal (offset + read) rd1 zf dev1
                else Some (OK, True, rd1, zf, dev1)))
      })"

partial_function (option) WALPositionedRead_loop ::
    "config \<Rightarrow> 'd backend \<Rightarrow> bool \<Rightarrow> bool \<Rightarrow> u64 \<Rightarrow> u64 \<Rightarrow> reading \<Rightarrow> ZoneFile \<Rightarrow> 'd zbd \<Rightarrow>
     (status \<times> reading \<times> ZoneFile \<times> 'd zbd) option" where
  "WALPositionedRead_loop cfg be iswal direct offset r_sz rd zf dev =
     (if of_nat (length (rd_buf rd)) = r_sz then Some (OK, rd, zf, dev)
      else Option.bind (WALPositionedRead_step cfg be iswal direct offset r_sz rd zf dev)
        (\<lambda>x. if ok (fst x) \<and> fst (snd x)
             then WALPositionedRead_loop cfg be iswal direct offset r_sz (fst (snd (snd x)))
                    (fst (snd (snd (snd x)))) (snd (snd (snd (snd x))))
             else Some (fst x, snd (snd x))))"

text \<open>The end of a read: a log keeps the position for the next read.\<close>

definition finish_read ::
    "config \<Rightarrow> 'd backend \<Rightarrow> bool \<Rightarrow> u64 \<Rightarrow> reading \<Rightarrow> ZoneFile \<Rightarrow> 'd zbd \<Rightarrow>
     (status \<times> bytes \<times> ZoneFile \<times> 'd zbd) option" where
  "finish_read cfg be iswal offset rd zf dev =
     do {
       (s, found, rd1, zf1, dev1) \<leftarrow>
         (if iswal \<and> rd_off rd = rd_end rd
          then next_extent cfg be iswal (offset + of_nat (length (rd_buf rd))) rd zf dev
          else Some (OK, True, rd, zf, dev));
       (if \<not> ok s then Some (s, [], zf1, dev1)
        else
          (let result = (if rd_failed rd1 then [] else rd_buf rd1);
               zf2 = (if iswal then zf1\<lparr>reader_offset_index := rd_id rd1, reader_offset := rd_off rd1\<rparr> else zf1)
           in Some (if rd_failed rd1 then IOError else OK, result,
                    zf2\<lparr>last_read := offset + of_nat (length result)\<rparr>, dev1)))
     }"

definition WALPositionedRead ::
    "config \<Rightarrow> 'd backend \<Rightarrow> u64 \<Rightarrow> u64 \<Rightarrow> bool \<Rightarrow> ZoneFile \<Rightarrow> 'd zbd \<Rightarrow>
     (status \<times> bytes \<times> ZoneFile \<times> 'd zbd) option" where
  "WALPositionedRead cfg be offset n direct zf dev =
     (let iswal = ends_with (hd (linkfiles zf)) (str ''.log'') in
      if offset \<ge> file_size zf then Some (OK, [], zf, dev)
      else
        do {
          (s, zf1, dev1) \<leftarrow> (if iswal then TryRecoverWAL cfg be offset zf dev else Some (OK, zf, dev));
          (if \<not> ok s then Some (s, [], zf1, dev1)
           else
             case (if iswal
                   then map_option (\<lambda>(e, off, i). (e_length e, reader_offset zf1, i))
                          (wal_extent zf1 0 (reader_offset_index zf1))
                   else map_option (\<lambda>(e, off). (e_start e + e_length e, off, 0))
                          (GetExtent offset (extents zf1))) of
               None \<Rightarrow> Some (OK, [], zf1, dev1)
             | Some (e_end, off, i) \<Rightarrow>
                 do {
                   (s2, rd, zf2, dev2) \<leftarrow>
                     WALPositionedRead_loop cfg be iswal direct offset (limit_read zf1 offset n)
                       \<lparr> rd_off = off, rd_end = e_end, rd_id = i, rd_buf = [], rd_failed = False \<rparr> zf1 dev1;
                   (if \<not> ok s2 then Some (s2, [], zf2, dev2)
                    else finish_read cfg be iswal offset rd zf2 dev2)
                 })
        })"

definition PositionedRead ::
    "config \<Rightarrow> 'd backend \<Rightarrow> u64 \<Rightarrow> u64 \<Rightarrow> bool \<Rightarrow> ZoneFile \<Rightarrow> 'd zbd \<Rightarrow>
     (status \<times> bytes \<times> ZoneFile \<times> 'd zbd) option" where
  "PositionedRead cfg be offset n direct zf dev = WALPositionedRead cfg be offset n direct zf dev"

end
