(* ===== verification/Zone_Refs.thy ===== *)
theory Zone_Refs
  imports File_IO
begin

text \<open>
  The zones of a device as a store, and what the code that reads and appends relies on: bytes that
  were appended to a zone are there, and no other zone changes.
\<close>

section \<open>Stores\<close>

text \<open>What a client of a store of cells relies on.\<close>

locale cells =
  fixes get :: "'s \<Rightarrow> 'k \<Rightarrow> 'v" and put :: "'k \<Rightarrow> 'v \<Rightarrow> 's \<Rightarrow> 's" and valid :: "'s \<Rightarrow> 'k \<Rightarrow> bool"
  assumes get_put: "valid s k \<Longrightarrow> get (put k v s) k = v"
    and get_put_other: "j \<noteq> k \<Longrightarrow> get (put k v s) j = get s j"
    and valid_put: "valid (put k v s) j = valid s j"
begin

lemma get_put_if: "valid s k \<Longrightarrow> get (put k v s) j = (if j = k then v else get s j)"
  by (simp add: get_put get_put_other)

lemma get_modify: "valid s k \<Longrightarrow> get (put k (f (get s k)) s) j = (if j = k then f (get s j) else get s j)"
  by (simp add: get_put_if)

end

primrec zone_valid :: "'d zbd \<Rightarrow> zref \<Rightarrow> bool" where
  "zone_valid dev (IoZ i) \<longleftrightarrow> i < length (io_zones dev)"
| "zone_valid dev (WalZ i) \<longleftrightarrow> i < length (wal_zones dev)"
| "zone_valid dev (MetaZ i) \<longleftrightarrow> i < length (meta_zones dev)"

lemma zone_at_put [simp]: "zone_valid dev r \<Longrightarrow> zone_at (put_zone r z dev) r = z"
  by (cases r) simp_all

lemma zone_at_put_other [simp]: "r' \<noteq> r \<Longrightarrow> zone_at (put_zone r z dev) r' = zone_at dev r'"
  by (cases r; cases r') simp_all

lemma zone_valid_put [simp]: "zone_valid (put_zone r' z dev) r = zone_valid dev r"
  by (cases r; cases r') simp_all

interpretation zones: cells zone_at put_zone zone_valid
  by unfold_locales simp_all

lemma world_put [simp]: "world (put_zone r z dev) = world dev"
  by (cases r) simp_all

lemma zone_at_world [simp]: "zone_at (dev\<lparr>world := d\<rparr>) r = zone_at dev r"
  "zone_at (dev\<lparr>bytes_written := n\<rparr>) r = zone_at dev r"
  by (cases r; simp)+

lemma zone_valid_world [simp]: "zone_valid (dev\<lparr>world := d\<rparr>) r = zone_valid dev r"
  "zone_valid (dev\<lparr>bytes_written := n\<rparr>) r = zone_valid dev r"
  by (cases r; simp)+

lemma add_used_sel [simp]:
  "zone_valid (add_used r n dev) r' = zone_valid dev r'" "world (add_used r n dev) = world dev"
  by (simp_all add: add_used_def)

lemma add_used_at:
  "zone_valid dev r \<Longrightarrow> zone_at (add_used r n dev) r' =
     (if r' = r then (zone_at dev r)\<lparr>z_used_capacity := z_used_capacity (zone_at dev r) + n\<rparr> else zone_at dev r')"
  by (simp add: add_used_def zones.get_put_if)

section \<open>Bytes on the device\<close>

definition bytes_at :: "(u64 \<Rightarrow> byte) \<Rightarrow> u64 \<Rightarrow> nat \<Rightarrow> bytes" where
  "bytes_at c pos n = map (\<lambda>i. c (pos + of_nat i)) [0..<n]"

lemma length_bytes_at [simp]: "length (bytes_at c pos n) = n"
  by (simp add: bytes_at_def)

lemma bytes_at_0 [simp]: "bytes_at c pos 0 = []"
  by (simp add: bytes_at_def)

lemma bytes_at_add: "bytes_at c pos (m + n) = bytes_at c pos m @ bytes_at c (pos + of_nat m) n"
proof -
  have "[m..<m + n] = map (\<lambda>i. m + i) [0..<n]" by (induction n) simp_all
  then show ?thesis
    by (simp add: bytes_at_def upt_add_eq_append [of 0 m n, simplified] add.assoc o_def)
qed

lemma bytes_at_take: "m \<le> n \<Longrightarrow> take m (bytes_at c pos n) = bytes_at c pos m"
  using bytes_at_add [of c pos m "n - m"] by simp

lemma bytes_at_drop: "m \<le> n \<Longrightarrow> drop m (bytes_at c pos n) = bytes_at c (pos + of_nat m) (n - m)"
  using bytes_at_add [of c pos m "n - m"] by simp

lemma bytes_at_blit:
  assumes "unat pos + length data < 2 ^ 64"
  shows "bytes_at (blit c pos data) pos (length data) = data"
proof (rule nth_equalityI)
  fix i assume "i < length (bytes_at (blit c pos data) pos (length data))"
  then have i: "i < length data" by simp
  then have "unat (of_nat i :: u64) = i" using assms by (intro unat_of_nat_small) simp
  then have "unat (pos + of_nat i) = unat pos + i" using i assms by (subst unat_add_no_wrap) simp_all
  then show "bytes_at (blit c pos data) pos (length data) ! i = data ! i"
    using i by (simp add: bytes_at_def blit_def)
qed simp

lemma bytes_at_blit_before:
  assumes "unat p + n \<le> unat pos"
  shows "bytes_at (blit c pos data) p n = bytes_at c p n"
proof (rule nth_equalityI)
  fix i assume "i < length (bytes_at (blit c pos data) p n)"
  then have i: "i < n" by simp
  have "unat pos < 2 ^ 64" using unat_lt2p [of pos] by simp
  then have l: "unat p + i < 2 ^ 64" using i assms by linarith
  then have "unat (of_nat i :: u64) = i" by (intro unat_of_nat_small) simp
  then have "unat (p + of_nat i) = unat p + i" using l by (subst unat_add_no_wrap) simp_all
  then show "bytes_at (blit c pos data) p n ! i = bytes_at c p n ! i"
    using i assms by (simp add: bytes_at_def blit_def)
qed simp

text \<open>What POSIX promises of a read of something: some of it, at most as much as asked for.\<close>

definition read_law :: "'d backend \<Rightarrow> ('d \<Rightarrow> u64 \<Rightarrow> byte) \<Rightarrow> bool" where
  "read_law be content \<longleftrightarrow>
     (\<forall>n pos direct d. 0 < n \<longrightarrow>
        (\<exists>m. 0 < m \<and> m \<le> n \<and> be_Read be n pos direct d = (RData (bytes_at (content d) pos m), d)))"

lemma ram_backend_read: "read_law (ram_backend zsz) (\<lambda>d. d)"
  by (auto simp: read_law_def ram_backend_def bytes_at_def)

lemma zbd_Read_loop_law:
  assumes "read_law be content"
  shows "0 < n \<or> \<not> neg \<Longrightarrow> zbd_Read_loop be pos n direct buf neg d = Some (RData (buf @ bytes_at (content d) pos n), d)"
proof (induction n arbitrary: pos buf neg rule: less_induct)
  case (less n)
  show ?case
  proof (cases "n = 0")
    case True
    then show ?thesis using less.prems by (simp add: zbd_Read_loop.simps)
  next
    case False
    then obtain m where m: "0 < m" "m \<le> n" "be_Read be n pos direct d = (RData (bytes_at (content d) pos m), d)"
      using assms unfolding read_law_def by blast
    have ne: "bytes_at (content d) pos m \<noteq> []" using m(1) by (metis length_bytes_at length_greater_0_conv)
    have "zbd_Read_loop be (pos + of_nat m) (n - m) direct (buf @ bytes_at (content d) pos m) False d
        = Some (RData ((buf @ bytes_at (content d) pos m) @ bytes_at (content d) (pos + of_nat m) (n - m)), d)"
      using m(1,2) by (intro less.IH) auto
    then show ?thesis
      using False m ne bytes_at_add [of "content d" pos m "n - m"] by (simp add: zbd_Read_loop.simps [of be pos n] Let_def)
  qed
qed

lemma zbd_Read_law:
  "read_law be content \<Longrightarrow> 0 < n \<Longrightarrow> zbd_Read be pos n direct d = Some (RData (bytes_at (content d) pos n), d)"
  by (simp add: zbd_Read_def zbd_Read_loop_law)

section \<open>Appending to a zone\<close>

lemma append_to_spec:
  assumes law: "write_law be content" "write_progress be"
    and wf: "zone_wf be (zone_at dev r)" and v: "zone_valid dev r"
    and len: "length data \<le> unat (z_capacity (zone_at dev r))"
  shows "\<exists>s dev' n. append_to be r data dev = Some (s, dev') \<and> n \<le> length data \<and>
     zone_at dev' r = advance (int n) (zone_at dev r) \<and>
     (\<forall>r'. r' \<noteq> r \<longrightarrow> zone_at dev' r' = zone_at dev r') \<and> (\<forall>r'. zone_valid dev' r' = zone_valid dev r') \<and>
     (s = OK \<and> n = length data \<and> content (world dev') = blit (content (world dev)) (z_wp (zone_at dev r)) data \<or> s = IOError)"
proof -
  let ?z = "zone_at dev r"
  obtain s z' w' d' where a: "Zone_Append_loop be data ?z (bytes_written dev) (world dev) = Some (s, z', w', d')"
      "append_outcome content data ?z (bytes_written dev) (world dev) s z' w' d'"
    using Zone_Append_loop_spec [OF law wf len] by blast
  then obtain n where n: "n \<le> length data" "z' = advance (int n) ?z"
      "s = OK \<and> n = length data \<and> content d' = blit (content (world dev)) (z_wp ?z) data \<or> s = IOError"
    unfolding append_outcome_def by blast
  have "unat (z_capacity ?z) < 2 ^ 64" using unat_lt2p [of "z_capacity ?z"] by simp
  then have "unat (of_nat (length data) :: u64) = length data" using len by (intro unat_of_nat_small) simp
  then have "\<not> z_capacity ?z < of_nat (length data)" using len by (simp add: word_less_nat_alt)
  then have "append_to be r data dev = Some (s, (put_zone r z' dev)\<lparr>bytes_written := w', world := d'\<rparr>)"
    using a(1) by (simp add: append_to_def Zone_Append_def)
  then show ?thesis
    using n v by (intro exI [of _ s] exI [of _ "(put_zone r z' dev)\<lparr>bytes_written := w', world := d'\<rparr>"] exI [of _ n]) simp
qed

end
