(* ===== verification/File_Content.thy ===== *)
theory File_Content
  imports Wal Zone_Refs
begin

text \<open>
  The content of a file: the bytes of its extents, one after the other. Reading at any offset, in any
  size, across extents, direct or not, gives the bytes of the content.
\<close>

section \<open>Content\<close>

definition ext_size :: "ZoneExtent list \<Rightarrow> nat" where
  "ext_size es = sum_list (map (\<lambda>e. unat (e_length e)) es)"

definition ext_bytes :: "(u64 \<Rightarrow> byte) \<Rightarrow> ZoneExtent \<Rightarrow> bytes" where
  "ext_bytes c e = bytes_at c (e_start e) (unat (e_length e))"

definition file_bytes :: "(u64 \<Rightarrow> byte) \<Rightarrow> ZoneExtent list \<Rightarrow> bytes" where
  "file_bytes c es = concat (map (ext_bytes c) es)"

text \<open>Extents lie in the lower half of the address space and the file is not larger than that.\<close>

definition extents_ok :: "ZoneExtent list \<Rightarrow> bool" where
  "extents_ok es \<longleftrightarrow> ext_size es < 2 ^ 62 \<and> (\<forall>e \<in> set es. unat (e_start e) + unat (e_length e) < 2 ^ 62)"

lemma ext_size_simps [simp]:
  "ext_size [] = 0" "ext_size (e # es) = unat (e_length e) + ext_size es" "ext_size (xs @ ys) = ext_size xs + ext_size ys"
  by (simp_all add: ext_size_def)

lemma file_bytes_simps [simp]:
  "file_bytes c [] = []" "file_bytes c (e # es) = ext_bytes c e @ file_bytes c es"
  "file_bytes c (xs @ ys) = file_bytes c xs @ file_bytes c ys"
  by (simp_all add: file_bytes_def)

lemma length_ext_bytes [simp]: "length (ext_bytes c e) = unat (e_length e)"
  by (simp add: ext_bytes_def)

lemma length_file_bytes [simp]: "length (file_bytes c es) = ext_size es"
  by (induction es) simp_all

lemma u64_of_nat_inj: "m < 2 ^ 62 \<Longrightarrow> n < 2 ^ 62 \<Longrightarrow> of_nat m = (of_nat n :: u64) \<longleftrightarrow> m = n"
  using unat_of_nat_small [of m, where 'a = 64] unat_of_nat_small [of n, where 'a = 64]
  by (auto simp: word_unat_eq_iff)

text \<open>The extent that holds an offset.\<close>

lemma GetExtent_split:
  assumes "unat off < ext_size es"
  shows "\<exists>pre e post. es = pre @ e # post \<and> ext_size pre \<le> unat off \<and> unat off < ext_size pre + unat (e_length e) \<and>
     GetExtent off es = Some (e, e_start e + (off - of_nat (ext_size pre)))"
  using assms
proof (induction es arbitrary: off)
  case (Cons x es)
  show ?case
  proof (cases "off < e_length x")
    case True
    show ?thesis
      by (rule exI [of _ "[]"], rule exI [of _ x], rule exI [of _ es]) (use True in \<open>simp add: word_less_nat_alt\<close>)
  next
    case False
    then have le: "e_length x \<le> off" by simp
    have u: "unat (off - e_length x) = unat off - unat (e_length x)" using le by (simp add: unat_diff_le)
    have "unat (off - e_length x) < ext_size es" using Cons.prems le by (simp add: u word_le_nat_alt)
    from Cons.IH [OF this] obtain pre e post where p: "es = pre @ e # post" "ext_size pre \<le> unat (off - e_length x)"
        "unat (off - e_length x) < ext_size pre + unat (e_length e)"
        "GetExtent (off - e_length x) es = Some (e, e_start e + (off - e_length x - of_nat (ext_size pre)))" by blast
    have n: "unat (e_length x) \<le> unat off" using le by (simp add: word_le_nat_alt)
    have "ext_size (x # pre) \<le> unat off" using p(2) n by (simp add: u)
    moreover have "unat off < ext_size (x # pre) + unat (e_length e)" using p(3) n by (simp add: u)
    moreover have "GetExtent off (x # es) = Some (e, e_start e + (off - of_nat (ext_size (x # pre))))"
      using p(4) False by (simp add: diff_diff_eq)
    ultimately show ?thesis
      using p(1) by (metis append_Cons)
  qed
qed simp

section \<open>Reading\<close>

text \<open>A reader at position \<open>p\<close> of the content, in the extent that holds it.\<close>

definition in_extent :: "ZoneExtent list \<Rightarrow> nat \<Rightarrow> u64 \<Rightarrow> u64 \<Rightarrow> bool" where
  "in_extent es p off e_end \<longleftrightarrow>
     (\<exists>pre e post i. es = pre @ e # post \<and> p = ext_size pre + i \<and> i < unat (e_length e) \<and>
        off = e_start e + of_nat i \<and> e_end = e_start e + e_length e)"

lemma in_extent_found:
  assumes "unat off < ext_size es" and "GetExtent off es = Some (e, pos)"
  shows "in_extent es (unat off) pos (e_start e + e_length e)"
proof -
  obtain pre x post where p: "es = pre @ x # post" "ext_size pre \<le> unat off" "unat off < ext_size pre + unat (e_length x)"
      "GetExtent off es = Some (x, e_start x + (off - of_nat (ext_size pre)))"
    using GetExtent_split [OF assms(1)] by blast
  define i where "i = unat off - ext_size pre"
  have d: "off - of_nat (ext_size pre) = of_nat i"
    using p(2) by (simp add: i_def of_nat_diff)
  have e: "x = e" "pos = e_start e + of_nat i" using p(4) assms(2) unfolding d by simp_all
  show ?thesis
    unfolding in_extent_def
  proof (rule exI [of _ pre], rule exI [of _ e], rule exI [of _ post], rule exI [of _ i], intro conjI)
    show "es = pre @ e # post" using p(1) e(1) by simp
    show "unat off = ext_size pre + i" using p(2) by (simp add: i_def)
    show "i < unat (e_length e)" using p(2,3) e(1) by (simp add: i_def)
  qed (rule e(2), rule refl)
qed

text \<open>The next piece: up to the end of the extent, or as much as is still wanted.\<close>

lemma in_extent_piece:
  assumes ok: "extents_ok es" and at: "in_extent es p off e_end" and w: "0 < w" "p + w \<le> ext_size es"
  shows "\<exists>m. 0 < m \<and> m \<le> w \<and> pread_size (of_nat w) off e_end = of_nat m \<and>
     bytes_at c off m = take m (drop p (file_bytes c es)) \<and>
     (m < w \<longrightarrow> off + of_nat m = e_end) \<and> (off + of_nat m \<noteq> e_end \<longrightarrow> in_extent es (p + m) (off + of_nat m) e_end) \<and>
     (off + of_nat m = e_end \<longrightarrow> (\<exists>a b. es = a @ b \<and> p + m = ext_size a))"
proof -
  obtain pre e post i where p: "es = pre @ e # post" "p = ext_size pre + i" "i < unat (e_length e)"
      "off = e_start e + of_nat i" "e_end = e_start e + e_length e"
    using at unfolding in_extent_def by (elim exE conjE) (rule that)
  let ?L = "unat (e_length e)"
  define m where "m = min w (?L - i)"
  have small: "unat (e_start e) + ?L < 2 ^ 62" "w < 2 ^ 62"
    using ok w(2) p(1) by (auto simp: extents_ok_def)
  have ui: "unat (of_nat k :: u64) = k" if "k < 2 ^ 63" for k
    by (rule unat_of_nat_small) (use that in simp)
  have uoff: "unat off = unat (e_start e) + i"
    using small(1) p(3) by (simp add: p(4) unat_add_no_wrap ui)
  have uend: "unat e_end = unat (e_start e) + ?L"
    using small(1) by (simp add: p(5) unat_add_no_wrap)
  have uw: "unat (of_nat w + off) = w + unat off"
    using small p(3) by (simp add: unat_add_no_wrap ui uoff)
  have size: "pread_size (of_nat w) off e_end = of_nat m"
  proof (cases "w + i > ?L")
    case True
    then have "e_end < of_nat w + off" by (simp add: word_less_nat_alt uw uoff uend)
    moreover have "e_end - off = of_nat (?L - i)"
      using p(3) by (simp add: p(4,5) of_nat_diff)
    moreover have "m = ?L - i" using True p(3) by (simp add: m_def)
    ultimately show ?thesis by (simp add: pread_size_def)
  next
    case False
    then have "\<not> e_end < of_nat w + off" by (simp add: word_less_nat_alt uw uoff uend)
    moreover have "m = w" using False p(3) by (simp add: m_def)
    ultimately show ?thesis by (simp add: pread_size_def)
  qed
  have bytes: "bytes_at c off m = take m (drop p (file_bytes c es))"
    using p(3) by (simp add: p(1,2,4) m_def ext_bytes_def bytes_at_drop bytes_at_take)
  have m_le: "i + m \<le> ?L" using p(3) by (simp add: m_def)
  then have um: "unat (off + of_nat m) = unat (e_start e) + i + m"
    using small(1) by (simp add: unat_add_no_wrap ui uoff)
  have last: "off + of_nat m = e_end \<longleftrightarrow> i + m = ?L"
    by (simp add: word_unat_eq_iff um uend)
  have more: "in_extent es (p + m) (off + of_nat m) e_end" if "off + of_nat m \<noteq> e_end"
    unfolding in_extent_def
  proof (rule exI [of _ pre], rule exI [of _ e], rule exI [of _ post], rule exI [of _ "i + m"], intro conjI)
    show "i + m < unat (e_length e)" using that p(3) unfolding last by (simp add: m_def)
  qed (simp_all add: p add.assoc)
  have whole: "\<exists>a b. es = a @ b \<and> p + m = ext_size a" if "off + of_nat m = e_end"
    using that unfolding last by (intro exI [of _ "pre @ [e]"] exI [of _ post]) (simp add: p(1,2))
  have "m < w \<longrightarrow> off + of_nat m = e_end" using p(3) unfolding last by (auto simp: m_def)
  moreover have "0 < m" "m \<le> w" using w(1) p(3) by (simp_all add: m_def)
  ultimately show ?thesis
    using size bytes more whole by (intro exI [of _ m] conjI impI) simp_all
qed

text \<open>Where one extent ends, the next one with data starts.\<close>

lemma GetExtent_boundary:
  assumes es: "es = a @ b" and more: "ext_size a < ext_size es" and small: "ext_size es < 2 ^ 62"
  shows "\<exists>x. GetExtent (of_nat (ext_size a)) es = Some (x, e_start x) \<and>
     in_extent es (ext_size a) (e_start x) (e_start x + e_length x)"
proof -
  let ?o = "of_nat (ext_size a) :: u64"
  have u: "unat ?o = ext_size a" by (rule unat_of_nat_small) (use more small in simp)
  have lt: "unat ?o < ext_size es" using more by (simp only: u)
  obtain pre x post where p: "es = pre @ x # post" "ext_size pre \<le> ext_size a" "ext_size a < ext_size pre + unat (e_length x)"
      "GetExtent ?o es = Some (x, e_start x + (?o - of_nat (ext_size pre)))"
    using GetExtent_split [OF lt] unfolding u by (elim exE conjE) (rule that)
  from es p(1) have "a @ b = pre @ x # post" by simp
  then obtain us where "a = pre @ us \<and> us @ b = x # post \<or> a @ us = pre \<and> b = us @ x # post"
    unfolding append_eq_append_conv2 by (elim exE) (rule that)
  then have "ext_size pre = ext_size a"
  proof
    assume us: "a = pre @ us \<and> us @ b = x # post"
    then have "us = []" using p(3) by (cases us) auto
    then show ?thesis using us by simp
  next
    assume "a @ us = pre \<and> b = us @ x # post"
    then show ?thesis using p(2) by auto
  qed
  then have found: "GetExtent ?o es = Some (x, e_start x)" using p(4) by simp
  moreover have "in_extent es (ext_size a) (e_start x) (e_start x + e_length x)"
    using in_extent_found [OF lt found] by (simp only: u)
  ultimately show ?thesis by (intro exI [of _ x] conjI)
qed

text \<open>The device is asked for whole blocks when the read is direct; what the rounding added is dropped.\<close>

lemma align_up_bound:
  assumes "direct \<longrightarrow> block_sz be \<noteq> 0"
  shows "unat (align_up be direct n) < 2 ^ 32"
proof (cases "direct \<and> n mod ucast (block_sz be) \<noteq> 0")
  case True
  let ?b = "ucast (block_sz be) :: u64"
  have b: "unat ?b < 2 ^ 32" "0 < unat ?b"
    using assms True unat_lt2p [of "block_sz be"] by (simp_all add: unat_ucast_up unat_gt_0)
  have "unat (n mod ?b) < unat ?b" using b(2) by (simp add: unat_mod)
  then have "unat (?b - n mod ?b) \<le> unat ?b" by (simp add: unat_diff_le word_le_nat_alt)
  then show ?thesis using True b(1) by (simp add: align_up_def Let_def)
next
  case False
  then show ?thesis by (auto simp: align_up_def Let_def)
qed

lemma read_piece_file:
  assumes law: "read_law be content" and b: "direct \<longrightarrow> block_sz be \<noteq> 0" and m: "0 < m" "m < 2 ^ 62"
  shows "\<exists>bs. read_piece be False direct zf rd (of_nat m + align_up be direct (of_nat m)) dev = Some (RData bs, dev) \<and>
     bs \<noteq> [] \<and> kept (length bs) (of_nat m + align_up be direct (of_nat m)) (align_up be direct (of_nat m)) = of_nat m \<and>
     take m bs = bytes_at (content (world dev)) (rd_off rd) m"
proof -
  let ?a = "align_up be direct (of_nat m)"
  define a where "a = unat ?a"
  have a: "a < 2 ^ 32" unfolding a_def by (rule align_up_bound [OF b])
  have um: "unat (of_nat m :: u64) = m" by (rule unat_of_nat_small) (use m(2) in simp)
  have n: "unat (of_nat m + ?a) = m + a"
    using m(2) a by (simp add: unat_add_no_wrap um a_def)
  have len: "of_nat (m + a) = of_nat m + ?a" by (simp add: a_def)
  let ?bs = "bytes_at (content (world dev)) (rd_off rd) (m + a)"
  have "read_piece be False direct zf rd (of_nat m + ?a) dev = Some (RData ?bs, dev)"
    using m(1) by (simp add: read_piece_def n zbd_Read_law [OF law])
  moreover have "length ?bs \<noteq> 0" using m(1) by simp
  moreover have "kept (length ?bs) (of_nat m + ?a) ?a = of_nat m"
  proof (cases "a = 0")
    case True
    then have "?a = 0" by (simp add: a_def unat_eq_zero)
    then show ?thesis by (simp add: kept_def True)
  next
    case False
    then have "\<not> of_nat m + ?a \<le> of_nat m" by (simp add: word_le_nat_alt n um)
    then show ?thesis by (simp add: kept_def len del: of_nat_add)
  qed
  moreover have "take m ?bs = bytes_at (content (world dev)) (rd_off rd) m" by (simp add: bytes_at_take)
  ultimately show ?thesis by (metis length_0_conv)
qed

definition reading_file :: "(u64 \<Rightarrow> byte) \<Rightarrow> ZoneExtent list \<Rightarrow> nat \<Rightarrow> nat \<Rightarrow> nat \<Rightarrow> reading \<Rightarrow> bool" where
  "reading_file c es p r q rd \<longleftrightarrow>
     q \<le> r \<and> rd_buf rd = take q (drop p (file_bytes c es)) \<and> \<not> rd_failed rd \<and>
     (q < r \<longrightarrow> in_extent es (p + q) (rd_off rd) (rd_end rd))"

lemma WALPositionedRead_step_file:
  assumes law: "read_law be content" and b: "direct \<longrightarrow> block_sz be \<noteq> 0"
    and ok: "extents_ok (extents zf)" and r: "p + r \<le> ext_size (extents zf)"
    and rd: "reading_file (content (world dev)) (extents zf) p r q rd" and q: "q < r"
  shows "\<exists>m rd'. 0 < m \<and> reading_file (content (world dev)) (extents zf) p r (q + m) rd' \<and>
     WALPositionedRead_step cfg be False direct (of_nat p) (of_nat r) rd zf dev = Some (OK, True, rd', zf, dev)"
proof -
  let ?es = "extents zf" and ?F = "file_bytes (content (world dev)) (extents zf)"
  have size: "ext_size ?es < 2 ^ 62" using ok by (simp add: extents_ok_def)
  have at: "in_extent ?es (p + q) (rd_off rd) (rd_end rd)" and buf: "rd_buf rd = take q (drop p ?F)" "\<not> rd_failed rd"
    using rd q by (simp_all add: reading_file_def)
  have len: "length (rd_buf rd) = q" using r q by (simp add: buf)
  have w: "0 < r - q" "p + q + (r - q) \<le> ext_size ?es" using q r by simp_all
  obtain m where m: "0 < m" "m \<le> r - q" "pread_size (of_nat (r - q)) (rd_off rd) (rd_end rd) = of_nat m"
      "bytes_at (content (world dev)) (rd_off rd) m = take m (drop (p + q) ?F)"
      "m < r - q \<longrightarrow> rd_off rd + of_nat m = rd_end rd"
      "rd_off rd + of_nat m \<noteq> rd_end rd \<longrightarrow> in_extent ?es (p + q + m) (rd_off rd + of_nat m) (rd_end rd)"
      "rd_off rd + of_nat m = rd_end rd \<longrightarrow> (\<exists>a b. extents zf = a @ b \<and> p + q + m = ext_size a)"
    using in_extent_piece [OF ok at w, of "content (world dev)"] by (elim exE conjE) (rule that)
  have m62: "m < 2 ^ 62" using m(2) r size by simp
  obtain bs where bs: "read_piece be False direct zf rd (of_nat m + align_up be direct (of_nat m)) dev = Some (RData bs, dev)"
      "bs \<noteq> []" "kept (length bs) (of_nat m + align_up be direct (of_nat m)) (align_up be direct (of_nat m)) = of_nat m"
      "take m bs = bytes_at (content (world dev)) (rd_off rd) m"
    using read_piece_file [OF law b m(1) m62, of zf rd dev] by (elim exE conjE) (rule that)
  have um: "unat (of_nat m :: u64) = m" by (rule unat_of_nat_small) (use m62 in simp)
  define rd1 where "rd1 = rd\<lparr>rd_off := rd_off rd + of_nat m, rd_buf := rd_buf rd @ take m bs\<rparr>"
  have buf1: "rd_buf rd1 = take (q + m) (drop p ?F)" "\<not> rd_failed rd1"
    using buf by (simp_all add: rd1_def bs(4) m(4) take_add add.commute [of p q])
  have len1: "length (rd_buf rd1) = q + m" using r m(2) q by (simp add: buf1)
  have full: "of_nat (q + m) = (of_nat r :: u64) \<longleftrightarrow> q + m = r"
    by (rule u64_of_nat_inj) (use m(2) q r size in simp_all)
  have wanted: "of_nat r - of_nat q = (of_nat (r - q) :: u64)" using q by (simp add: of_nat_diff)
  have step: "WALPositionedRead_step cfg be False direct (of_nat p) (of_nat r) rd zf dev
    = (if q + m \<noteq> r \<and> rd_off rd1 = rd_end rd1 then next_extent cfg be False (of_nat (p + (q + m))) rd1 zf dev
       else Some (OK, True, rd1, zf, dev))"
    using bs(2) len1 full
    by (simp add: WALPositionedRead_step_def Let_def len wanted m(3) bs(1,3) um rd1_def)
  show ?thesis
  proof (cases "q + m \<noteq> r \<and> rd_off rd1 = rd_end rd1")
    case True
    then have "rd_off rd + of_nat m = rd_end rd" by (simp add: rd1_def)
    with m(7) obtain a b where ab: "extents zf = a @ b" "p + q + m = ext_size a" by blast
    have more: "ext_size a < ext_size ?es" using conjunct1 [OF True] m(2) q r ab(2) by linarith
    obtain x where x: "GetExtent (of_nat (ext_size a)) ?es = Some (x, e_start x)"
        "in_extent ?es (ext_size a) (e_start x) (e_start x + e_length x)"
      using GetExtent_boundary [OF ab(1) more size] by (elim exE conjE) (rule that)
    define rd2 where "rd2 = rd1\<lparr>rd_off := e_start x, rd_end := e_start x + e_length x\<rparr>"
    have pa: "p + (q + m) = ext_size a" using ab(2) by simp
    have "WALPositionedRead_step cfg be False direct (of_nat p) (of_nat r) rd zf dev = Some (OK, True, rd2, zf, dev)"
      unfolding step pa using True x(1) by (simp add: next_extent_def rd2_def)
    moreover have "reading_file (content (world dev)) ?es p r (q + m) rd2"
      using buf1 m(2) q x(2) pa by (simp add: reading_file_def rd2_def)
    ultimately show ?thesis using m(1) by (intro exI [of _ m] exI [of _ rd2]) simp
  next
    case False
    then have "reading_file (content (world dev)) ?es p r (q + m) rd1"
      using buf1 m(2,5,6) q by (auto simp: reading_file_def rd1_def add.assoc)
    then show ?thesis using step False m(1) by (intro exI [of _ m] exI [of _ rd1]) simp
  qed
qed

lemma WALPositionedRead_loop_file:
  assumes law: "read_law be content" and b: "direct \<longrightarrow> block_sz be \<noteq> 0"
    and ok: "extents_ok (extents zf)" and r: "p + r \<le> ext_size (extents zf)"
    and rd: "reading_file (content (world dev)) (extents zf) p r q rd"
  shows "\<exists>rd'. reading_file (content (world dev)) (extents zf) p r r rd' \<and>
     WALPositionedRead_loop cfg be False direct (of_nat p) (of_nat r) rd zf dev = Some (OK, rd', zf, dev)"
  using rd
proof (induction "r - q" arbitrary: q rd rule: less_induct)
  case less
  have q: "q \<le> r" and buf: "rd_buf rd = take q (drop p (file_bytes (content (world dev)) (extents zf)))"
    using less.prems by (simp_all add: reading_file_def)
  have len: "length (rd_buf rd) = q" using q r by (simp add: buf)
  have full: "of_nat q = (of_nat r :: u64) \<longleftrightarrow> q = r"
    by (rule u64_of_nat_inj) (use q r ok in \<open>simp_all add: extents_ok_def\<close>)
  note loop = WALPositionedRead_loop.simps [of cfg be False direct "of_nat p" "of_nat r" rd zf dev]
  show ?case
  proof (cases "q = r")
    case True
    then show ?thesis unfolding loop using less.prems len by (intro exI [of _ rd]) simp
  next
    case False
    then have lt: "q < r" using q by simp
    obtain m rd' where m: "0 < m" "reading_file (content (world dev)) (extents zf) p r (q + m) rd'"
        "WALPositionedRead_step cfg be False direct (of_nat p) (of_nat r) rd zf dev = Some (OK, True, rd', zf, dev)"
      using WALPositionedRead_step_file [OF law b ok r less.prems lt, of cfg] by (elim exE conjE) (rule that)
    have "r - (q + m) < r - q" using m(1) lt by simp
    from less.hyps [OF this m(2)] show ?thesis
      unfolding loop using False full len m(3) by simp
  qed
qed

section \<open>A read returns the content\<close>

text \<open>
  What the metadata of a file says: the size is that of the extents, and the extents are in the lower
  half of the address space.
\<close>

definition plain_file :: "ZoneFile \<Rightarrow> bool" where
  "plain_file zf \<longleftrightarrow>
     \<not> ends_with (hd (linkfiles zf)) (str ''.log'') \<and> extents_ok (extents zf) \<and>
     file_size zf = of_nat (ext_size (extents zf))"

lemma limit_read_nat:
  assumes "plain_file zf" and "unat offset < ext_size (extents zf)" and "unat n < 2 ^ 62"
  shows "limit_read zf offset n = of_nat (min (unat n) (ext_size (extents zf) - unat offset))"
proof -
  let ?S = "ext_size (extents zf)"
  have S: "?S < 2 ^ 62" and fs: "file_size zf = of_nat ?S" using assms(1) by (simp_all add: plain_file_def extents_ok_def)
  have uS: "unat (of_nat ?S :: u64) = ?S" by (rule unat_of_nat_small) (use S in simp)
  have u: "unat (offset + n) = unat offset + unat n" using assms(2,3) S by (simp add: unat_add_no_wrap)
  have "file_size zf - offset = of_nat (?S - unat offset)" using assms(2) by (simp add: fs of_nat_diff)
  moreover have "offset + n > file_size zf \<longleftrightarrow> ?S - unat offset < unat n"
    using assms(2) by (auto simp: word_less_nat_alt fs uS u)
  ultimately show ?thesis by (simp add: limit_read_def min_def)
qed

lemma PositionedRead_plain:
  assumes law: "read_law be content" and b: "direct \<longrightarrow> block_sz be \<noteq> 0" and zf: "plain_file zf" and n: "unat n < 2 ^ 62"
  shows "\<exists>zf'. PositionedRead cfg be offset n direct zf dev
     = Some (OK, take (unat n) (drop (unat offset) (file_bytes (content (world dev)) (extents zf))), zf', dev) \<and>
     zf' = zf\<lparr>last_read := last_read zf'\<rparr>"
proof -
  let ?es = "extents zf" and ?F = "file_bytes (content (world dev)) (extents zf)"
  have S: "ext_size ?es < 2 ^ 62" and fs: "file_size zf = of_nat (ext_size ?es)" and ok: "extents_ok ?es"
    and log: "\<not> ends_with (hd (linkfiles zf)) (str ''.log'')" using zf by (simp_all add: plain_file_def extents_ok_def)
  have uS: "unat (of_nat (ext_size ?es) :: u64) = ext_size ?es" by (rule unat_of_nat_small) (use S in simp)
  show ?thesis
  proof (cases "unat offset < ext_size ?es")
    case False
    then have "file_size zf \<le> offset" by (simp add: word_le_nat_alt fs uS)
    then have "PositionedRead cfg be offset n direct zf dev = Some (OK, [], zf, dev)"
      by (simp add: PositionedRead_def WALPositionedRead_def)
    then show ?thesis using False by (intro exI [of _ zf]) simp
  next
    case True
    then have lt: "\<not> file_size zf \<le> offset" by (simp add: word_le_nat_alt fs uS)
    define r where "r = min (unat n) (ext_size ?es - unat offset)"
    have lim: "limit_read zf offset n = of_nat r" unfolding r_def by (rule limit_read_nat [OF zf True n])
    obtain e pos where e: "GetExtent offset ?es = Some (e, pos)" using GetExtent_split [OF True] by blast
    let ?rd = "\<lparr> rd_off = pos, rd_end = e_start e + e_length e, rd_id = 0, rd_buf = [], rd_failed = False \<rparr>"
    have rd: "reading_file (content (world dev)) ?es (unat offset) r 0 ?rd"
      using in_extent_found [OF True e] by (simp add: reading_file_def)
    have le: "unat offset + r \<le> ext_size ?es" using True by (simp add: r_def)
    obtain rd' where rd': "reading_file (content (world dev)) ?es (unat offset) r r rd'"
       "WALPositionedRead_loop cfg be False direct offset (of_nat r) ?rd zf dev = Some (OK, rd', zf, dev)"
      using WALPositionedRead_loop_file [OF law b ok le rd, of cfg] by auto
    have "take r (drop (unat offset) ?F) = take (unat n) (drop (unat offset) ?F)"
      by (simp add: r_def min_def)
    then have "PositionedRead cfg be offset n direct zf dev
        = Some (OK, take (unat n) (drop (unat offset) ?F), zf\<lparr>last_read := offset + of_nat (length (take (unat n) (drop (unat offset) ?F)))\<rparr>, dev)"
      using lt log e rd' lim
      by (simp add: PositionedRead_def WALPositionedRead_def Let_def finish_read_def reading_file_def)
    then show ?thesis by (intro exI conjI) (assumption, simp)
  qed
qed

section \<open>Appending to an open file\<close>

text \<open>
  A file being written: it has a zone, its extents are away from the part of the zone that is still
  to be written, and the next extent starts at the write pointer.
\<close>

definition away :: "'d backend \<Rightarrow> Zone \<Rightarrow> ZoneExtent \<Rightarrow> bool" where
  "away be z e \<longleftrightarrow>
     unat (e_start e) + unat (e_length e) \<le> unat (z_wp z) \<or> unat (z_start z) + unat (zone_sz be) \<le> unat (e_start e)"

definition file_open :: "'d backend \<Rightarrow> zref \<Rightarrow> ('d, 'm) fenv \<Rightarrow> bool" where
  "file_open be r st \<longleftrightarrow>
     (let zf = f_file st; z = zone_at (f_dev st) r in
      active_zone zf = Some r \<and> \<not> is_wal zf \<and> plain_file zf \<and> zone_valid (f_dev st) r \<and> zone_wf be z \<and>
      unat (z_start z) + unat (zone_sz be) < 2 ^ 62 \<and> extent_start zf = z_wp z \<and>
      (\<forall>e \<in> set (extents zf). away be z e))"

lemma bytes_at_blit_after:
  assumes "unat pos + length data \<le> unat p" and "unat p + n < 2 ^ 64"
  shows "bytes_at (blit c pos data) p n = bytes_at c p n"
proof (rule nth_equalityI)
  fix i assume "i < length (bytes_at (blit c pos data) p n)"
  then have i: "i < n" by simp
  then have "unat (of_nat i :: u64) = i" using assms(2) by (intro unat_of_nat_small) simp
  then have "unat (p + of_nat i) = unat p + i" using i assms(2) by (subst unat_add_no_wrap) simp_all
  then show "bytes_at (blit c pos data) p n ! i = bytes_at c p n ! i"
    using i assms by (simp add: bytes_at_def blit_def)
qed simp

lemma file_bytes_blit:
  assumes "\<forall>e \<in> set es. away be z e" and "extents_ok es" and "unat (z_wp z) + length data \<le> unat (z_start z) + unat (zone_sz be)"
  shows "file_bytes (blit c (z_wp z) data) es = file_bytes c es"
proof -
  have "ext_bytes (blit c (z_wp z) data) e = ext_bytes c e" if "e \<in> set es" for e
    using assms(1) that unfolding ext_bytes_def away_def
  proof (elim ballE disjE)
    assume "unat (e_start e) + unat (e_length e) \<le> unat (z_wp z)"
    then show "bytes_at (blit c (z_wp z) data) (e_start e) (unat (e_length e)) = bytes_at c (e_start e) (unat (e_length e))"
      by (rule bytes_at_blit_before)
  next
    assume "unat (z_start z) + unat (zone_sz be) \<le> unat (e_start e)"
    then show "bytes_at (blit c (z_wp z) data) (e_start e) (unat (e_length e)) = bytes_at c (e_start e) (unat (e_length e))"
      using assms(2,3) that by (intro bytes_at_blit_after) (auto simp: extents_ok_def dest: bspec)
  qed auto
  then show ?thesis by (simp add: file_bytes_def cong: map_cong)
qed

text \<open>The padding makes whole blocks and stays below one block.\<close>

lemma pad_size_bound: "b \<noteq> 0 \<Longrightarrow> pad_size b n < b"
proof -
  assume b: "b \<noteq> 0"
  then have "0 < unat b" by (simp add: unat_gt_0)
  then have lt: "unat (n mod b) < unat b" by (simp add: unat_mod)
  show "pad_size b n < b"
  proof (cases "n mod b = 0")
    case True
    then show ?thesis using b by (simp add: pad_size_def word_neq_0_conv)
  next
    case False
    then have "0 < unat (n mod b)" by (simp add: unat_gt_0)
    then show ?thesis using lt False by (simp add: pad_size_def word_less_nat_alt unat_diff_le word_le_nat_alt)
  qed
qed

lemma pad_size_whole:
  assumes "b \<noteq> 0"
  shows "(unat n + unat (pad_size b n)) mod unat b = 0"
proof -
  have b0: "0 < unat b" using assms by (simp add: unat_gt_0)
  have upad: "unat (pad_size b n) = (if unat n mod unat b = 0 then 0 else unat b - unat n mod unat b)"
    using b0 by (simp add: pad_size_def word_unat_eq_iff unat_mod unat_diff_le word_le_nat_alt)
  show ?thesis
  proof (cases "unat n mod unat b = 0")
    case False
    have "(unat n + (unat b - unat n mod unat b)) mod unat b = (unat n mod unat b + (unat b - unat n mod unat b)) mod unat b"
      by (simp add: mod_add_left_eq)
    then show ?thesis using False b0 upad by (simp add: less_imp_le)
  qed (simp add: upad)
qed

text \<open>The narrowing conversions of the code lose nothing, since they follow the comparisons.\<close>

lemma write_size_nat:
  "unat (write_size cfg zf cap want) =
     (if is_wal zf then min (min (unat want) (unat cap)) (unat (barrier cfg - append_bytes_since_last_barrier zf))
      else min (unat want) (unat cap))"
proof -
  define room where "room = barrier cfg - append_bytes_since_last_barrier zf"
  define w1 where "w1 = (if ucast want > cap then ucast cap else want)"
  have narrow: "unat (ucast x :: u32) = unat x" if "unat x < unat (y :: u32)" for x :: u64 and y
    using that unat_lt2p [of y] by (simp add: unsigned_ucast_eq take_bit_nat_eq_self)
  have w1: "unat w1 = min (unat want) (unat cap)"
  proof (cases "ucast want > cap")
    case True
    then have "unat cap < unat want" by (simp add: word_less_nat_alt unat_ucast_up)
    then show ?thesis using True narrow [of cap want] by (simp add: w1_def)
  qed (simp add: w1_def word_less_nat_alt unat_ucast_up)
  have wr: "write_size cfg zf cap want = (if is_wal zf \<and> ucast w1 > room then ucast room else w1)"
    by (simp add: write_size_def Let_def w1_def room_def)
  show ?thesis
  proof (cases "is_wal zf \<and> ucast w1 > room")
    case True
    then have "unat room < unat w1" by (simp add: word_less_nat_alt unat_ucast_up)
    then show ?thesis using True narrow [of room w1] w1 by (simp add: wr room_def [symmetric])
  next
    case False
    then have "is_wal zf \<longrightarrow> unat w1 \<le> unat room" by (auto simp: word_less_nat_alt unat_ucast_up not_less)
    then show ?thesis using False w1 by (simp add: wr room_def [symmetric])
  qed
qed

text \<open>One extent more, with the data that was just written in front of the write pointer.\<close>

lemma record_extent_open:
  assumes open1: "file_open be r st" and total: "ext_size (extents (f_file st)) + n < 2 ^ 62"
    and z': "zone_at dev' r = advance (int m) (zone_at (f_dev st) r)" "\<forall>r'. zone_valid dev' r' = zone_valid (f_dev st) r'"
    and n: "n \<le> m" "m \<le> unat (z_capacity (zone_at (f_dev st) r))"
    and c: "content (world dev') = blit (content (world (f_dev st))) (z_wp (zone_at (f_dev st) r)) data"
      "length data = m"
  shows "file_open be r (record_extent r (extent_start (f_file st)) (of_nat n) (st\<lparr>f_dev := dev'\<rparr>)) \<and>
     world (f_dev (record_extent r (extent_start (f_file st)) (of_nat n) (st\<lparr>f_dev := dev'\<rparr>))) = world dev' \<and>
     file_bytes (content (world dev')) (extents (f_file (record_extent r (extent_start (f_file st)) (of_nat n) (st\<lparr>f_dev := dev'\<rparr>))))
     = file_bytes (content (world (f_dev st))) (extents (f_file st)) @ take n data"
proof -
  let ?z = "zone_at (f_dev st) r" and ?zf = "f_file st"
  let ?st = "record_extent r (extent_start ?zf) (of_nat n) (st\<lparr>f_dev := dev'\<rparr>)"
  have o: "active_zone ?zf = Some r" "\<not> is_wal ?zf" "plain_file ?zf" "zone_valid (f_dev st) r" "zone_wf be ?z"
      "unat (z_start ?z) + unat (zone_sz be) < 2 ^ 62" "extent_start ?zf = z_wp ?z" "\<forall>e \<in> set (extents ?zf). away be ?z e"
    using open1 by (simp_all add: file_open_def Let_def)
  note adv = zone_wf_advance [OF o(5) n(2)] zone_wf_wp_capacity [OF o(5)]
  have v: "zone_valid dev' r" using z'(2) o(4) by simp
  have un: "unat (of_nat n :: u64) = n" by (rule unat_of_nat_small) (use total in simp)
  let ?e = "\<lparr> e_start = z_wp ?z, e_length = of_nat n, e_zone = r \<rparr>"
  have fl: "f_file ?st = ?zf\<lparr>extents := extents ?zf @ [?e], extent_start := z_wp ?z + of_nat m, file_size := file_size ?zf + of_nat n\<rparr>"
    using z'(1) by (simp add: record_extent_def upd_file_def upd_dev_def o(7) advance_nat)
  have dev: "f_dev ?st = add_used r (of_nat n) dev'"
    by (simp add: record_extent_def upd_file_def upd_dev_def)
  have zone: "zone_at (f_dev ?st) r = (advance (int m) ?z)\<lparr>z_used_capacity := z_used_capacity (advance (int m) ?z) + of_nat n\<rparr>"
    using z'(1) by (simp add: dev add_used_at [OF v])
  have fits: "unat (z_wp ?z) + m \<le> unat (z_start ?z) + unat (zone_sz be)" using adv(4) n(2) by simp
  have ok: "extents_ok (extents ?zf)" and size: "file_size ?zf = of_nat (ext_size (extents ?zf))"
    and log: "\<not> ends_with (hd (linkfiles ?zf)) (str ''.log'')"
    using o(3) by (simp_all add: plain_file_def)
  have "extents_ok (extents ?zf @ [?e])"
    using ok total fits n(1) o(6) by (auto simp: extents_ok_def un)
  then have "plain_file (f_file ?st)" using log size by (simp add: plain_file_def fl un)
  moreover have "away be (advance (int m) ?z) e" if "e \<in> set (extents ?zf)" for e
    using o(8) that adv(2) by (auto simp: away_def advance_nat)
  moreover have "away be (advance (int m) ?z) ?e" using adv(2) n(1) by (simp add: away_def advance_nat un)
  ultimately have "file_open be r ?st"
    using o(1,2,6) v adv(1) unfolding file_open_def Let_def zone
    by (simp add: fl dev advance_nat away_def)
  moreover have "file_bytes (content (world dev')) (extents ?zf) = file_bytes (content (world (f_dev st))) (extents ?zf)"
    unfolding c(1) by (rule file_bytes_blit [OF o(8) ok]) (use fits c(2) in simp)
  moreover have "ext_bytes (content (world dev')) ?e = take n data"
  proof -
    have "bytes_at (blit (content (world (f_dev st))) (z_wp ?z) data) (z_wp ?z) (length data) = data"
      by (rule bytes_at_blit) (use fits o(6) c(2) in simp)
    then show ?thesis
      using bytes_at_take [of n m "content (world dev')" "z_wp ?z"] n(1) by (simp add: ext_bytes_def un c)
  qed
  ultimately show ?thesis by (simp add: fl dev)
qed

lemma BufferedAppend_room:
  assumes law: "write_law be content" "write_progress be"
    and open1: "file_open be r st" and b: "block_sz be \<noteq> 0" "unat len + unat (block_sz be) < 2 ^ 32"
    and room: "unat len + unat (pad_size (block_sz be) len) < unat (z_capacity (zone_at (f_dev st) r))"
    and buf: "unat len + unat (pad_size (block_sz be) len) \<le> length buf"
    and total: "ext_size (extents (f_file st)) + unat len < 2 ^ 62"
  shows "\<exists>s buf' st'. BufferedAppend cfg be persist buf len st = Some (s, buf', st') \<and>
     (s = OK \<and> file_open be r st' \<and>
      file_bytes (content (world (f_dev st'))) (extents (f_file st'))
      = file_bytes (content (world (f_dev st))) (extents (f_file st)) @ take (unat len) buf \<or> s = IOError)"
proof (cases "len = 0")
  case True
  then show ?thesis
    using open1 by (simp add: BufferedAppend_def with_zone_def file_open_def Let_def BufferedAppend_loop.simps)
next
  case False
  let ?pad = "pad_size (block_sz be) len" and ?z = "zone_at (f_dev st) r" and ?n = "unat len"
  have o: "active_zone (f_file st) = Some r" "\<not> is_wal (f_file st)" "zone_valid (f_dev st) r" "zone_wf be ?z"
    using open1 by (simp_all add: file_open_def Let_def)
  have "?pad < block_sz be" by (rule pad_size_bound [OF b(1)])
  then have sum: "unat (len + ?pad) = ?n + unat ?pad"
    using b(2) by (simp add: unat_add_no_wrap word_less_nat_alt)
  have ws: "write_size cfg (f_file st) (z_capacity ?z) len = len"
    using room o(2) by (simp add: write_size_def Let_def word_less_nat_alt unat_ucast_up)
  define buf1 where "buf1 = take ?n buf @ replicate (unat ?pad) 0 @ drop (?n + unat ?pad) buf"
  have poke: "poke ?n (replicate (unat ?pad) 0) buf = Some buf1" using buf by (simp add: poke_def buf1_def)
  define data where "data = take ?n buf @ replicate (unat ?pad) 0"
  have data: "length data = ?n + unat ?pad" using buf by (simp add: data_def)
  have "take (?n + unat ?pad) buf1 = data" "?n + unat ?pad \<le> length buf1" using buf by (simp_all add: buf1_def data_def)
  then have peek: "peek 0 (unat (len + ?pad)) buf1 = Some data" by (simp add: peek_def sum)
  have fits: "length data \<le> unat (z_capacity ?z)" using room data by simp
  obtain s dev' m where a: "append_to be r data (f_dev st) = Some (s, dev')" "m \<le> length data"
      "zone_at dev' r = advance (int m) ?z" "\<forall>r'. r' \<noteq> r \<longrightarrow> zone_at dev' r' = zone_at (f_dev st) r'"
      "\<forall>r'. zone_valid dev' r' = zone_valid (f_dev st) r'"
      "s = OK \<and> m = length data \<and> content (world dev') = blit (content (world (f_dev st))) (z_wp ?z) data \<or> s = IOError"
    using append_to_spec [OF law o(4) o(3) fits] by (elim exE conjE) (rule that)
  let ?st = "record_extent r (extent_start (f_file st)) (ucast len) (st\<lparr>f_dev := dev'\<rparr>)"
  have step: "BufferedAppend_step cfg be persist buf len st
    = (if \<not> ok s then Some (s, buf1, len, st\<lparr>f_dev := dev'\<rparr>) else next_zone be persist 0 len buf1 0 r ?st)"
    using o(2) by (simp add: BufferedAppend_step_def o(1) ws poke peek a(1) Let_def)
  have run: "BufferedAppend cfg be persist buf len st = BufferedAppend_loop cfg be persist buf len st"
    using o(1) by (simp add: BufferedAppend_def with_zone_def)
  show ?thesis
  proof (cases "ok s")
    case False
    then have "s = IOError" using a(6) by auto
    then show ?thesis
      unfolding run using \<open>len \<noteq> 0\<close> by (simp add: BufferedAppend_loop.simps [of cfg be persist buf len st] step)
  next
    case True
    then have m: "m = length data" "content (world dev') = blit (content (world (f_dev st))) (z_wp ?z) data" using a(6) by auto
    have uc: "(ucast len :: u64) = of_nat ?n" by simp
    have mc: "m \<le> unat (z_capacity ?z)" and nm: "?n \<le> m" using m(1) fits data by simp_all
    have rec: "file_open be r ?st" "world (f_dev ?st) = world dev'"
        "file_bytes (content (world dev')) (extents (f_file ?st))
         = file_bytes (content (world (f_dev st))) (extents (f_file st)) @ take ?n data"
      using record_extent_open [OF open1 total a(3,5) nm mc m(2) m(1) [symmetric]] unfolding uc by simp_all
    have v: "zone_valid dev' r" using a(5) o(3) by simp
    have "zone_at (f_dev ?st) r = (advance (int m) ?z)\<lparr>z_used_capacity := z_used_capacity (advance (int m) ?z) + ucast len\<rparr>"
      by (simp add: record_extent_def upd_dev_def upd_file_def add_used_at [OF v] a(3))
    then have "unat (z_capacity (zone_at (f_dev ?st) r)) = unat (z_capacity ?z) - m"
      using zone_wf_advance(3) [OF o(4) mc] by (simp add: advance_nat)
    then have "z_capacity (zone_at (f_dev ?st) r) \<noteq> 0" using room m(1) data by auto
    then have "next_zone be persist 0 len buf1 0 r ?st = Some (OK, buf1, 0, ?st)" by (simp add: next_zone_def)
    then have "BufferedAppend cfg be persist buf len st = Some (OK, buf1, ?st)"
      unfolding run using \<open>len \<noteq> 0\<close> True
      by (simp add: BufferedAppend_loop.simps [of cfg be persist buf len st] step BufferedAppend_loop.simps [of cfg be persist buf1 0])
    then show ?thesis using rec buf by (simp add: data_def)
  qed
qed

section \<open>Properties\<close>

text \<open>A file with one extent of three bytes in the first zone, open for writing.\<close>

definition sample_file :: ZoneFile where
  "sample_file = (newZoneFile 5)\<lparr>linkfiles := [str ''/7.sst''],
     extents := [\<lparr> e_start = 0, e_length = 3, e_zone = IoZ 0 \<rparr>], file_size := 3, active_zone := Some (IoZ 0),
     extent_start := 4096\<rparr>"

lemma sample_plain: "plain_file sample_file"
  by (simp add: plain_file_def sample_file_def extents_ok_def newZoneFile_def, code_simp)

definition sample_dev :: "(u64 \<Rightarrow> byte) zbd" where
  "sample_dev = two_zone_dev\<lparr>io_zones :=
     [\<lparr> z_busy = True, z_start = 0, z_capacity = 12288, z_max_capacity = 16384, z_wp = 4096,
        z_lifetime = WLTH_MEDIUM, z_used_capacity = 3 \<rparr>], world := (\<lambda>a. ucast a + 7)\<rparr>"

lemma sample_open:
  "file_open (ram_backend 16384) (IoZ 0) \<lparr> f_file = sample_file, f_dev = sample_dev, f_meta = () \<rparr>"
  using sample_plain
  by (simp add: file_open_def Let_def zone_wf_def away_def sample_dev_def ram_backend_def)
    (simp add: sample_file_def newZoneFile_def)

lemma sample_bytes: "file_bytes (world sample_dev) (extents sample_file) = [7, 8, 9]"
  by (simp add: sample_file_def sample_dev_def ext_bytes_def bytes_at_def upt_rec newZoneFile_def)





text \<open>
  C16. The sizes a round of \<^verbatim>\<open>BufferedAppend\<close> and \<^verbatim>\<open>SparseAppend\<close> computes. The part that is written never
  exceeds the data, the capacity of the zone or, in a write-ahead log, the distance to the next
  barrier; the padding is less than a block and completes the last block; and the padded write still
  fits, so \<^verbatim>\<open>Zone::Append\<close> is never asked for more than the zone holds. As long as there is data, capacity
  and, in a log, distance left, something is written, so the loop makes progress.
\<close>

theorem padded_write_bounds:
  assumes b: "b \<noteq> 0" "unat want + unat b < 2 ^ 32" and cap: "unat cap mod unat b = 0"
    and wr: "wr = write_size cfg zf cap want" and pad: "pad = pad_size b wr"
  shows "wr \<le> want \<and> unat wr \<le> unat cap \<and>
     (is_wal zf \<longrightarrow> unat wr \<le> unat (barrier cfg - append_bytes_since_last_barrier zf)) \<and>
     unat pad < unat b \<and> unat (wr + pad) = unat wr + unat pad \<and> (unat wr + unat pad) mod unat b = 0 \<and>
     unat wr + unat pad \<le> unat cap \<and>
     (want \<noteq> 0 \<and> cap \<noteq> 0 \<and> (is_wal zf \<longrightarrow> barrier cfg \<noteq> append_bytes_since_last_barrier zf) \<longrightarrow> wr \<noteq> 0)"
proof -
  let ?room = "barrier cfg - append_bytes_since_last_barrier zf"
  note uwr = write_size_nat [of cfg zf cap want, folded wr]
  have le: "unat wr \<le> unat want" "unat wr \<le> unat cap" and room: "is_wal zf \<longrightarrow> unat wr \<le> unat ?room"
    unfolding uwr by (simp_all add: min.coboundedI1)
  have pb: "unat pad < unat b" using pad_size_bound [OF b(1), of wr] by (simp add: pad word_less_nat_alt)
  have whole: "(unat wr + unat pad) mod unat b = 0" unfolding pad by (rule pad_size_whole [OF b(1)])
  have fits: "unat wr + unat pad \<le> unat cap"
  proof (rule ccontr)
    assume over: "\<not> unat wr + unat pad \<le> unat cap"
    have "unat b dvd (unat wr + unat pad) - unat cap"
      using whole cap by (intro dvd_diff_nat) (simp_all add: mod_eq_0_iff_dvd)
    then have "unat b \<le> (unat wr + unat pad) - unat cap" using over by (intro dvd_imp_le) simp_all
    then show False using le(2) pb over by simp
  qed
  have sum: "unat (wr + pad) = unat wr + unat pad"
    using le(1) pb b(2) by (subst unat_add_no_wrap) simp_all
  have progress: "wr \<noteq> 0" if "want \<noteq> 0" "cap \<noteq> 0" "is_wal zf \<longrightarrow> barrier cfg \<noteq> append_bytes_since_last_barrier zf"
  proof -
    have "0 < unat want" "0 < unat cap" using that by (simp_all add: unat_gt_0)
    moreover have "is_wal zf \<longrightarrow> 0 < unat ?room" using that(3) by (simp add: unat_gt_0)
    ultimately have "0 < unat wr" unfolding uwr by simp
    then show ?thesis by auto
  qed
  show ?thesis using le pb whole fits sum progress room by (simp add: word_le_nat_alt)
qed

theorem padded_write_bounds_witness:
  "unat (write_size \<lparr> SPARSE_BUFFER_SIZE_IN_KB = 1024, WAL_BARRIER_SIZE_IN_KB = 256 \<rparr> sample_file 8192 5000) = 5000 \<and>
   (unat (write_size \<lparr> SPARSE_BUFFER_SIZE_IN_KB = 1024, WAL_BARRIER_SIZE_IN_KB = 256 \<rparr> sample_file 8192 5000)
    + unat (pad_size 4096 (write_size \<lparr> SPARSE_BUFFER_SIZE_IN_KB = 1024, WAL_BARRIER_SIZE_IN_KB = 256 \<rparr> sample_file 8192 5000))) mod 4096 = 0"
  using padded_write_bounds [of 4096 5000 8192 _ "\<lparr> SPARSE_BUFFER_SIZE_IN_KB = 1024, WAL_BARRIER_SIZE_IN_KB = 256 \<rparr>" sample_file, OF _ _ _ refl refl]
  by (simp add: write_size_def sample_file_def newZoneFile_def)

end
