(* ===== verification/Zone_Life.thy ===== *)
theory Zone_Life
  imports Zbd_Alloc
begin

text \<open>
  The life of a zone: every zone the code can get by its operations from a zone of the report is
  well-formed. And the wait for an active-zone token: when it ends.
\<close>

section \<open>Reachable zones\<close>

text \<open>A report a device may give of zone \<open>i\<close>.\<close>

definition sane_report :: "'d backend \<Rightarrow> 'z zone_report \<Rightarrow> 'z list \<Rightarrow> nat \<Rightarrow> bool" where
  "sane_report be rep zs i \<longleftrightarrow>
     unat (ZoneStart rep zs i) + unat (zone_sz be) < 2 ^ 64 \<and>
     ZoneStart rep zs i \<le> ZoneWp rep zs i \<and>
     unat (ZoneWp rep zs i) \<le> unat (ZoneStart rep zs i) + unat (zone_sz be) \<and>
     ZoneMaxCapacity rep zs i \<le> zone_sz be \<and>
     (ZoneIsWritable rep zs i \<longrightarrow>
        unat (ZoneWp rep zs i) - unat (ZoneStart rep zs i) \<le> unat (ZoneMaxCapacity rep zs i))"

definition reset_law :: "'d backend \<Rightarrow> bool" where
  "reset_law be \<longleftrightarrow> (\<forall>start d offline cap d'. be_Reset be start d = ((OK, offline, cap), d') \<longrightarrow> cap \<le> zone_sz be)"

inductive zone_reach :: "'d backend \<Rightarrow> 'z zone_report \<Rightarrow> 'z list \<Rightarrow> Zone \<Rightarrow> bool"
  for be :: "'d backend" and rep :: "'z zone_report" and zs :: "'z list" where
  new: "sane_report be rep zs i \<Longrightarrow> zone_reach be rep zs (newZone rep zs i)"
| reset: "zone_reach be rep zs z \<Longrightarrow> Zone_Reset be z d = (s, z', d') \<Longrightarrow> zone_reach be rep zs z'"
| finish: "zone_reach be rep zs z \<Longrightarrow> Zone_Finish be z d = (s, z', d') \<Longrightarrow> zone_reach be rep zs z'"
| close: "zone_reach be rep zs z \<Longrightarrow> Zone_Close be z d = (s, z', d') \<Longrightarrow> zone_reach be rep zs z'"
| append: "zone_reach be rep zs z \<Longrightarrow> length data < 2 ^ 32 \<Longrightarrow> Zone_Append be data z w d = Some (s, z', w', d') \<Longrightarrow>
    zone_reach be rep zs z'"
| zone_append: "zone_reach be rep zs z \<Longrightarrow> length data < 2 ^ 32 \<Longrightarrow> ZoneAppend be data h z w d = (s, z', w', d') \<Longrightarrow>
    zone_reach be rep zs z'"
| acquire: "zone_reach be rep zs z \<Longrightarrow> zone_reach be rep zs (snd (Acquire z))"
| release: "zone_reach be rep zs z \<Longrightarrow> zone_reach be rep zs (snd (Release z))"
| used: "zone_reach be rep zs z \<Longrightarrow> zone_reach be rep zs (z\<lparr>z_used_capacity := n\<rparr>)"
| lifetime: "zone_reach be rep zs z \<Longrightarrow> zone_reach be rep zs (z\<lparr>z_lifetime := l\<rparr>)"

lemma zone_wf_Close: "zone_wf be z \<Longrightarrow> Zone_Close be z d = (s, z', d') \<Longrightarrow> zone_wf be z'"
  by (auto simp: Zone_Close_def split: if_splits prod.splits)

text \<open>Whatever the backend answers, a count that is not larger than the data keeps the zone well-formed.\<close>

lemma zone_wf_Append_loop:
  assumes "Zone_Append_loop be data z w d = Some res"
  shows "zone_wf be z \<and> length data \<le> unat (z_capacity z) \<longrightarrow> zone_wf be (fst (snd res))"
proof (rule Zone_Append_loop.raw_induct [OF _ assms,
      where P = "\<lambda>e data z w d res. e = be \<longrightarrow> zone_wf be z \<and> length data \<le> unat (z_capacity z) \<longrightarrow> zone_wf be (fst (snd res))",
      THEN mp, OF _ refl], intro impI)
  fix loop e data z w d res
  assume IH: "\<And>e data z w d res. loop e data z w d = Some res \<Longrightarrow>
      e = be \<longrightarrow> zone_wf be z \<and> length data \<le> unat (z_capacity z) \<longrightarrow> zone_wf be (fst (snd res))"
    and run: "(if data = [] then Some (OK, z, w, d)
        else let rd = be_Write e data (z_wp z) d; ret = fst rd in
             if ret < 0 then Some (IOError, z, w, snd rd)
             else if nat ret > length data then None
             else loop e (drop (nat ret) data) (advance ret z) (w + of_int ret) (snd rd)) = Some res"
    and e: "e = be" and wf: "zone_wf be z \<and> length data \<le> unat (z_capacity z)"
  obtain ret d1 where rd: "be_Write be data (z_wp z) d = (ret, d1)" by force
  show "zone_wf be (fst (snd res))"
  proof (cases "data \<noteq> [] \<and> 0 \<le> ret \<and> nat ret \<le> length data")
    case True
    then have n: "nat ret \<le> unat (z_capacity z)" using wf by simp
    have adv: "advance ret z = advance (int (nat ret)) z" using True by simp
    note keep = zone_wf_advance [OF conjunct1 [OF wf] n]
    have "loop be (drop (nat ret) data) (advance ret z) (w + of_int ret) d1 = Some res"
      using run True by (simp add: e rd Let_def not_less)
    from IH [OF this] show ?thesis
      using keep wf unfolding adv advance_nat by auto
  next
    case False
    then show ?thesis using run wf by (auto simp: e rd Let_def split: if_splits)
  qed
qed

lemma zone_wf_Append:
  assumes "zone_wf be z" and "length data < 2 ^ 32" and "Zone_Append be data z w d = Some (s, z', w', d')"
  shows "zone_wf be z'"
proof (cases "z_capacity z < of_nat (length data)")
  case True
  then show ?thesis using assms by (simp add: Zone_Append_def)
next
  case False
  have "unat (of_nat (length data) :: u64) = length data" by (rule unat_of_nat_small) (use assms(2) in simp)
  then have "length data \<le> unat (z_capacity z)" using False by (simp add: word_less_nat_alt)
  then show ?thesis
    using zone_wf_Append_loop [of be data z w d "(s, z', w', d')"] assms False by (simp add: Zone_Append_def)
qed

lemma zone_wf_ZoneAppend:
  assumes "zone_wf be z" and "length data < 2 ^ 32" and "ZoneAppend be data h z w d = (s, z', w', d')"
  shows "zone_wf be z'"
proof (cases "z_capacity z < of_nat (length data)")
  case True
  then show ?thesis using assms by (simp add: ZoneAppend_def Let_def)
next
  case False
  have "unat (of_nat (length data) :: u64) = length data" by (rule unat_of_nat_small) (use assms(2) in simp)
  then have "length data \<le> unat (z_capacity z)" using False by (simp add: word_less_nat_alt)
  from zone_wf_advance(1) [OF assms(1) this] show ?thesis
    using assms(1,3) False by (auto simp: ZoneAppend_def Let_def split: if_splits prod.splits)
qed

lemma zone_reach_zone_wf:
  assumes "reset_law be"
  shows "zone_reach be rep zs z \<Longrightarrow> zone_wf be z"
proof (induction rule: zone_reach.induct)
  case (new i)
  then show ?case by (intro zone_wf_newZone) (simp_all add: sane_report_def)
next
  case (reset z d s z' d')
  have "cap \<le> zone_sz be" if "be_Reset be (z_start z) d = ((OK, offline, cap), e)" for offline cap e
    using assms that unfolding reset_law_def by blast
  then show ?case by (rule zone_wf_Reset [OF reset.IH reset.hyps(2)])
next
  case (append z data w d s z' w' d')
  show ?case by (rule zone_wf_Append [OF append.IH append.hyps(2,3)])
next
  case (zone_append z data h w d s z' w' d')
  show ?case by (rule zone_wf_ZoneAppend [OF zone_append.IH zone_append.hyps(2,3)])
next
  case (acquire z)
  then show ?case by (simp add: Acquire_def)
next
  case (release z)
  then show ?case by (simp add: Release_def)
next
  case (finish z d s z' d')
  show ?case by (rule zone_wf_Finish [OF finish.IH finish.hyps(2)])
next
  case (close z d s z' d')
  show ?case by (rule zone_wf_Close [OF close.IH close.hyps(2)])
qed simp_all

section \<open>Waiting for a token\<close>

definition token_free :: "'d zbd \<Rightarrow> bool" where
  "token_free dev \<longleftrightarrow> active_io_zones dev < uint (max_nr_active_io_zones dev)"

text \<open>With no token free and no zone that could be finished the loop goes round in the same state.\<close>

lemma FinishCheapestIOZone_idle:
  assumes "\<forall>j. \<not> finishable (io_zones dev) j"
  shows "FinishCheapestIOZone be dev = (OK, dev)"
proof -
  obtain v where run: "FinishCheapestIOZone_loop [0..<length (io_zones dev)] (io_zones dev) None = (OK, hold (io_zones dev) v, v)"
      and best: "\<And>k. v = Some k \<Longrightarrow> cheapest (io_zones dev) k"
    using FinishCheapestIOZone_loop_run [of "io_zones dev"] by metis
  have "v = None" using assms best by (cases v) (auto simp: cheapest_def)
  then show ?thesis using run by (simp add: FinishCheapestIOZone_def)
qed

lemma WaitForActiveToken_stuck:
  assumes "\<not> token_free dev" and "\<forall>j. \<not> finishable (io_zones dev) j"
  shows "WaitForActiveToken be dev = None"
proof (rule ccontr)
  assume "WaitForActiveToken be dev \<noteq> None"
  then obtain res where run: "WaitForActiveToken be dev = Some res" by blast
  have "dev \<noteq> dev"
  proof (rule WaitForActiveToken.raw_induct [OF _ run, where P = "\<lambda>_ d _. d \<noteq> dev"])
    fix wait e d r
    assume IH: "\<And>e d r. wait e d = Some r \<Longrightarrow> d \<noteq> dev"
      and run: "(let gt = GetActiveIOZoneTokenIfAvailable d in
          if fst gt then Some (OK, snd gt)
          else let fr = FinishCheapestIOZone e (snd gt) in
               if \<not> ok (fst fr) then Some fr else wait e (snd fr)) = Some r"
    show "d \<noteq> dev"
    proof
      assume d: "d = dev"
      have "wait e dev = Some r"
        using run assms FinishCheapestIOZone_idle [OF assms(2)]
        by (simp add: d GetActiveIOZoneTokenIfAvailable_def token_free_def)
      from IH [OF this] show False by simp
    qed
  qed
  then show False by simp
qed

text \<open>One round is enough when a zone can be finished.\<close>

lemma WaitForActiveToken_round:
  assumes fin: "\<forall>start d. fst (be_Finish be start d) = OK"
    and le: "active_io_zones dev \<le> uint (max_nr_active_io_zones dev)" and j: "finishable (io_zones dev) j"
  shows "\<exists>dev'. WaitForActiveToken be dev = Some (OK, dev')"
proof (cases "token_free dev")
  case True
  then show ?thesis
    by (subst WaitForActiveToken.simps) (simp add: token_free_def GetActiveIOZoneTokenIfAvailable_def Let_def)
next
  case False
  obtain v where run: "FinishCheapestIOZone_loop [0..<length (io_zones dev)] (io_zones dev) None = (OK, hold (io_zones dev) v, v)"
      and best: "\<And>k. v = Some k \<Longrightarrow> cheapest (io_zones dev) k" and none: "v = None \<Longrightarrow> (\<forall>j. \<not> finishable (io_zones dev) j)"
    using FinishCheapestIOZone_loop_run [of "io_zones dev"] by metis
  obtain k where v: "v = Some k" using none j by (cases v) auto
  then have k: "k < length (io_zones dev)" "\<not> z_busy (io_zones dev ! k)" using best by (auto simp: cheapest_def finishable_def)
  obtain d where d: "be_Finish be (z_start (io_zones dev ! k)) (world dev) = (OK, d)" using fin by (metis prod.collapse)
  obtain dev1 where f: "FinishCheapestIOZone be dev = (OK, dev1)" "active_io_zones dev1 = active_io_zones dev - 1"
      "max_nr_active_io_zones dev1 = max_nr_active_io_zones dev"
    using run v k d by (simp add: FinishCheapestIOZone_def Zone_Finish_def Let_def PutActiveIOZoneToken_def)
  have "token_free dev1" using le f by (simp add: token_free_def)
  then show ?thesis
    using False f(1)
    by (subst WaitForActiveToken.simps, subst WaitForActiveToken.simps)
      (simp add: token_free_def GetActiveIOZoneTokenIfAvailable_def Let_def)
qed

section \<open>Properties\<close>

text \<open>
  C15. Whatever sequence of operations a zone goes through, starting from the zone of a report, with a
  backend that answers what it likes to writes and appends: the write pointer stays inside the zone,
  what is left of the capacity never reaches over its end, and the capacity and the write pointer
  agree unless the zone is full.
\<close>

theorem zone_reach_wf:
  assumes "reset_law be" and "zone_reach be rep zs z"
  shows "zone_wf be z \<and> unat (z_start z) \<le> unat (z_wp z) \<and>
     unat (z_wp z) + unat (z_capacity z) \<le> unat (z_start z) + unat (zone_sz be)"
proof (intro conjI)
  show wf: "zone_wf be z" by (rule zone_reach_zone_wf [OF assms])
  then show "unat (z_start z) \<le> unat (z_wp z)" by (simp add: zone_wf_def)
  show "unat (z_wp z) + unat (z_capacity z) \<le> unat (z_start z) + unat (zone_sz be)"
    by (rule zone_wf_wp_capacity [OF wf])
qed

theorem zone_reach_wf_witness:
  "zone_wf (ram_backend 8192) (snd (Acquire (newZone
       \<lparr> ZoneIsSwr = \<lambda>_ _. True, ZoneIsOffline = \<lambda>_ _. False, ZoneIsWritable = \<lambda>_ _. True,
         ZoneIsActive = \<lambda>_ _. False, ZoneIsOpen = \<lambda>_ _. False, ZoneStart = \<lambda>_ i. of_nat i * 8192,
         ZoneMaxCapacity = \<lambda>_ _. 4096, ZoneWp = \<lambda>_ i. of_nat i * 8192 + 512 \<rparr> [(), ()] 1)))"
proof -
  let ?rep = "\<lparr> ZoneIsSwr = \<lambda>_ _. True, ZoneIsOffline = \<lambda>_ _. False, ZoneIsWritable = \<lambda>_ _. True,
         ZoneIsActive = \<lambda>_ _. False, ZoneIsOpen = \<lambda>_ _. False, ZoneStart = \<lambda>_ i. of_nat i * 8192,
         ZoneMaxCapacity = \<lambda>_ _. 4096, ZoneWp = \<lambda>_ i. of_nat i * 8192 + 512 \<rparr>"
  have "reset_law (ram_backend 8192)" by (simp add: reset_law_def ram_backend_def)
  moreover have "sane_report (ram_backend 8192) ?rep [(), ()] 1"
    by (simp add: sane_report_def ram_backend_def word_le_nat_alt)
  then have "zone_reach (ram_backend 8192) ?rep [(), ()] (snd (Acquire (newZone ?rep [(), ()] 1)))"
    by (intro zone_reach.acquire zone_reach.new)
  ultimately show ?thesis using zone_reach_wf by blast
qed



end
