(* ===== verification/Wal_Recovery.thy ===== *)
theory Wal_Recovery
  imports Wal "HOL-Library.Multiset"
begin

text \<open>
  What reading a write-ahead log returns. The records of a chunk may be on the device in any order;
  the result is the same as if they had been written one after the other.
\<close>

section \<open>Chunks\<close>

text \<open>A record on the device, without padding.\<close>

definition wal_record :: "u64 \<times> bytes \<Rightarrow> bytes" where
  "wal_record e = EncodeFixed64 (of_nat (length (snd e))) @ EncodeFixed64 (fst e) @ snd e"

lemma length_wal_record [simp]: "length (wal_record e) = 16 + length (snd e)"
  by (simp add: wal_record_def)

text \<open>
  The end of a chunk: nothing, or padding. The header of what follows the last record is decoded in
  any case, so padding must be long enough to hold one.
\<close>

definition chunk_tail :: "bytes \<Rightarrow> bool" where
  "chunk_tail t \<longleftrightarrow> t = [] \<or> (\<exists>q. t = EncodeFixed64 0 @ q \<and> 8 \<le> length q)"

lemma chunk_tail_padding:
  assumes "16 \<le> n"
  shows "chunk_tail (replicate n 0 @ q)"
proof -
  have "replicate n (0 :: byte) = replicate 8 0 @ replicate (n - 8) 0"
    using assms by (simp add: replicate_add [symmetric])
  moreover have "replicate 8 0 = EncodeFixed64 0" by code_simp
  ultimately show ?thesis using assms unfolding chunk_tail_def by auto
qed

lemma unat_wal_header_sz [simp]: "unat wal_header_sz = 16" "wal_header_sz = 16"
  by (simp_all add: wal_header_sz_def SPARSE_HEADER_SIZE_def SPARSE_WAL_HEADER_SIZE_def)

lemma decode_wal_record:
  assumes "length (snd e) < 2 ^ 64"
  shows "DecodeFixed64 (wal_record e @ q) = of_nat (length (snd e))"
    and "DecodeFixed64 (drop 8 (wal_record e) @ q) = fst e"
    and "peek 16 (length (snd e)) (wal_record e @ q) = Some (snd e)"
    and "drop (length (snd e) + 16) (wal_record e @ q) = q"
  by (simp_all add: wal_record_def DecodeFixed64_Encode peek_def)

definition entry_ok :: "bool \<Rightarrow> u64 \<times> bytes \<Rightarrow> bool" where
  "entry_ok later e \<longleftrightarrow> snd e \<noteq> [] \<and> length (snd e) < 2 ^ 32 \<and> (later \<longrightarrow> fst e \<noteq> 0)"

lemma RecoverWALChunk_loop_records:
  assumes "\<forall>e \<in> set ps. entry_ok later e" and "chunk_tail t"
    and "unat r + length (concat (map wal_record ps) @ t) = unat str_size" and "br \<le> r"
  shows "\<exists>r'. RecoverWALChunk_loop later str_size (concat (map wal_record ps) @ t) r br = Some (r', ps) \<and>
           r' \<le> str_size"
  using assms(1,3,4)
proof (induction ps arbitrary: r br)
  case Nil
  show ?case
  proof (cases "t = []")
    case True
    then have "\<not> r < str_size" using Nil.prems by (simp add: word_less_nat_alt)
    then show ?thesis
      using True Nil.prems by (simp add: RecoverWALChunk_loop.simps word_le_nat_alt)
  next
    case False
    then obtain q where t: "t = EncodeFixed64 0 @ q" "8 \<le> length q"
      using assms(2) by (auto simp: chunk_tail_def)
    have "DecodeFixed64 t = 0" using t by (simp add: DecodeFixed64_Encode)
    moreover have "r < str_size" "br < str_size"
      using Nil.prems t by (auto simp: word_less_nat_alt word_le_nat_alt)
    ultimately show ?thesis
      using t by (simp add: RecoverWALChunk_loop.simps Let_def)
  qed
next
  case (Cons e ps)
  let ?n = "length (snd e)" and ?rest = "concat (map wal_record ps) @ t"
  have ok: "snd e \<noteq> []" "?n < 2 ^ 32" "later \<longrightarrow> fst e \<noteq> 0"
    using Cons.prems(1) by (auto simp: entry_ok_def)
  have n: "?n < 2 ^ 64" using ok(2) by simp
  have un: "unat (of_nat ?n :: u64) = ?n" using n by (simp add: unat_of_nat_small)
  have sz: "unat r + 16 + ?n + length ?rest = unat str_size" using Cons.prems(2) by simp
  have lt: "r < str_size" "br < str_size"
    using sz Cons.prems(3) by (auto simp: word_less_nat_alt word_le_nat_alt)
  have len: "unat (of_nat ?n + 16 :: u64) = ?n + 16"
    using n ok(2) by (subst unat_add_no_wrap) (simp_all add: un)
  have r1: "unat (r + (of_nat ?n + 16)) = unat r + ?n + 16"
    using sz unat_lt2p [of str_size] by (subst unat_add_no_wrap) (simp_all add: len)
  have "br + of_nat ?n \<le> r + (of_nat ?n + 16)"
  proof -
    have "unat br + ?n < 2 ^ 64"
      using sz unat_lt2p [of str_size] Cons.prems(3) by (simp add: word_le_nat_alt)
    then have "unat (br + of_nat ?n) = unat br + ?n"
      by (subst unat_add_no_wrap) (simp_all add: un)
    then show ?thesis using r1 Cons.prems(3) by (simp add: word_le_nat_alt)
  qed
  moreover have "unat (r + (of_nat ?n + 16)) + length ?rest = unat str_size"
    using sz r1 by simp
  ultimately obtain r' where IH: "RecoverWALChunk_loop later str_size ?rest (r + (of_nat ?n + 16)) (br + of_nat ?n)
      = Some (r', ps)" "r' \<le> str_size"
    using Cons.IH [of "r + (of_nat ?n + 16)" "br + of_nat ?n"] Cons.prems(1) by auto
  have data: "concat (map wal_record (e # ps)) @ t = wal_record e @ ?rest" by simp
  have "of_nat ?n \<noteq> (0 :: u64)" using ok(1) un by (metis length_0_conv unat_0)
  then have "RecoverWALChunk_loop later str_size (wal_record e @ ?rest) r br = Some (r', e # ps)"
    unfolding RecoverWALChunk_loop.simps [of later str_size "wal_record e @ ?rest"]
    using lt ok(3) IH(1) by (simp add: Let_def decode_wal_record [OF n] un) blast
  then show ?case unfolding data using IH(2) by blast
qed

lemma sort_key_unique:
  assumes "mset ps = mset rs" and "sorted_wrt (<) (map fst rs)"
  shows "sort_key fst ps = rs"
proof (rule sort_key_inj_key_eq)
  show "mset ps = mset rs" by (rule assms)
  have "distinct (map fst rs)" using assms(2) by (simp add: strict_sorted_iff)
  then show "inj_on fst (set ps)"
    using assms(1) by (metis distinct_map mset_eq_setD)
  show "sorted (map fst rs)" using assms(2) by (simp add: strict_sorted_iff)
qed

lemma RecoverWALChunk_order:
  assumes rs: "sorted_wrt (<) (map fst rs)" and ps: "mset ps = mset rs" and t: "chunk_tail t"
    and rd: "szd_Read be h (drop_bit (block_shift be) begin) (unat (end - begin)) (world dev)
               = (Some (concat (map wal_record ps) @ t), d)"
    and len: "length (concat (map wal_record ps) @ t) = unat (end - begin)"
    and ok: "\<forall>e \<in> set rs. entry_ok (begin > push_bit (block_shift be) (szd_GetWriteTail be h d)) e"
  shows "RecoverWALChunk be h begin end dev = Some (OK, rs, dev\<lparr>world := d\<rparr>)"
proof -
  let ?later = "begin > push_bit (block_shift be) (szd_GetWriteTail be h d)"
  have "\<forall>e \<in> set ps. entry_ok ?later e" using ok ps by (metis mset_eq_setD)
  then obtain r' where "RecoverWALChunk_loop ?later (end - begin) (concat (map wal_record ps) @ t) 0 0 = Some (r', ps)"
      "r' \<le> end - begin"
    using RecoverWALChunk_loop_records [of ps ?later t 0 "end - begin" 0] t len by auto
  then show ?thesis
    by (simp add: RecoverWALChunk_def Let_def rd sort_key_unique [OF ps rs])
qed

section \<open>A log on the device\<close>

text \<open>
  The once-log \<open>h\<close> holds the records \<open>chunks\<close>, chunk by chunk: the records of a chunk in some order,
  followed by padding; between the write tail and the write head there is nothing else.
\<close>

definition log_holds ::
    "config \<Rightarrow> 'd backend \<Rightarrow> nat \<Rightarrow> 'd \<Rightarrow> (u64 \<times> bytes) list list \<Rightarrow> bool" where
  "log_holds cfg be h d chunks \<longleftrightarrow>
     (\<forall>k < length chunks.
        case chunk_bounds cfg be h (of_nat k) d of (lo, hi) \<Rightarrow>
          lo < hi \<and> chunks ! k \<noteq> [] \<and> sorted_wrt (<) (map fst (chunks ! k)) \<and>
          (\<forall>e \<in> set (chunks ! k). entry_ok (lo > push_bit (block_shift be) (szd_GetWriteTail be h d)) e) \<and>
          (\<exists>ps t. mset ps = mset (chunks ! k) \<and> chunk_tail t \<and>
             length (concat (map wal_record ps) @ t) = unat (hi - lo) \<and>
             szd_Read be h (drop_bit (block_shift be) lo) (unat (hi - lo)) d
               = (Some (concat (map wal_record ps) @ t), d))) \<and>
     (case chunk_bounds cfg be h (of_nat (length chunks)) d of (lo, hi) \<Rightarrow> lo \<ge> hi)"

definition size_of :: "(u64 \<times> bytes) list \<Rightarrow> nat" where
  "size_of es = length (concat (map snd es))"

lemma size_of_simps [simp]: "size_of [] = 0" "size_of (e # es) = length (snd e) + size_of es"
  "size_of (es @ fs) = size_of es + size_of fs"
  by (simp_all add: size_of_def)

lemma entries_size_of: "entries_size es = of_nat (size_of es)"
proof -
  have "fold (\<lambda>e n. n + of_nat (length (snd e))) es m = m + of_nat (size_of es)" for m :: u64
    by (induction es arbitrary: m) (simp_all add: add.assoc)
  from this [of 0] show ?thesis by (simp add: entries_size_def)
qed

text \<open>The file with the first \<open>k\<close> chunks read, the last of them loaded.\<close>

definition loaded :: "(u64 \<times> bytes) list list \<Rightarrow> nat \<Rightarrow> ZoneFile \<Rightarrow> ZoneFile" where
  "loaded chunks k zf =
     zf\<lparr>chunk_entries := chunks ! (k - 1), chunk_start := of_nat (size_of (concat (take (k - 1) chunks))),
        chunk_end := of_nat (size_of (concat (take k chunks))),
        chunk_jump := of_nat (length (concat (take (k - 1) chunks))), chunk_id := of_nat k\<rparr>"

lemma RecoverWALChunk_holds:
  assumes "log_holds cfg be h (world dev) chunks" and "k < length chunks"
    and "chunk_bounds cfg be h (of_nat k) (world dev) = (lo, hi)"
  shows "lo < hi" "RecoverWALChunk be h lo hi dev = Some (OK, chunks ! k, dev)"
proof -
  have "lo < hi" "sorted_wrt (<) (map fst (chunks ! k))"
    "\<forall>e \<in> set (chunks ! k). entry_ok (lo > push_bit (block_shift be) (szd_GetWriteTail be h (world dev))) e"
    "\<exists>ps t. mset ps = mset (chunks ! k) \<and> chunk_tail t \<and>
       length (concat (map wal_record ps) @ t) = unat (hi - lo) \<and>
       szd_Read be h (drop_bit (block_shift be) lo) (unat (hi - lo)) (world dev)
         = (Some (concat (map wal_record ps) @ t), world dev)"
    using assms(1) [unfolded log_holds_def, THEN conjunct1, rule_format, OF assms(2)]
    unfolding assms(3) prod.case by blast+
  then show "lo < hi" "RecoverWALChunk be h lo hi dev = Some (OK, chunks ! k, dev)"
    using RecoverWALChunk_order [of "chunks ! k" _ _ be h lo hi dev "world dev"] by auto
qed

lemma load_first:
  assumes "log_holds cfg be h (world dev) chunks" and "chunks \<noteq> []"
    and "chunk_entries zf = []" "chunk_end zf = 0" "chunk_jump zf = 0" "chunk_id zf = 0"
  shows "load_chunk cfg be h zf dev = Some (OK, False, loaded chunks 1 zf, dev)"
proof -
  obtain lo hi where b: "chunk_bounds cfg be h 0 (world dev) = (lo, hi)" by force
  have "chunk_bounds cfg be h (of_nat 0) (world dev) = (lo, hi)" using b by simp
  note r = RecoverWALChunk_holds [OF assms(1) _ this]
  have "concat (take 1 chunks) = chunks ! 0" using assms(2) by (cases chunks) simp_all
  then show ?thesis
    using r assms b by (simp add: load_chunk_def loaded_def entries_size_of)
qed

lemma load_next:
  assumes "log_holds cfg be h (world dev) chunks" and "0 < k" "k < length chunks"
  shows "load_chunk cfg be h (loaded chunks k zf) dev = Some (OK, False, loaded chunks (Suc k) zf, dev)"
proof -
  obtain lo hi where b: "chunk_bounds cfg be h (of_nat k) (world dev) = (lo, hi)" by force
  note r = RecoverWALChunk_holds [OF assms(1,3) b]
  have "concat (take (Suc k) chunks) = concat (take k chunks) @ chunks ! k"
    using assms(3) by (simp add: take_Suc_conv_app_nth)
  moreover have "concat (take k chunks) = concat (take (k - 1) chunks) @ chunks ! (k - 1)"
    using assms(2,3) take_Suc_conv_app_nth [of "k - 1" chunks] by simp
  ultimately show ?thesis
    using r b by (simp add: load_chunk_def loaded_def entries_size_of)
qed

lemma load_end:
  assumes "log_holds cfg be h (world dev) chunks"
  shows "load_chunk cfg be h (loaded chunks (length chunks) zf) dev
           = Some (OK, True, loaded chunks (length chunks) zf, dev)"
proof -
  obtain lo hi where "chunk_bounds cfg be h (of_nat (length chunks)) (world dev) = (lo, hi)" by force
  then show ?thesis
    using assms by (auto simp: load_chunk_def log_holds_def loaded_def)
qed

lemma TryRecoverWAL_here:
  assumes "chunk_entries zf \<noteq> []" and "offset < chunk_end zf"
  shows "TryRecoverWAL cfg be offset zf dev = Some (OK, zf, dev)"
  using assms by (simp add: TryRecoverWAL_def)

lemma TryRecoverWAL_step:
  assumes "wal zf = Some h" and "\<not> (chunk_entries zf \<noteq> [] \<and> offset < chunk_end zf)"
    and "load_chunk cfg be h zf dev = Some (OK, stop, zf1, dev1)"
    and "stop \<or> min offset (file_size zf) \<le> chunk_end zf1"
  shows "TryRecoverWAL cfg be offset zf dev = Some (OK, zf1, dev1)"
proof -
  have "zf\<lparr>wal := Some h\<rparr> = zf" using assms(1) by (cases zf) simp
  moreover have "TryRecoverWAL_loop cfg be h (min offset (file_size zf)) zf dev = Some (OK, zf1, dev1)"
    unfolding TryRecoverWAL_loop.simps [of cfg be h _ zf dev]
    using assms(3,4) by (auto simp: Let_def min_def split: if_splits)
  moreover have "TryRecoverWAL cfg be offset zf dev =
      TryRecoverWAL_loop cfg be h (min offset (file_size zf)) (zf\<lparr>wal := Some h\<rparr>) dev"
    using assms(1,2) by (auto simp: TryRecoverWAL_def)
  ultimately show ?thesis by simp
qed

end
