(* ===== verification/Writable.thy ===== *)
theory Writable
  imports Wal
begin

text \<open>
  The file objects RocksDB holds (\<^verbatim>\<open>class ZonedWritableFile\<close>, \<^verbatim>\<open>ZonedSequentialFile\<close> and
  \<^verbatim>\<open>ZonedRandomAccessFile\<close> of \<^verbatim>\<open>io_zenfs.h\<close> and \<^verbatim>\<open>io_zenfs.cc\<close>): the write buffer, flushing and
  syncing, closing, and the read objects.
\<close>

section \<open>Writable files\<close>

text \<open>
  \<open>w_mem\<close> is the allocated memory. \<^verbatim>\<open>buffer\<close> points into it, behind the header for a sparse file;
  \<open>w_sparse\<close> says that \<^verbatim>\<open>sparse_buffer\<close> is not null. Fresh memory is zero here; the code never reads
  a byte of it that it has not written.
\<close>

record ZonedWritableFile =
  w_buffered :: bool
  w_sparse :: bool
  w_mem :: bytes
  w_off :: nat
  w_buffer_sz :: u64
  w_buffer_pos :: u32
  w_wp :: u64
  w_open :: bool

definition newZonedWritableFile :: "config \<Rightarrow> 'd backend \<Rightarrow> bool \<Rightarrow> ZoneFile \<Rightarrow> ZonedWritableFile" where
  "newZonedWritableFile cfg be buffered zf =
     (let sparse = buffered \<and> is_sparse zf;
          sparse_buffer_sz = SPARSE_BUFFER_SIZE_IN_KB cfg * KiB + ucast (block_sz be);
          hdr = header_size zf;
          buffer_sz = (if sparse then sparse_buffer_sz - hdr - ucast (block_sz be)
                       else if buffered then 1024 * 1024 else 0);
          mem_sz = (if sparse then sparse_buffer_sz else buffer_sz)
      in \<lparr> w_buffered = buffered, w_sparse = sparse, w_mem = replicate (unat mem_sz) 0,
           w_off = (if sparse then unat hdr else 0), w_buffer_sz = buffer_sz, w_buffer_pos = 0,
           w_wp = file_size zf, w_open = True \<rparr>)"

type_synonym ('d, 'm) wresult = "(status \<times> ZonedWritableFile \<times> ('d, 'm) fenv) option"

definition FlushBuffer ::
    "config \<Rightarrow> 'd backend \<Rightarrow> ('d, 'm) persist \<Rightarrow> ZonedWritableFile \<Rightarrow> ('d, 'm) fenv \<Rightarrow> ('d, 'm) wresult" where
  "FlushBuffer cfg be persist w st =
     (if w_buffer_pos w = 0 then Some (OK, w, st)
      else
        do {
          (s, mem, st1) \<leftarrow>
            (if is_sparse (f_file st) then
               (if w_sparse w then SparseAppend cfg be persist (w_mem w) (w_buffer_pos w) st else None)
             else
               do {
                 (s, buf, st1) \<leftarrow> BufferedAppend cfg be persist (drop (w_off w) (w_mem w)) (w_buffer_pos w) st;
                 Some (s, take (w_off w) (w_mem w) @ buf, st1)
               });
          let w1 = w\<lparr>w_mem := mem\<rparr>;
          (if \<not> ok s then Some (s, w1, st1)
           else Some (OK, w1\<lparr>w_wp := w_wp w + ucast (w_buffer_pos w), w_buffer_pos := 0\<rparr>, st1))
        })"

definition BufferedWrite_step ::
    "config \<Rightarrow> 'd backend \<Rightarrow> ('d, 'm) persist \<Rightarrow> bytes \<Rightarrow> u32 \<Rightarrow> ZonedWritableFile \<Rightarrow> ('d, 'm) fenv \<Rightarrow>
     (status \<times> bytes \<times> u32 \<times> ZonedWritableFile \<times> ('d, 'm) fenv) option" where
  "BufferedWrite_step cfg be persist data data_left w st =
     (let buffer_left = ucast (w_buffer_sz w - ucast (w_buffer_pos w)) :: u32 in
      do {
        (s, left, w1, st1) \<leftarrow>
          (if buffer_left = 0 then
             do {
               (s, w1, st1) \<leftarrow> FlushBuffer cfg be persist w st;
               Some (s, ucast (w_buffer_sz w1), w1, st1)
             }
           else Some (OK, buffer_left, w, st));
        (if \<not> ok s then Some (s, data, data_left, w1, st1)
         else
           do {
             let to_buffer = (if data_left > left then left else data_left);
             chunk \<leftarrow> peek 0 (unat to_buffer) data;
             mem \<leftarrow> poke (w_off w1 + unat (w_buffer_pos w1)) chunk (w_mem w1);
             Some (OK, drop (unat to_buffer) data, data_left - to_buffer,
                   w1\<lparr>w_mem := mem, w_buffer_pos := w_buffer_pos w1 + to_buffer\<rparr>, st1)
           })
      })"

partial_function (option) BufferedWrite_loop ::
    "config \<Rightarrow> 'd backend \<Rightarrow> ('d, 'm) persist \<Rightarrow> bytes \<Rightarrow> u32 \<Rightarrow> ZonedWritableFile \<Rightarrow> ('d, 'm) fenv \<Rightarrow>
     ('d, 'm) wresult" where
  "BufferedWrite_loop cfg be persist data data_left w st =
     (if data_left = 0 then Some (OK, w, st)
      else Option.bind (BufferedWrite_step cfg be persist data data_left w st)
        (\<lambda>x. if \<not> ok (fst x) then Some (fst x, snd (snd (snd x)))
             else BufferedWrite_loop cfg be persist (fst (snd x)) (fst (snd (snd x)))
                    (fst (snd (snd (snd x)))) (snd (snd (snd (snd x))))))"

definition BufferedWrite ::
    "config \<Rightarrow> 'd backend \<Rightarrow> ('d, 'm) persist \<Rightarrow> bytes \<Rightarrow> ZonedWritableFile \<Rightarrow> ('d, 'm) fenv \<Rightarrow>
     ('d, 'm) wresult" where
  "BufferedWrite cfg be persist data w st =
     BufferedWrite_loop cfg be persist data (of_nat (length data)) w st"

definition ZonedWritableFile_Append ::
    "config \<Rightarrow> 'd backend \<Rightarrow> ('d, 'm) persist \<Rightarrow> bytes \<Rightarrow> ZonedWritableFile \<Rightarrow> ('d, 'm) fenv \<Rightarrow>
     ('d, 'm) wresult" where
  "ZonedWritableFile_Append cfg be persist data w st =
     (if w_buffered w then BufferedWrite cfg be persist data w st
      else
        do {
          (s, st1) \<leftarrow> ZoneFile_Append be persist data st;
          Some (s, if ok s then w\<lparr>w_wp := w_wp w + of_nat (length data)\<rparr> else w, st1)
        })"

definition PositionedAppend ::
    "config \<Rightarrow> 'd backend \<Rightarrow> ('d, 'm) persist \<Rightarrow> bytes \<Rightarrow> u64 \<Rightarrow> ZonedWritableFile \<Rightarrow> ('d, 'm) fenv \<Rightarrow>
     ('d, 'm) wresult" where
  "PositionedAppend cfg be persist data offset w st =
     (if offset \<noteq> w_wp w then Some (IOError, w, st)
      else ZonedWritableFile_Append cfg be persist data w st)"

definition Truncate :: "u64 \<Rightarrow> ('d, 'm) fenv \<Rightarrow> status \<times> ('d, 'm) fenv" where
  "Truncate n st = (OK, upd_file (\<lambda>zf. zf\<lparr>file_size := n\<rparr>) st)"

text \<open>The log is synced before the buffer is flushed to it, and the sync's status is dropped.\<close>

definition DataSync ::
    "config \<Rightarrow> 'd backend \<Rightarrow> ('d, 'm) persist \<Rightarrow> ZonedWritableFile \<Rightarrow> ('d, 'm) fenv \<Rightarrow> ('d, 'm) wresult" where
  "DataSync cfg be persist w st0 =
     (let st = (if is_wal (f_file st0) then snd (WALSync be st0) else st0) in
      if w_buffered w then
        do {
          (s, w1, st1) \<leftarrow> FlushBuffer cfg be persist w st;
          (if \<not> ok s then Some (s, w1, st1)
           else if \<not> is_sparse (f_file st1)
           then do { (s2, st2) \<leftarrow> persist st1; Some (s2, w1, st2) }
           else Some (OK, w1, st1))
        }
      else
        (case PushExtent (f_file st) (f_dev st) of
           (zf, dev) \<Rightarrow> Some (OK, w, st\<lparr>f_file := zf, f_dev := dev\<rparr>)))"

definition Fsync ::
    "config \<Rightarrow> 'd backend \<Rightarrow> ('d, 'm) persist \<Rightarrow> ZonedWritableFile \<Rightarrow> ('d, 'm) fenv \<Rightarrow> ('d, 'm) wresult" where
  "Fsync cfg be persist w st =
     do {
       (s, w1, st1) \<leftarrow> DataSync cfg be persist w st;
       (if \<not> ok s then Some (s, w1, st1)
        else if w_buffered w1 \<and> \<not> is_sparse (f_file st1) then Some (OK, w1, st1)
        else do { (s2, st2) \<leftarrow> persist st1; Some (s2, w1, st2) })
     }"

definition ZonedWritableFile_Sync ::
    "config \<Rightarrow> 'd backend \<Rightarrow> ('d, 'm) persist \<Rightarrow> ZonedWritableFile \<Rightarrow> ('d, 'm) fenv \<Rightarrow> ('d, 'm) wresult" where
  "ZonedWritableFile_Sync cfg be persist w st = DataSync cfg be persist w st"

definition ZonedWritableFile_Flush ::
    "ZonedWritableFile \<Rightarrow> ('d, 'm) fenv \<Rightarrow> ('d, 'm) wresult" where
  "ZonedWritableFile_Flush w st = Some (OK, w, st)"

definition RangeSync ::
    "config \<Rightarrow> 'd backend \<Rightarrow> ('d, 'm) persist \<Rightarrow> u64 \<Rightarrow> u64 \<Rightarrow> ZonedWritableFile \<Rightarrow> ('d, 'm) fenv \<Rightarrow>
     ('d, 'm) wresult" where
  "RangeSync cfg be persist offset nbytes w st =
     (if w_wp w < offset + nbytes then DataSync cfg be persist w st else Some (OK, w, st))"

definition CloseInternal ::
    "config \<Rightarrow> 'd backend \<Rightarrow> ('d, 'm) persist \<Rightarrow> ZonedWritableFile \<Rightarrow> ('d, 'm) fenv \<Rightarrow> ('d, 'm) wresult" where
  "CloseInternal cfg be persist w st =
     (if \<not> w_open w then Some (OK, w, st)
      else
        do {
          (s, w1, st1) \<leftarrow> DataSync cfg be persist w st;
          (if \<not> ok s then Some (s, w1, st1)
           else
             do {
               (s2, st2) \<leftarrow> CloseWR be persist st1;
               (if \<not> ok s2 then Some (s2, w1, st2) else Some (s2, w1\<lparr>w_open := False\<rparr>, st2))
             })
        })"

definition ZonedWritableFile_Close ::
    "config \<Rightarrow> 'd backend \<Rightarrow> ('d, 'm) persist \<Rightarrow> ZonedWritableFile \<Rightarrow> ('d, 'm) fenv \<Rightarrow> ('d, 'm) wresult" where
  "ZonedWritableFile_Close cfg be persist w st = CloseInternal cfg be persist w st"

definition delete_ZonedWritableFile ::
    "config \<Rightarrow> 'd backend \<Rightarrow> ('d, 'm) persist \<Rightarrow> ZonedWritableFile \<Rightarrow> ('d, 'm) fenv \<Rightarrow>
     ('d, 'm) fenv option" where
  "delete_ZonedWritableFile cfg be persist w st =
     do {
       (s, w1, st1) \<leftarrow> CloseInternal cfg be persist w st;
       Some (if \<not> ok s then upd_dev (SetZoneDeferredStatus s) st1 else st1)
     }"

section \<open>Sequential and random access files\<close>

record ZonedSequentialFile =
  sq_rp :: u64
  sq_direct :: bool

definition newZonedSequentialFile :: "bool \<Rightarrow> ZoneFile \<Rightarrow> ZonedSequentialFile" where
  "newZonedSequentialFile use_direct_reads zf =
     \<lparr> sq_rp = 0, sq_direct = (use_direct_reads \<and> \<not> is_sparse zf) \<rparr>"

definition ZonedSequentialFile_Read ::
    "config \<Rightarrow> 'd backend \<Rightarrow> u64 \<Rightarrow> ZonedSequentialFile \<Rightarrow> ZoneFile \<Rightarrow> 'd zbd \<Rightarrow>
     (status \<times> bytes \<times> ZonedSequentialFile \<times> ZoneFile \<times> 'd zbd) option" where
  "ZonedSequentialFile_Read cfg be n sq zf dev =
     do {
       (s, result, zf1, dev1) \<leftarrow> PositionedRead cfg be (sq_rp sq) n (sq_direct sq) zf dev;
       Some (s, result, if ok s then sq\<lparr>sq_rp := sq_rp sq + of_nat (length result)\<rparr> else sq, zf1, dev1)
     }"

definition Skip :: "u64 \<Rightarrow> ZonedSequentialFile \<Rightarrow> ZoneFile \<Rightarrow> status \<times> ZonedSequentialFile" where
  "Skip n sq zf =
     (if sq_rp sq + n \<ge> file_size zf then (InvalidArgument, sq)
      else (OK, sq\<lparr>sq_rp := sq_rp sq + n\<rparr>))"

definition ZonedSequentialFile_PositionedRead ::
    "config \<Rightarrow> 'd backend \<Rightarrow> u64 \<Rightarrow> u64 \<Rightarrow> ZonedSequentialFile \<Rightarrow> ZoneFile \<Rightarrow> 'd zbd \<Rightarrow>
     (status \<times> bytes \<times> ZoneFile \<times> 'd zbd) option" where
  "ZonedSequentialFile_PositionedRead cfg be offset n sq zf dev =
     PositionedRead cfg be offset n (sq_direct sq) zf dev"

definition random_direct :: "bool \<Rightarrow> ZoneFile \<Rightarrow> bool" where
  "random_direct use_direct_reads zf \<longleftrightarrow> use_direct_reads \<and> \<not> is_sparse zf"

definition ZonedRandomAccessFile_Read ::
    "config \<Rightarrow> 'd backend \<Rightarrow> u64 \<Rightarrow> u64 \<Rightarrow> bool \<Rightarrow> ZoneFile \<Rightarrow> 'd zbd \<Rightarrow>
     (status \<times> bytes \<times> ZoneFile \<times> 'd zbd) option" where
  "ZonedRandomAccessFile_Read cfg be offset n direct zf dev = PositionedRead cfg be offset n direct zf dev"

end
