(* ===== verification/Wal_Read.thy ===== *)
theory Wal_Read
  imports Wal_Recovery Writable
begin

text \<open>
  Reading a write-ahead log from its beginning to its end: the reader's position in the log, and that
  each read returns the next bytes of the data.
\<close>

section \<open>Positions in the log\<close>

text \<open>Record \<open>i\<close> of the log is in the \<open>k\<close>th chunk, counted from 1.\<close>

definition in_chunk :: "(u64 \<times> bytes) list list \<Rightarrow> nat \<Rightarrow> nat \<Rightarrow> bool" where
  "in_chunk chunks k i \<longleftrightarrow> 0 < k \<and> k \<le> length chunks \<and>
     length (concat (take (k - 1) chunks)) \<le> i \<and> i < length (concat (take k chunks))"

lemma size_of_take_mono: "i \<le> j \<Longrightarrow> size_of (take i es) \<le> size_of (take j es)"
  by (metis le_add1 le_iff_add size_of_simps(3) take_add)

lemma size_of_take_Suc: "i < length es \<Longrightarrow> size_of (take (Suc i) es) = size_of (take i es) + length (snd (es ! i))"
  by (simp add: take_Suc_conv_app_nth)

lemma concat_take: "concat (take k xss) = take (length (concat (take k xss))) (concat xss)"
  by (metis append_eq_conv_conj append_take_drop_id concat_append)

lemma concat_take_Suc: "k < length xss \<Longrightarrow> concat (take (Suc k) xss) = concat (take k xss) @ xss ! k"
  by (simp add: take_Suc_conv_app_nth)

lemma in_chunk_nth:
  assumes "in_chunk chunks k i"
  shows "i < length (concat chunks)" and "i - length (concat (take (k - 1) chunks)) < length (chunks ! (k - 1))"
    and "chunks ! (k - 1) ! (i - length (concat (take (k - 1) chunks))) = concat chunks ! i"
proof -
  obtain j where k: "k = Suc j" "j < length chunks"
    using assms by (cases k) (auto simp: in_chunk_def)
  have c: "length (concat (take j chunks)) \<le> i" "i < length (concat (take j chunks) @ chunks ! j)"
    using assms k by (simp_all add: in_chunk_def concat_take_Suc)
  have all: "concat chunks = (concat (take j chunks) @ chunks ! j) @ concat (drop (Suc j) chunks)"
    by (metis append_take_drop_id concat_append concat_take_Suc k(2))
  show "i < length (concat chunks)" using c by (subst all) simp
  show "i - length (concat (take (k - 1) chunks)) < length (chunks ! (k - 1))" using c k by simp
  show "chunks ! (k - 1) ! (i - length (concat (take (k - 1) chunks))) = concat chunks ! i"
    using c k by (subst all) (simp only: nth_append, auto)
qed

lemma in_chunk_end:
  assumes "in_chunk chunks k i"
  shows "size_of (take (Suc i) (concat chunks)) \<le> size_of (concat (take k chunks))"
    and "size_of (concat (take k chunks)) \<le> size_of (concat chunks)"
proof -
  have "size_of (take (Suc i) (concat chunks))
      \<le> size_of (take (length (concat (take k chunks))) (concat chunks))"
    using assms by (intro size_of_take_mono) (simp add: in_chunk_def)
  then show "size_of (take (Suc i) (concat chunks)) \<le> size_of (concat (take k chunks))"
    using concat_take [of k chunks] by metis
  show "size_of (concat (take k chunks)) \<le> size_of (concat chunks)"
    by (metis append_take_drop_id concat_append le_add1 size_of_simps(3))
qed

lemma in_chunk_Suc:
  assumes "in_chunk chunks k i" and "\<not> in_chunk chunks k (Suc i)"
  shows "Suc i = length (concat (take k chunks))"
  using assms by (auto simp: in_chunk_def)

lemma in_chunk_next:
  assumes "Suc i = length (concat (take k chunks))" and "k < length chunks" and "chunks ! k \<noteq> []"
  shows "in_chunk chunks (Suc k) (Suc i)"
  using assms by (simp add: in_chunk_def concat_take_Suc)

text \<open>Word comparisons of sizes that fit.\<close>

lemma u64_of_nat:
  assumes "a < 2 ^ 64" and "b < 2 ^ 64"
  shows "(of_nat a :: u64) < of_nat b \<longleftrightarrow> a < b" and "(of_nat a :: u64) \<le> of_nat b \<longleftrightarrow> a \<le> b"
    and "(of_nat a :: u64) = of_nat b \<longleftrightarrow> a = b"
  using assms by (simp_all add: word_less_nat_alt word_le_nat_alt word_unat_eq_iff unsigned_of_nat take_bit_nat_eq_self)

text \<open>The data of a log, and its \<^verbatim>\<open>ZoneFile\<close>: an extent for each record.\<close>

definition log_data :: "(u64 \<times> bytes) list list \<Rightarrow> bytes" where
  "log_data chunks = concat (map snd (concat chunks))"

definition log_file :: "nat \<Rightarrow> (u64 \<times> bytes) list list \<Rightarrow> ZoneFile \<Rightarrow> bool" where
  "log_file h chunks zf \<longleftrightarrow>
     wal zf = Some h \<and> ends_with (hd (linkfiles zf)) (str ''.log'') \<and> is_sparse zf \<and>
     map e_length (extents zf) = map (\<lambda>e. of_nat (length (snd e))) (concat chunks) \<and>
     (\<forall>e \<in> set (concat chunks). snd e \<noteq> []) \<and>
     file_size zf = of_nat (length (log_data chunks)) \<and>
     length (concat chunks) < 2 ^ 32 \<and> length (log_data chunks) < 2 ^ 63"

lemma length_log_data: "length (log_data chunks) = size_of (concat chunks)"
  by (simp add: log_data_def size_of_def)

lemma loaded_loaded [simp]: "loaded chunks k (loaded chunks k' zf) = loaded chunks k zf"
  by (simp add: loaded_def)

lemma log_file_loaded [simp]: "log_file h chunks (loaded chunks k zf) = log_file h chunks zf"
  by (simp add: log_file_def loaded_def)

lemma loaded_sel [simp]:
  "wal (loaded chunks k zf) = wal zf" "file_size (loaded chunks k zf) = file_size zf"
  "chunk_entries (loaded chunks k zf) = chunks ! (k - 1)" "extents (loaded chunks k zf) = extents zf"
  "chunk_end (loaded chunks k zf) = of_nat (size_of (concat (take k chunks)))"
  "chunk_jump (loaded chunks k zf) = of_nat (length (concat (take (k - 1) chunks)))"
  "linkfiles (loaded chunks k zf) = linkfiles zf"
  by (simp_all add: loaded_def)

lemma log_file_nth:
  assumes "log_file h chunks zf" and "i < length (concat chunks)"
  shows "length (extents zf) = length (concat chunks)"
    and "e_length (extents zf ! i) = of_nat (length (snd (concat chunks ! i)))"
    and "0 < length (snd (concat chunks ! i))"
    and "size_of (take i (concat chunks)) + length (snd (concat chunks ! i)) \<le> length (log_data chunks)"
    and "length (snd (concat chunks ! i)) < 2 ^ 63"
proof -
  have l: "map e_length (extents zf) = map (\<lambda>e. of_nat (length (snd e))) (concat chunks)"
    using assms(1) by (simp add: log_file_def)
  then show n: "length (extents zf) = length (concat chunks)" by (metis length_map)
  show "e_length (extents zf ! i) = of_nat (length (snd (concat chunks ! i)))"
    using assms(2) arg_cong [OF l, of "\<lambda>xs. xs ! i"] n by simp
  show "0 < length (snd (concat chunks ! i))"
    using assms nth_mem [OF assms(2)] by (auto simp: log_file_def simp del: set_concat)
  show s: "size_of (take i (concat chunks)) + length (snd (concat chunks ! i)) \<le> length (log_data chunks)"
    using size_of_take_Suc [OF assms(2)] size_of_take_mono [of "Suc i" "length (concat chunks)" "concat chunks"] assms(2)
    by (simp add: length_log_data)
  show "length (snd (concat chunks ! i)) < 2 ^ 63"
    using s assms(1) unfolding log_file_def by linarith
qed

lemma wal_extent_index:
  assumes "i < 2 ^ 32"
  shows "wal_extent zf n (of_nat i) = GetWALExtent n (drop i (extents zf)) (of_nat i)"
proof -
  have "(ucast (of_nat i :: u64) :: u32) = of_nat i"
    using assms by (simp add: unsigned_of_nat take_bit_nat_eq_self)
  moreover have "unat (of_nat i :: u32) = i" using assms by (simp add: unsigned_of_nat take_bit_nat_eq_self)
  moreover have "(ucast (of_nat i :: u32) :: u64) = of_nat i"
    using assms by (simp add: unsigned_of_nat take_bit_nat_eq_self)
  ultimately show ?thesis by (simp add: wal_extent_def Let_def)
qed

lemma wal_extent_at:
  assumes "log_file h chunks zf" and "i < length (concat chunks)"
  shows "wal_extent zf 0 (of_nat i) = Some (extents zf ! i, 0, of_nat i)"
proof -
  have i: "i < 2 ^ 32" using assms by (simp add: log_file_def)
  note n = log_file_nth [OF assms]
  have "(0 :: u64) < of_nat (length (snd (concat chunks ! i)))"
    using n(3,5) u64_of_nat(1) [of 0] by simp
  then show ?thesis
    unfolding wal_extent_index [OF i] using assms(2) n(1,2) by (simp add: Cons_nth_drop_Suc [symmetric])
qed

lemma wal_extent_next:
  assumes "log_file h chunks zf" and "i < length (concat chunks)"
  shows "wal_extent zf (of_nat (length (snd (concat chunks ! i)))) (of_nat i)
     = (if Suc i < length (concat chunks) then Some (extents zf ! Suc i, 0, of_nat (Suc i)) else None)"
proof -
  have i: "i < 2 ^ 32" using assms by (simp add: log_file_def)
  note n = log_file_nth [OF assms]
  have step: "wal_extent zf (of_nat (length (snd (concat chunks ! i)))) (of_nat i)
      = GetWALExtent 0 (drop (Suc i) (extents zf)) (of_nat (Suc i))"
    unfolding wal_extent_index [OF i] using assms(2) n(1,2) by (simp add: Cons_nth_drop_Suc [symmetric] add.commute)
  show ?thesis
  proof (cases "Suc i < length (concat chunks)")
    case True
    have "Suc i < 2 ^ 32" using True assms(1) by (simp add: log_file_def)
    from wal_extent_index [OF this, of zf 0] wal_extent_at [OF assms(1) True] step True
    show ?thesis by simp
  next
    case False
    then show ?thesis using n(1) step by simp
  qed
qed

lemma log_data_piece:
  assumes "i < length (concat chunks)" and "j + n \<le> length (snd (concat chunks ! i))"
  shows "take n (drop (size_of (take i (concat chunks)) + j) (log_data chunks))
       = take n (drop j (snd (concat chunks ! i)))"
proof -
  have "log_data chunks = concat (map snd (take i (concat chunks))) @ snd (concat chunks ! i) @
      concat (map snd (drop (Suc i) (concat chunks)))"
    using arg_cong [OF id_take_nth_drop [OF assms(1)], of "\<lambda>xs. concat (map snd xs)"]
    by (simp add: log_data_def)
  then show ?thesis
    using assms(2) by (simp add: size_of_def)
qed

section \<open>Moving on to the next record\<close>

lemma log_holds_chunk: "log_holds cfg be h d chunks \<Longrightarrow> k < length chunks \<Longrightarrow> chunks ! k \<noteq> []"
  by (auto simp: log_holds_def)

lemma in_chunk_entries: "log_holds cfg be h d chunks \<Longrightarrow> in_chunk chunks k i \<Longrightarrow> chunks ! (k - 1) \<noteq> []"
  by (rule log_holds_chunk) (auto simp: in_chunk_def)

lemma next_extent_more:
  assumes log: "log_holds cfg be h (world dev) chunks" and zf: "log_file h chunks zf"
    and k: "in_chunk chunks k i" and more: "Suc i < length (concat chunks)"
    and rd: "rd_off rd = of_nat (length (snd (concat chunks ! i)))" "rd_id rd = of_nat i"
    and off: "offset = of_nat (size_of (take (Suc i) (concat chunks)))"
  shows "\<exists>k'. in_chunk chunks k' (Suc i) \<and>
     next_extent cfg be True offset rd (loaded chunks k zf) dev =
       Some (OK, True, rd\<lparr>rd_off := 0, rd_end := of_nat (length (snd (concat chunks ! Suc i))),
                          rd_id := of_nat (Suc i)\<rparr>, loaded chunks k' zf, dev)"
proof -
  have sz: "length (log_data chunks) < 2 ^ 63" using zf by (simp add: log_file_def)
  have "\<exists>k'. in_chunk chunks k' (Suc i) \<and>
      TryRecoverWAL cfg be offset (loaded chunks k zf) dev = Some (OK, loaded chunks k' zf, dev)"
  proof (cases "in_chunk chunks k (Suc i)")
    case True
    have "size_of (take (Suc i) (concat chunks)) < size_of (concat (take k chunks))"
      using in_chunk_end(1) [OF True] size_of_take_Suc [OF more] log_file_nth(3) [OF zf more] by linarith
    moreover have "size_of (concat (take k chunks)) < 2 ^ 63"
      using in_chunk_end(2) [OF True] sz by (simp add: length_log_data)
    ultimately have "offset < chunk_end (loaded chunks k zf)"
      using off by (simp add: u64_of_nat)
    moreover have "chunks ! (k - 1) \<noteq> []" by (rule in_chunk_entries [OF log True])
    ultimately show ?thesis using True by (intro exI [of _ k] conjI TryRecoverWAL_here) simp_all
  next
    case False
    have n: "Suc i = length (concat (take k chunks))" by (rule in_chunk_Suc [OF k False])
    have kl: "k < length chunks"
    proof (rule ccontr)
      assume "\<not> k < length chunks"
      then have "concat (take k chunks) = concat chunks" by simp
      then show False using n more by simp
    qed
    have k': "in_chunk chunks (Suc k) (Suc i)"
      by (rule in_chunk_next [OF n kl log_holds_chunk [OF log kl]])
    have e: "size_of (take (Suc i) (concat chunks)) = size_of (concat (take k chunks))"
      unfolding n using concat_take [of k chunks] by metis
    have "size_of (concat (take (Suc k) chunks)) < 2 ^ 63"
      using in_chunk_end(2) [OF k'] sz by (simp add: length_log_data)
    moreover have "size_of (concat (take k chunks)) \<le> size_of (concat (take (Suc k) chunks))"
      by (simp add: concat_take_Suc [OF kl])
    ultimately have "offset \<le> chunk_end (loaded chunks (Suc k) zf)"
      using off e by (simp add: u64_of_nat)
    moreover have "0 < k" using k by (simp add: in_chunk_def)
    ultimately have "TryRecoverWAL cfg be offset (loaded chunks k zf) dev = Some (OK, loaded chunks (Suc k) zf, dev)"
      using load_next [OF log _ kl, of zf] zf off e
      by (intro TryRecoverWAL_step [where h = h and stop = False]) (auto simp: log_file_def min_def)
    then show ?thesis using k' by blast
  qed
  then show ?thesis
    using wal_extent_next [OF zf, of i] wal_extent_next [of h chunks "loaded chunks _ zf" i] zf more rd
      log_file_nth(2) [OF zf more]
    by (auto simp: next_extent_def)
qed

lemma next_extent_end:
  assumes log: "log_holds cfg be h (world dev) chunks" and zf: "log_file h chunks zf"
    and k: "in_chunk chunks k i" and i: "Suc i = length (concat chunks)"
    and rd: "rd_off rd = of_nat (length (snd (concat chunks ! i)))" "rd_id rd = of_nat i"
    and off: "offset = of_nat (length (log_data chunks))"
  shows "next_extent cfg be True offset rd (loaded chunks k zf) dev
     = Some (OK, False, rd, loaded chunks k zf, dev)"
proof -
  have "k = length chunks"
  proof (rule ccontr)
    assume "k \<noteq> length chunks"
    then have kl: "k < length chunks" using k by (simp add: in_chunk_def)
    have "length (concat (take (Suc k) chunks)) \<le> length (concat chunks)"
      by (subst concat_take) simp
    then show False
      using k i log_holds_chunk [OF log kl] kl by (cases "chunks ! k") (auto simp: concat_take_Suc in_chunk_def)
  qed
  then have "TryRecoverWAL cfg be offset (loaded chunks k zf) dev = Some (OK, loaded chunks k zf, dev)"
    using load_end [OF log, of zf] zf off
    by (intro TryRecoverWAL_step [where h = h and stop = True]) (auto simp: log_file_def length_log_data)
  then show ?thesis
    using wal_extent_next [of h chunks "loaded chunks k zf" i] zf i rd by (simp add: next_extent_def)
qed

section \<open>The reading loop\<close>

definition reading_at :: "(u64 \<times> bytes) list list \<Rightarrow> nat \<Rightarrow> nat \<Rightarrow> bytes \<Rightarrow> reading" where
  "reading_at chunks i j buf =
     \<lparr> rd_off = of_nat j, rd_end = of_nat (length (snd (concat chunks ! i))), rd_id = of_nat i,
       rd_buf = buf, rd_failed = False \<rparr>"

lemma pread_size_min:
  assumes "w < 2 ^ 63" "j \<le> l" "l < 2 ^ 63"
  shows "pread_size (of_nat w) (of_nat j) (of_nat l) = of_nat (min w (l - j))"
proof -
  have "(of_nat w + of_nat j > (of_nat l :: u64)) \<longleftrightarrow> w + j > l"
    using assms u64_of_nat(1) [of l "w + j"] by simp
  then show ?thesis using assms by (auto simp: pread_size_def min_def of_nat_diff)
qed

lemma read_piece_log:
  assumes zf: "log_file h chunks zf" and k: "in_chunk chunks k i"
    and n: "j + n \<le> length (snd (concat chunks ! i))"
  shows "read_piece be True direct (loaded chunks k zf) (reading_at chunks i j buf) (of_nat n) dev
     = Some (RData (take n (drop j (snd (concat chunks ! i)))), dev)"
proof -
  note c = in_chunk_nth [OF k]
  have len: "length (concat chunks) < 2 ^ 32" using zf by (simp add: log_file_def)
  let ?m = "length (concat (take (k - 1) chunks))"
  have m: "?m \<le> i" using k by (simp add: in_chunk_def)
  have "unat (of_nat i - of_nat ?m :: u64) = i - ?m"
    using m c(1) len by (simp add: of_nat_diff [symmetric] unat_of_nat_small del: of_nat_diff)
  moreover have "unat (of_nat j :: u64) = j" "unat (of_nat n :: u64) = n"
    using n log_file_nth(5) [OF zf c(1)] by (simp_all add: unat_of_nat_small)
  ultimately show ?thesis
    using c n by (simp add: read_piece_def reading_at_def peek_def)
qed

lemma WALPositionedRead_step_log:
  assumes log: "log_holds cfg be h (world dev) chunks" and zf: "log_file h chunks zf"
    and k: "in_chunk chunks k i" and j: "j < length (snd (concat chunks ! i))"
    and pos: "size_of (take i (concat chunks)) + j = p + q" and q: "q < r" and r: "p + r \<le> length (log_data chunks)"
  defines "n \<equiv> min (r - q) (length (snd (concat chunks ! i)) - j)"
  shows "\<exists>k' i' j'. in_chunk chunks k' i' \<and> size_of (take i' (concat chunks)) + j' = p + (q + n) \<and>
     j' \<le> length (snd (concat chunks ! i')) \<and> (q + n < r \<longrightarrow> j' < length (snd (concat chunks ! i'))) \<and>
     WALPositionedRead_step cfg be True False (of_nat p) (of_nat r)
       (reading_at chunks i j (take q (drop p (log_data chunks)))) (loaded chunks k zf) dev
     = Some (OK, True, reading_at chunks i' j' (take (q + n) (drop p (log_data chunks))), loaded chunks k' zf, dev)"
proof -
  let ?L = "length (snd (concat chunks ! i))" and ?d = "log_data chunks"
  have i: "i < length (concat chunks)" by (rule in_chunk_nth [OF k])
  have sz: "length ?d < 2 ^ 63" using zf by (simp add: log_file_def)
  have L: "?L < 2 ^ 63" by (rule log_file_nth(5) [OF zf i])
  have n: "0 < n" "j + n \<le> ?L" "q + n \<le> r" using j q by (auto simp: n_def)
  have buf: "length (take q (drop p ?d)) = q" using q r by simp
  have "of_nat r - of_nat q = (of_nat (r - q) :: u64)" using q by (simp add: of_nat_diff)
  then have size: "pread_size (of_nat r - of_nat q) (of_nat j) (of_nat ?L) = of_nat n"
    using pread_size_min [of "r - q" j ?L] sz L j r by (simp add: n_def)
  have bytes: "take n (drop j (snd (concat chunks ! i))) = take n (drop (p + q) ?d)"
    using log_data_piece [OF i n(2)] pos by simp
  have "kept n (of_nat n) 0 = of_nat n" by (simp add: kept_def)
  moreover have "unat (of_nat n :: u64) = n" using n L by (simp add: unat_of_nat_small)
  moreover have ne: "take n (drop j (snd (concat chunks ! i))) \<noteq> []" using n by simp
  moreover have len: "length (take n (drop j (snd (concat chunks ! i)))) = n" using n by simp
  moreover have "take (q + n) (drop p ?d) = take q (drop p ?d) @ take n (drop j (snd (concat chunks ! i)))"
    unfolding bytes by (simp only: take_add drop_drop add.commute [of q p])
  moreover have "length (take (q + n) (drop p ?d)) = q + n" using n r by simp
  moreover have "(of_nat (q + n) :: u64) = of_nat r \<longleftrightarrow> q + n = r"
    using n r sz by (intro u64_of_nat) auto
  moreover have "(of_nat (j + n) :: u64) = of_nat ?L \<longleftrightarrow> j + n = ?L"
    using n L by (intro u64_of_nat) auto
  ultimately have step: "WALPositionedRead_step cfg be True False (of_nat p) (of_nat r)
       (reading_at chunks i j (take q (drop p ?d))) (loaded chunks k zf) dev
     = (if q + n \<noteq> r \<and> j + n = ?L
        then next_extent cfg be True (of_nat (p + (q + n))) (reading_at chunks i (j + n) (take (q + n) (drop p ?d)))
               (loaded chunks k zf) dev
        else Some (OK, True, reading_at chunks i (j + n) (take (q + n) (drop p ?d)), loaded chunks k zf, dev))"
    using read_piece_log [OF zf k n(2), of be False "take q (drop p ?d)" dev] size buf
    by (simp add: WALPositionedRead_step_def Let_def align_up_def reading_at_def of_nat_add [symmetric] del: of_nat_add)
  show ?thesis
  proof (cases "q + n \<noteq> r \<and> j + n = ?L")
    case True
    have s: "size_of (take (Suc i) (concat chunks)) = p + (q + n)"
      using size_of_take_Suc [OF i] pos True by simp
    have more: "Suc i < length (concat chunks)"
    proof (rule ccontr)
      assume "\<not> Suc i < length (concat chunks)"
      then have "take (Suc i) (concat chunks) = concat chunks" by simp
      then show False using s n True r by (simp add: length_log_data)
    qed
    have "rd_off (reading_at chunks i (j + n) b) = of_nat ?L" for b
      using True by (simp add: reading_at_def)
    then obtain k' where "in_chunk chunks k' (Suc i)"
      "next_extent cfg be True (of_nat (p + (q + n))) (reading_at chunks i (j + n) (take (q + n) (drop p ?d)))
         (loaded chunks k zf) dev = Some (OK, True, reading_at chunks (Suc i) 0 (take (q + n) (drop p ?d)), loaded chunks k' zf, dev)"
      using next_extent_more [OF log zf k more, of "reading_at chunks i (j + n) (take (q + n) (drop p ?d))"] s
      by (auto simp: reading_at_def)
    moreover have "0 < length (snd (concat chunks ! Suc i))" by (rule log_file_nth(3) [OF zf more])
    ultimately show ?thesis
      unfolding step using True s by (intro exI [of _ k'] exI [of _ "Suc i"] exI [of _ 0]) simp
  next
    case False
    then show ?thesis
      unfolding step using k n pos by (intro exI [of _ k] exI [of _ i] exI [of _ "j + n"]) auto
  qed
qed

lemma WALPositionedRead_loop_log:
  assumes log: "log_holds cfg be h (world dev) chunks" and zf: "log_file h chunks zf"
    and "in_chunk chunks k i" "j \<le> length (snd (concat chunks ! i))" "q < r \<longrightarrow> j < length (snd (concat chunks ! i))"
    and "size_of (take i (concat chunks)) + j = p + q" and "q \<le> r" and r: "p + r \<le> length (log_data chunks)"
  shows "\<exists>k' i' j'. in_chunk chunks k' i' \<and> size_of (take i' (concat chunks)) + j' = p + r \<and>
     j' \<le> length (snd (concat chunks ! i')) \<and>
     WALPositionedRead_loop cfg be True False (of_nat p) (of_nat r)
       (reading_at chunks i j (take q (drop p (log_data chunks)))) (loaded chunks k zf) dev
     = Some (OK, reading_at chunks i' j' (take r (drop p (log_data chunks))), loaded chunks k' zf, dev)"
  using assms(3-7)
proof (induction "r - q" arbitrary: k i j q rule: less_induct)
  case less
  let ?d = "log_data chunks"
  have "length ?d < 2 ^ 63" using zf by (simp add: log_file_def)
  then have eq: "of_nat (length (take q (drop p ?d))) = (of_nat r :: u64) \<longleftrightarrow> q = r"
    using u64_of_nat(3) [of q r] less.prems(5) r by simp
  note loop = WALPositionedRead_loop.simps
    [of cfg be True False "of_nat p" "of_nat r" "reading_at chunks i j (take q (drop p ?d))" "loaded chunks k zf" dev]
  show ?case
  proof (cases "q = r")
    case True
    then have "WALPositionedRead_loop cfg be True False (of_nat p) (of_nat r)
        (reading_at chunks i j (take q (drop p ?d))) (loaded chunks k zf) dev
      = Some (OK, reading_at chunks i j (take r (drop p ?d)), loaded chunks k zf, dev)"
      unfolding loop using eq by (simp add: reading_at_def)
    then show ?thesis using less.prems True by blast
  next
    case False
    then have q: "q < r" using less.prems(5) by simp
    then have j: "j < length (snd (concat chunks ! i))" using less.prems(3) by simp
    define n where "n = min (r - q) (length (snd (concat chunks ! i)) - j)"
    obtain k' i' j' where s: "in_chunk chunks k' i'" "j' \<le> length (snd (concat chunks ! i'))"
      "q + n < r \<longrightarrow> j' < length (snd (concat chunks ! i'))" "size_of (take i' (concat chunks)) + j' = p + (q + n)"
      "WALPositionedRead_step cfg be True False (of_nat p) (of_nat r)
         (reading_at chunks i j (take q (drop p ?d))) (loaded chunks k zf) dev
       = Some (OK, True, reading_at chunks i' j' (take (q + n) (drop p ?d)), loaded chunks k' zf, dev)"
      using WALPositionedRead_step_log [OF log zf less.prems(1) j less.prems(4) q r] unfolding n_def by blast
    have "r - (q + n) < r - q" "q + n \<le> r" using q j by (auto simp: n_def)
    from less.hyps [OF this(1) s(1,2,3,4) this(2)]
    show ?thesis unfolding loop using eq False s(5) by (simp add: reading_at_def)
  qed
qed

section \<open>The reader\<close>

text \<open>The reader of a log has returned the first \<open>p\<close> bytes of the data.\<close>

definition unread :: "ZoneFile \<Rightarrow> bool" where
  "unread zf \<longleftrightarrow> chunk_entries zf = [] \<and> chunk_end zf = 0 \<and> chunk_jump zf = 0 \<and> chunk_id zf = 0"

definition reader_at :: "nat \<Rightarrow> (u64 \<times> bytes) list list \<Rightarrow> nat \<Rightarrow> ZoneFile \<Rightarrow> bool" where
  "reader_at h chunks p zf \<longleftrightarrow> log_file h chunks zf \<and>
     (\<exists>i j. i < length (concat chunks) \<and> size_of (take i (concat chunks)) + j = p \<and>
        reader_offset_index zf = of_nat i \<and> reader_offset zf = of_nat j \<and>
        (j < length (snd (concat chunks ! i)) \<or>
         Suc i = length (concat chunks) \<and> j = length (snd (concat chunks ! i))) \<and>
        (unread zf \<and> i = 0 \<and> j = 0 \<or> (\<exists>k. in_chunk chunks k i \<and> zf = loaded chunks k zf)))"

lemma reader_at_start:
  assumes "log_file h chunks zf" and "concat chunks \<noteq> []" and "unread zf"
    and "reader_offset_index zf = 0" "reader_offset zf = 0"
  shows "reader_at h chunks 0 zf"
  using assms log_file_nth(3) [OF assms(1), of 0]
  unfolding reader_at_def by (intro conjI exI [of _ 0]) auto

lemma reader_at_le:
  assumes "reader_at h chunks p zf"
  shows "p \<le> length (log_data chunks)"
proof -
  obtain i j where "log_file h chunks zf" "i < length (concat chunks)" "size_of (take i (concat chunks)) + j = p"
    "j \<le> length (snd (concat chunks ! i))"
    using assms unfolding reader_at_def by (blast intro: less_imp_le_nat eq_imp_le)
  then show ?thesis using log_file_nth(4) [of h chunks zf i] by linarith
qed

lemma in_chunk_one:
  assumes "log_holds cfg be h d chunks" and "concat chunks \<noteq> []"
  shows "in_chunk chunks 1 0"
proof -
  have "0 < length chunks" using assms(2) by auto
  then show ?thesis
    using log_holds_chunk [OF assms(1), of 0] by (cases chunks) (simp_all add: in_chunk_def)
qed

lemma TryRecoverWAL_reader:
  assumes log: "log_holds cfg be h (world dev) chunks" and zf: "log_file h chunks zf"
    and i: "i < length (concat chunks)" and j: "j < length (snd (concat chunks ! i))"
    and st: "unread zf \<and> i = 0 \<or> (\<exists>k. in_chunk chunks k i \<and> zf = loaded chunks k zf)"
  shows "\<exists>k. in_chunk chunks k i \<and>
     TryRecoverWAL cfg be (of_nat (size_of (take i (concat chunks)) + j)) zf dev = Some (OK, loaded chunks k zf, dev)"
proof -
  have sz: "length (log_data chunks) < 2 ^ 63" using zf by (simp add: log_file_def)
  have e: "of_nat (size_of (take i (concat chunks)) + j) < chunk_end (loaded chunks k zf)" if "in_chunk chunks k i" for k
  proof -
    have "size_of (take i (concat chunks)) + j < size_of (concat (take k chunks))"
      using in_chunk_end(1) [OF that] size_of_take_Suc [OF i] j by linarith
    moreover have "size_of (concat (take k chunks)) < 2 ^ 63"
      using in_chunk_end(2) [OF that] sz by (simp add: length_log_data)
    ultimately show ?thesis using u64_of_nat(1) [of "size_of (take i (concat chunks)) + j"] by simp
  qed
  from st show ?thesis
  proof
    assume u: "unread zf \<and> i = 0"
    have k: "in_chunk chunks 1 i" using in_chunk_one [OF log] i u by auto
    have "load_chunk cfg be h zf dev = Some (OK, False, loaded chunks 1 zf, dev)"
      using u i by (intro load_first [OF log]) (auto simp: unread_def)
    then show ?thesis
      using k e [OF k] zf u
      by (intro exI [of _ 1] conjI TryRecoverWAL_step [where h = h and stop = False])
         (auto simp: log_file_def unread_def intro: min.coboundedI1)
  next
    assume "\<exists>k. in_chunk chunks k i \<and> zf = loaded chunks k zf"
    then obtain k where k: "in_chunk chunks k i" "zf = loaded chunks k zf" by blast
    have "chunks ! (k - 1) \<noteq> []" by (rule in_chunk_entries [OF log k(1)])
    then have "TryRecoverWAL cfg be (of_nat (size_of (take i (concat chunks)) + j)) (loaded chunks k zf) dev
        = Some (OK, loaded chunks k zf, dev)"
      using e [OF k(1)] by (intro TryRecoverWAL_here) simp_all
    then show ?thesis using k by metis
  qed
qed

lemma finish_read_log:
  assumes log: "log_holds cfg be h (world dev) chunks" and zf: "log_file h chunks zf"
    and k: "in_chunk chunks k i" and j: "j \<le> length (snd (concat chunks ! i))"
    and pos: "size_of (take i (concat chunks)) + j = p + length buf"
  shows "\<exists>zf'. finish_read cfg be True (of_nat p) (reading_at chunks i j buf) (loaded chunks k zf) dev
       = Some (OK, buf, zf', dev) \<and> reader_at h chunks (p + length buf) zf'"
proof -
  let ?L = "length (snd (concat chunks ! i))"
  have i: "i < length (concat chunks)" by (rule in_chunk_nth [OF k])
  have L: "?L < 2 ^ 63" by (rule log_file_nth(5) [OF zf i])
  have eq: "(of_nat j :: u64) = of_nat ?L \<longleftrightarrow> j = ?L" using j L by (intro u64_of_nat) auto
  define keep where "keep i j zf = zf\<lparr>reader_offset_index := of_nat i, reader_offset := of_nat j,
      last_read := of_nat p + of_nat (length buf)\<rparr>" for i j and zf :: ZoneFile
  have reader: "reader_at h chunks (p + length buf) (keep i' j' (loaded chunks k' zf))"
    if "in_chunk chunks k' i'" "size_of (take i' (concat chunks)) + j' = p + length buf"
      "j' < length (snd (concat chunks ! i')) \<or> Suc i' = length (concat chunks) \<and> j' = length (snd (concat chunks ! i'))"
    for k' i' j'
  proof -
    have "log_file h chunks (keep i' j' (loaded chunks k' zf))"
      using zf by (simp add: log_file_def keep_def loaded_def)
    moreover have "keep i' j' (loaded chunks k' zf) = loaded chunks k' (keep i' j' (loaded chunks k' zf))"
      by (simp add: keep_def loaded_def)
    moreover have "reader_offset_index (keep i' j' (loaded chunks k' zf)) = of_nat i'"
        "reader_offset (keep i' j' (loaded chunks k' zf)) = of_nat j'"
      by (simp_all add: keep_def)
    ultimately show ?thesis
      unfolding reader_at_def using that in_chunk_nth(1) [OF that(1)] by blast
  qed
  consider (inside) "j < ?L" | (more) "j = ?L" "Suc i < length (concat chunks)"
    | (atend) "j = ?L" "Suc i = length (concat chunks)"
    using j i by linarith
  then show ?thesis
  proof cases
    case inside
    then have "finish_read cfg be True (of_nat p) (reading_at chunks i j buf) (loaded chunks k zf) dev
        = Some (OK, buf, keep i j (loaded chunks k zf), dev)"
      using eq by (simp add: finish_read_def reading_at_def Let_def keep_def)
    then show ?thesis using reader [OF k pos] inside by blast
  next
    case more
    have s: "size_of (take (Suc i) (concat chunks)) = p + length buf"
      using size_of_take_Suc [OF i] pos more by simp
    obtain k' where k': "in_chunk chunks k' (Suc i)"
      and n: "next_extent cfg be True (of_nat (p + length buf)) (reading_at chunks i j buf) (loaded chunks k zf) dev
        = Some (OK, True, reading_at chunks (Suc i) 0 buf, loaded chunks k' zf, dev)"
      using next_extent_more [OF log zf k more(2), of "reading_at chunks i j buf"] more(1) s
      by (auto simp: reading_at_def)
    have "finish_read cfg be True (of_nat p) (reading_at chunks i j buf) (loaded chunks k zf) dev
        = Some (OK, buf, keep (Suc i) 0 (loaded chunks k' zf), dev)"
      using n more(1) by (simp add: finish_read_def reading_at_def Let_def keep_def)
    then show ?thesis using reader [OF k', of 0] s log_file_nth(3) [OF zf more(2)] by auto
  next
    case atend
    have "take (Suc i) (concat chunks) = concat chunks" using atend by simp
    then have s: "length (log_data chunks) = p + length buf"
      using size_of_take_Suc [OF i] pos atend by (simp add: length_log_data)
    have "next_extent cfg be True (of_nat (p + length buf)) (reading_at chunks i j buf) (loaded chunks k zf) dev
        = Some (OK, False, reading_at chunks i j buf, loaded chunks k zf, dev)"
      using next_extent_end [OF log zf k atend(2), of "reading_at chunks i j buf"] atend(1) s
      by (simp add: reading_at_def)
    then have "finish_read cfg be True (of_nat p) (reading_at chunks i j buf) (loaded chunks k zf) dev
        = Some (OK, buf, keep i j (loaded chunks k zf), dev)"
      using atend(1) by (simp add: finish_read_def reading_at_def Let_def keep_def)
    then show ?thesis using reader [OF k pos] atend by blast
  qed
qed

lemma WALPositionedRead_log:
  assumes log: "log_holds cfg be h (world dev) chunks" and zf: "reader_at h chunks p zf"
    and n: "unat n < 2 ^ 63"
  shows "\<exists>zf'. WALPositionedRead cfg be (of_nat p) n False zf dev
       = Some (OK, take (unat n) (drop p (log_data chunks)), zf', dev) \<and>
     reader_at h chunks (min (p + unat n) (length (log_data chunks))) zf'"
proof -
  let ?d = "log_data chunks"
  obtain i j where f: "log_file h chunks zf" and i: "i < length (concat chunks)"
    and p: "size_of (take i (concat chunks)) + j = p"
    and ij: "reader_offset_index zf = of_nat i" "reader_offset zf = of_nat j"
    and e: "j < length (snd (concat chunks ! i)) \<or> Suc i = length (concat chunks) \<and> j = length (snd (concat chunks ! i))"
    and st: "unread zf \<and> i = 0 \<and> j = 0 \<or> (\<exists>k. in_chunk chunks k i \<and> zf = loaded chunks k zf)"
    using zf unfolding reader_at_def by blast
  have sz: "length ?d < 2 ^ 63" "file_size zf = of_nat (length ?d)"
    and iswal: "ends_with (hd (linkfiles zf)) (str ''.log'')" using f by (simp_all add: log_file_def)
  show ?thesis
  proof (cases "j < length (snd (concat chunks ! i))")
    case True
    have pd: "p < length ?d" using log_file_nth(4) [OF f i] True p by linarith
    define r where "r = min (unat n) (length ?d - p)"
    obtain k where k: "in_chunk chunks k i"
      and t: "TryRecoverWAL cfg be (of_nat p) zf dev = Some (OK, loaded chunks k zf, dev)"
      using TryRecoverWAL_reader [OF log f i True] st p by blast
    have "of_nat p + n > of_nat (length ?d) \<longleftrightarrow> p + unat n > length ?d"
      using u64_of_nat(1) [of "length ?d" "p + unat n"] sz pd n by simp
    then have r: "limit_read (loaded chunks k zf) (of_nat p) n = of_nat r"
      using pd sz by (auto simp: limit_read_def r_def min_def of_nat_diff)
    have pr: "p + r \<le> length ?d" using pd by (simp add: r_def)
    obtain k' i' j' where l: "in_chunk chunks k' i'" "size_of (take i' (concat chunks)) + j' = p + r"
      "j' \<le> length (snd (concat chunks ! i'))"
      "WALPositionedRead_loop cfg be True False (of_nat p) (of_nat r) (reading_at chunks i j []) (loaded chunks k zf) dev
       = Some (OK, reading_at chunks i' j' (take r (drop p ?d)), loaded chunks k' zf, dev)"
      using WALPositionedRead_loop_log [OF log f k, of j 0 r p] True p pr by auto
    have len: "length (take r (drop p ?d)) = r" using pr by simp
    obtain zf' where z: "finish_read cfg be True (of_nat p) (reading_at chunks i' j' (take r (drop p ?d))) (loaded chunks k' zf) dev
        = Some (OK, take r (drop p ?d), zf', dev)" "reader_at h chunks (p + r) zf'"
      using finish_read_log [OF log f l(1,3), of p "take r (drop p ?d)"] l(2) len by auto
    have "(of_nat (length ?d) \<le> (of_nat p :: u64)) = False"
      using u64_of_nat(2) [of "length ?d" p] sz pd by simp
    moreover have "wal_extent (loaded chunks k zf) 0 (of_nat i) = Some (extents zf ! i, 0, of_nat i)"
      using wal_extent_at [of h chunks "loaded chunks k zf"] f i by simp
    moreover have "reader_offset_index (loaded chunks k zf) = of_nat i" "reader_offset (loaded chunks k zf) = of_nat j"
      using ij by (simp_all add: loaded_def)
    ultimately have "WALPositionedRead cfg be (of_nat p) n False zf dev = Some (OK, take r (drop p ?d), zf', dev)"
      using l(4) z(1) t r log_file_nth(2) [OF f i] iswal sz(2)
      by (simp add: WALPositionedRead_def reading_at_def)
    moreover have "take r (drop p ?d) = take (unat n) (drop p ?d)" by (simp add: r_def min_def)
    moreover have "p + r = min (p + unat n) (length ?d)" using pd by (auto simp: r_def min_def)
    ultimately show ?thesis using z(2) by metis
  next
    case False
    then have "Suc i = length (concat chunks)" "j = length (snd (concat chunks ! i))" using e by auto
    then have "p = length ?d"
      using size_of_take_Suc [OF i] p by (simp add: length_log_data)
    moreover from this have "WALPositionedRead cfg be (of_nat p) n False zf dev = Some (OK, [], zf, dev)"
      using sz(2) by (simp add: WALPositionedRead_def Let_def)
    ultimately show ?thesis using zf by auto
  qed
qed

section \<open>Whole reads\<close>

text \<open>Successive reads through one \<^verbatim>\<open>ZonedSequentialFile\<close>, stopping at the first error.\<close>

fun sequential_reads ::
    "config \<Rightarrow> 'd backend \<Rightarrow> u64 list \<Rightarrow> ZonedSequentialFile \<Rightarrow> ZoneFile \<Rightarrow> 'd zbd \<Rightarrow>
     (status \<times> bytes \<times> ZoneFile \<times> 'd zbd) option" where
  "sequential_reads cfg be [] sq zf dev = Some (OK, [], zf, dev)"
| "sequential_reads cfg be (n # ns) sq zf dev =
     do {
       (s, bs, sq1, zf1, dev1) \<leftarrow> ZonedSequentialFile_Read cfg be n sq zf dev;
       (if \<not> ok s then Some (s, bs, zf1, dev1)
        else do {
          (s2, bs2, zf2, dev2) \<leftarrow> sequential_reads cfg be ns sq1 zf1 dev1;
          Some (s2, bs @ bs2, zf2, dev2)
        })
     }"

lemma sequential_reads_log:
  assumes "log_holds cfg be h (world dev) chunks" and "reader_at h chunks p zf"
    and "sq_rp sq = of_nat p" and "\<not> sq_direct sq" and "\<forall>n \<in> set ns. unat n < 2 ^ 63"
  shows "\<exists>zf'. sequential_reads cfg be ns sq zf dev
       = Some (OK, take (sum_list (map unat ns)) (drop p (log_data chunks)), zf', dev) \<and>
     reader_at h chunks (min (p + sum_list (map unat ns)) (length (log_data chunks))) zf'"
  using assms
proof (induction ns arbitrary: p sq zf)
  case Nil
  have "p \<le> length (log_data chunks)" by (rule reader_at_le [OF Nil.prems(2)])
  then show ?case using Nil.prems(2) by (simp add: min_absorb1)
next
  case (Cons n ns)
  let ?d = "log_data chunks" and ?p = "min (p + unat n) (length (log_data chunks))"
  obtain zf1 where r: "WALPositionedRead cfg be (of_nat p) n False zf dev = Some (OK, take (unat n) (drop p ?d), zf1, dev)"
      "reader_at h chunks ?p zf1"
    using WALPositionedRead_log [OF Cons.prems(1,2), of n] Cons.prems(5) by auto
  have p: "p \<le> length ?d" by (rule reader_at_le [OF Cons.prems(2)])
  have "length (take (unat n) (drop p ?d)) = ?p - p" using p by auto
  then have rp: "of_nat p + of_nat (length (take (unat n) (drop p ?d))) = (of_nat ?p :: u64)"
    using p by (simp add: of_nat_add [symmetric] del: of_nat_add)
  obtain zf2 where s: "sequential_reads cfg be ns (sq\<lparr>sq_rp := of_nat ?p\<rparr>) zf1 dev
      = Some (OK, take (sum_list (map unat ns)) (drop ?p ?d), zf2, dev)"
      "reader_at h chunks (min (?p + sum_list (map unat ns)) (length ?d)) zf2"
    using Cons.IH [OF Cons.prems(1) r(2), of "sq\<lparr>sq_rp := of_nat ?p\<rparr>"] Cons.prems(4,5) by auto
  have "take (unat n) (drop p ?d) @ take m (drop ?p ?d) = take (unat n + m) (drop p ?d)" for m
    by (cases "p + unat n \<le> length ?d") (simp_all add: take_add add.commute [of p])
  moreover have "min (?p + m) (length ?d) = min (p + (unat n + m)) (length ?d)" for m
    by auto
  moreover have "ZonedSequentialFile_Read cfg be n sq zf dev
      = Some (OK, take (unat n) (drop p ?d), sq\<lparr>sq_rp := of_nat ?p\<rparr>, zf1, dev)"
    using r(1) Cons.prems(3,4) rp by (simp add: ZonedSequentialFile_Read_def PositionedRead_def)
  ultimately show ?case using s by simp
qed

text \<open>A reader that has seen all of the log leaves nothing for a reader that starts again at offset 0.\<close>

lemma reread_empty:
  assumes log: "log_holds cfg be h (world dev) chunks" and at: "reader_at h chunks (length (log_data chunks)) zf"
    and n: "unat n < 2 ^ 63"
  shows "\<exists>zf'. WALPositionedRead cfg be 0 n False zf dev = Some (OK, [], zf', dev)"
proof -
  let ?d = "log_data chunks"
  obtain i j where f: "log_file h chunks zf" and i: "i < length (concat chunks)"
    and p: "size_of (take i (concat chunks)) + j = length ?d"
    and ij: "reader_offset_index zf = of_nat i" "reader_offset zf = of_nat j"
    and e: "j < length (snd (concat chunks ! i)) \<or> Suc i = length (concat chunks) \<and> j = length (snd (concat chunks ! i))"
    and st: "unread zf \<and> i = 0 \<and> j = 0 \<or> (\<exists>k. in_chunk chunks k i \<and> zf = loaded chunks k zf)"
    using at unfolding reader_at_def by blast
  let ?L = "length (snd (concat chunks ! i))"
  have L: "0 < ?L" "?L < 2 ^ 63" by (rule log_file_nth(3,5) [OF f i])+
  have j: "j = ?L" "Suc i = length (concat chunks)" using e p log_file_nth(4) [OF f i] by auto
  then obtain k where k: "in_chunk chunks k i" and z: "zf = loaded chunks k zf" using st L by auto
  have sz: "length ?d < 2 ^ 63" "file_size zf = of_nat (length ?d)"
    and iswal: "ends_with (hd (linkfiles zf)) (str ''.log'')" using f by (simp_all add: log_file_def)
  have "0 < size_of (concat (take k chunks))" "size_of (concat (take k chunks)) < 2 ^ 63"
    using in_chunk_end [OF k] size_of_take_Suc [OF i] L sz(1) length_log_data [of chunks] by linarith+
  then have "(0 :: u64) < chunk_end (loaded chunks k zf)" using u64_of_nat(1) [of 0] by simp
  then have t: "TryRecoverWAL cfg be 0 zf dev = Some (OK, zf, dev)"
    using in_chunk_entries [OF log k] z by (intro TryRecoverWAL_here) (metis loaded_sel(3), metis)
  have pos: "0 < length ?d" using p j L by linarith
  define r where "r = min (unat n) (length ?d)"
  have "n > of_nat (length ?d) \<longleftrightarrow> unat n > length ?d"
    using u64_of_nat(1) [of "length ?d" "unat n"] sz n by simp
  then have r: "limit_read zf 0 n = of_nat r"
    using sz by (auto simp: limit_read_def r_def min_def)
  have "r = 0 \<or> of_nat r + (of_nat ?L :: u64) > of_nat ?L"
    using u64_of_nat(1) [of ?L "r + ?L"] L sz by (auto simp: r_def min_def)
  then have "pread_size (of_nat r) (of_nat ?L) (of_nat ?L) = 0" by (auto simp: pread_size_def)
  moreover have "read_piece be True False zf (reading_at chunks i ?L []) 0 dev = Some (RData [], dev)"
    using read_piece_log [OF f k, of ?L 0 be False "[]" dev] z by simp
  ultimately have loop: "WALPositionedRead_loop cfg be True False 0 (of_nat r) (reading_at chunks i ?L []) zf dev
      = Some (OK, reading_at chunks i ?L [], zf, dev)"
    unfolding WALPositionedRead_loop.simps [of cfg be True False 0 _ _ zf]
    by (simp add: WALPositionedRead_step_def reading_at_def Let_def align_up_def)
  have "wal_extent zf (of_nat ?L) (of_nat i) = None" using wal_extent_next [OF f i] j(2) by simp
  then have "next_extent cfg be True 0 (reading_at chunks i ?L []) zf dev = Some (OK, False, reading_at chunks i ?L [], zf, dev)"
    using t by (simp add: next_extent_def reading_at_def)
  moreover have "(of_nat (length ?d) \<le> (0 :: u64)) = False"
    using u64_of_nat(2) [of "length ?d" 0] sz pos by simp
  moreover have "wal_extent zf 0 (of_nat i) = Some (extents zf ! i, 0, of_nat i)" by (rule wal_extent_at [OF f i])
  ultimately show ?thesis
    using t iswal loop r ij sz(2) j(1) log_file_nth(2) [OF f i]
    by (simp add: WALPositionedRead_def finish_read_def reading_at_def Let_def)
qed

end
