(* ===== verification/Wal_Write.thy ===== *)
theory Wal_Write
  imports Wal_Read Zone_Refs
begin

text \<open>
  Writing a write-ahead log: the record a flush of the buffer puts on the device, the barriers, and
  how the records of a log lie in its chunks.
\<close>

section \<open>A record\<close>

definition padding :: "nat \<Rightarrow> nat" where
  "padding n = (if n mod 4096 = 0 then 0 else 4096 - n mod 4096)"

lemma padding_less: "padding n < 4096"
  by (simp add: padding_def)

lemma round_up_mod:
  assumes "0 < k"
  shows "(n + (k - n mod k)) mod k = (0 :: nat)"
proof -
  have "n mod k < k" using assms by simp
  then have "n + (k - n mod k) = k * (n div k) + k" using mult_div_mod_eq [of k n] by linarith
  then show ?thesis by simp
qed

lemma padding_aligned: "(n + padding n) mod 4096 = 0"
  using round_up_mod [of 4096 n] by (simp add: padding_def)

lemma pad_size_padding:
  assumes "n < 2 ^ 32"
  shows "pad_size sparse_block_sz (of_nat n) = of_nat (padding n)"
proof -
  have m: "(of_nat n :: u32) mod 4096 = of_nat (n mod 4096)"
    using assms by (simp add: word_arith_nat_mod unat_of_nat_small)
  have "n mod 4096 < 4096" by simp
  then have "(of_nat (n mod 4096) :: u32) = 0 \<longleftrightarrow> n mod 4096 = 0"
    by (simp add: word_unat_eq_iff unat_of_nat_small)
  then show ?thesis unfolding pad_size_def sparse_block_sz_def m padding_def
    using \<open>n mod 4096 < 4096\<close> by (simp add: of_nat_diff)
qed

text \<open>What one flush of \<open>data\<close> hands to the device.\<close>

definition payload :: "u64 \<Rightarrow> bytes \<Rightarrow> bytes" where
  "payload seq data = wal_record (seq, data) @ replicate (padding (length data + 16)) 0"

lemma length_payload: "length (payload seq data) = length data + 16 + padding (length data + 16)"
  by (simp add: payload_def)

lemma payload_aligned: "length (payload seq data) mod 4096 = 0"
  unfolding length_payload by (rule padding_aligned)

lemma u32_u64_of_nat:
  assumes "n < 2 ^ 32"
  shows "(ucast (of_nat n :: u32) :: u64) = of_nat n" and "(ucast (of_nat n :: u64) :: u32) = of_nat n"
    and "unat (of_nat n :: u32) = n" and "unat (of_nat n :: u64) = n"
  using assms by (simp_all add: unsigned_of_nat take_bit_nat_eq_self)

lemma write_size_fits:
  assumes "n < 2 ^ 32" and "n \<le> unat capacity"
    and "is_wal zf \<longrightarrow> n \<le> unat (barrier cfg - append_bytes_since_last_barrier zf)"
  shows "write_size cfg zf capacity (of_nat n) = of_nat n"
proof -
  have "\<not> (of_nat n :: u64) > capacity" "is_wal zf \<longrightarrow> \<not> (of_nat n :: u64) > barrier cfg - append_bytes_since_last_barrier zf"
    using assms by (auto simp: word_less_nat_alt u32_u64_of_nat)
  then show ?thesis using assms(1) by (auto simp: write_size_def Let_def u32_u64_of_nat)
qed

text \<open>The buffer of a sparse file: room for the header, the data, and room for the padding.\<close>

lemma sparse_record_buffer:
  assumes "length hdr = 16" and "padding (length data + 16) \<le> length slack"
  shows "\<exists>buf1. poke (length data + 16) (replicate (padding (length data + 16)) 0) (hdr @ data @ slack) = Some buf1 \<and>
    sparse_header (of_nat (length data)) seq buf1
      = Some (payload seq data @ drop (padding (length data + 16)) slack)"
proof -
  let ?p = "padding (length data + 16)"
  have "poke (length data + 16) (replicate ?p 0) (hdr @ data @ slack) = Some (hdr @ data @ replicate ?p 0 @ drop ?p slack)"
    using assms by (simp add: poke_def)
  moreover have "sparse_header (of_nat (length data)) seq (hdr @ data @ q)
      = Some (EncodeFixed64 (of_nat (length data)) @ EncodeFixed64 seq @ data @ q)" for q
    using assms(1) by (simp add: sparse_header_def poke_def)
  ultimately show ?thesis by (simp add: payload_def wal_record_def)
qed

text \<open>
  A log that is open for writing: its zone and its once-log are there, and \<open>cap\<close> bytes are left in
  the zone.
\<close>

definition wal_open :: "zref \<Rightarrow> nat \<Rightarrow> nat \<Rightarrow> ('d, 'm) fenv \<Rightarrow> bool" where
  "wal_open r h cap st \<longleftrightarrow>
     is_wal (f_file st) \<and> is_sparse (f_file st) \<and> active_zone (f_file st) = Some r \<and> wal (f_file st) = Some h \<and>
     zone_valid (f_dev st) r \<and> unat (z_capacity (zone_at (f_dev st) r)) = cap"

text \<open>What a record changes of the file, whose zone's write pointer is then \<open>wp\<close>.\<close>

definition add_record :: "zref \<Rightarrow> bytes \<Rightarrow> u64 \<Rightarrow> ZoneFile \<Rightarrow> ZoneFile" where
  "add_record r data wp zf =
     zf\<lparr>extents := extents zf @ [\<lparr> e_start = extent_start zf + 16, e_length = of_nat (length data), e_zone = r \<rparr>],
        extent_start := wp, file_size := file_size zf + of_nat (length data), wal_seq := wal_seq zf + 1,
        append_bytes_since_last_barrier :=
          append_bytes_since_last_barrier zf + of_nat (length (payload (wal_seq zf) data))\<rparr>"

text \<open>The write and the bookkeeping of a record.\<close>

lemma sparse_write_record:
  assumes op: "wal_open r h cap st" and len: "length pl < 2 ^ 32" "length pl < cap"
    and pl: "pl = payload (wal_seq (f_file st)) data"
    and app: "be_Append be pl h (world (f_dev st)) = (ret, d)" "0 \<le> ret"
  shows "\<exists>wp st1 st2. sparse_write be r pl (of_nat (length pl)) (upd_file (\<lambda>zf. zf\<lparr>wal_seq := wal_seq zf + 1\<rparr>) st) = Some (OK, st1) \<and>
     extent_start (f_file st1) = extent_start (f_file st) \<and>
     record_extent r (extent_start (f_file st) + 16) (of_nat (length data)) st1 = st2 \<and>
     f_file st2 = add_record r data wp (f_file st) \<and> world (f_dev st2) = d \<and> wal_open r h (cap - length pl) st2"
proof -
  let ?zf = "f_file st" and ?z = "zone_at (f_dev st) r"
  note o = op [unfolded wal_open_def]
  have c: "\<not> z_capacity ?z < of_nat (length pl)" "unat (z_capacity ?z - of_nat (length pl)) = cap - length pl"
    using len o u32_u64_of_nat(4) [OF len(1)] by (simp_all add: word_less_nat_alt unat_diff_le word_le_nat_alt)
  define dev1 where "dev1 = (put_zone r (?z\<lparr>z_wp := z_wp ?z + of_nat (length pl),
      z_capacity := z_capacity ?z - of_nat (length pl)\<rparr>) (f_dev st))
      \<lparr>bytes_written := bytes_written (f_dev st) + of_nat (length pl), world := d\<rparr>"
  define st1 where "st1 = (upd_file (\<lambda>zf. zf\<lparr>append_bytes_since_last_barrier :=
      append_bytes_since_last_barrier zf + of_nat (length pl)\<rparr>)
      (upd_file (\<lambda>zf. zf\<lparr>wal_seq := wal_seq zf + 1\<rparr>) st))\<lparr>f_dev := dev1\<rparr>"
  define st2 where "st2 = record_extent r (extent_start ?zf + 16) (of_nat (length data)) st1"
  have za: "zone_append_to be r h pl (f_dev st) = (OK, dev1)"
    using c(1) app by (simp add: zone_append_to_def ZoneAppend_def dev1_def Let_def)
  have "sparse_write be r pl (of_nat (length pl)) (upd_file (\<lambda>zf. zf\<lparr>wal_seq := wal_seq zf + 1\<rparr>) st) = Some (OK, st1)"
    using za o u32_u64_of_nat(1) [OF len(1)] by (simp add: sparse_write_def upd_file_def st1_def)
  moreover have f2: "f_file st2 = add_record r data (z_wp (zone_at dev1 r)) ?zf"
    by (simp add: st2_def record_extent_def Let_def upd_dev_def upd_file_def st1_def add_record_def pl)
  moreover have "z_capacity (zone_at (f_dev st2) r) = z_capacity ?z - of_nat (length pl)"
    "world (f_dev st2) = d" "zone_valid (f_dev st2) r"
    using o by (simp_all add: st2_def record_extent_def Let_def upd_dev_def upd_file_def add_used_def st1_def dev1_def)
  moreover have "extent_start (f_file st1) = extent_start ?zf" by (simp add: st1_def upd_file_def)
  ultimately show ?thesis
    using c(2) o unfolding wal_open_def
    by (intro exI [of _ "z_wp (zone_at dev1 r)"] exI [of _ st1] exI [of _ st2])
       (simp add: add_record_def st2_def)
qed

text \<open>
  One round of \<^verbatim>\<open>SparseAppend\<close> in which \<open>n\<close> bytes are left and the first \<open>length data\<close> of them fit, in
  a zone that does not become full.
\<close>

lemma SparseAppend_step_part:
  assumes op: "wal_open r h cap st" and hdr: "length hdr = 16" and slack: "padding (length data + 16) \<le> length slack"
    and data: "length data \<le> n" "n < 2 ^ 31"
    and bar: "append_bytes_since_last_barrier (f_file st) < barrier cfg"
    and wr: "write_size cfg (f_file st) (z_capacity (zone_at (f_dev st) r)) (of_nat (n + 16)) = of_nat (length data + 16)"
    and cap: "length (payload (wal_seq (f_file st)) data) < cap"
    and app: "be_Append be (payload (wal_seq (f_file st)) data) h (world (f_dev st)) = (ret, d)" "0 \<le> ret"
  shows "\<exists>wp st'. SparseAppend_step cfg be persist (hdr @ data @ slack) (of_nat n) st
       = Some (OK, payload (wal_seq (f_file st)) data @ drop (padding (length data + 16)) slack, of_nat (n - length data), st') \<and>
     f_file st' = add_record r data wp (f_file st) \<and> world (f_dev st') = d \<and>
     wal_open r h (cap - length (payload (wal_seq (f_file st)) data)) st'"
proof -
  let ?zf = "f_file st" and ?m = "length data"
  let ?p = "padding (?m + 16)" and ?pl = "payload (wal_seq ?zf) data"
  note o = op [unfolded wal_open_def]
  have p: "?p < 4096" by (rule padding_less)
  have len: "length ?pl = ?m + 16 + ?p" by (rule length_payload)
  have small: "?m + 16 + ?p < 2 ^ 32" "n + 16 < 2 ^ 32" "n < 2 ^ 32" "length ?pl < 2 ^ 32" using data p len by simp_all
  have hd: "header_size ?zf = 16"
    using o by (simp add: header_size_def SPARSE_HEADER_SIZE_def SPARSE_WAL_HEADER_SIZE_def)
  have barrier: "sparse_barrier cfg be st = (OK, st)" using bar by (auto simp: sparse_barrier_def)
  have want: "(ucast ((ucast (of_nat n :: u32) :: u64) + 16) :: u32) = of_nat (n + 16)"
    using u32_u64_of_nat(2) [OF small(2)] u32_u64_of_nat(1) [OF small(3)] by simp
  have pad: "pad_size sparse_block_sz (of_nat (?m + 16)) = of_nat ?p"
    by (rule pad_size_padding) (use small(1) in simp)
  have un: "unat (of_nat (?m + 16) :: u32) = ?m + 16" "unat (of_nat ?p :: u32) = ?p"
    "of_nat (?m + 16) + of_nat ?p = (of_nat (length ?pl) :: u32)" "unat (of_nat (length ?pl) :: u32) = ?m + 16 + ?p"
    "(ucast (of_nat (?m + 16) :: u32) :: u64) - 16 = of_nat ?m"
    using small u32_u64_of_nat [of "?m + 16"] u32_u64_of_nat [of "length ?pl"] u32_u64_of_nat [of ?p] len by simp_all
  have left: "(ucast ((ucast (of_nat n :: u32) :: u64) - of_nat ?m) :: u32) = of_nat (n - ?m)"
  proof -
    have "(ucast (of_nat n :: u32) :: u64) - of_nat ?m = of_nat (n - ?m)"
      using u32_u64_of_nat(1) [OF small(3)] data(1) by (simp add: of_nat_diff)
    then show ?thesis using u32_u64_of_nat(2) [of "n - ?m"] small(3) by simp
  qed
  obtain buf1 where buf: "poke (?m + 16) (replicate ?p 0) (hdr @ data @ slack) = Some buf1"
      "sparse_header (of_nat ?m) (wal_seq ?zf) buf1 = Some (?pl @ drop ?p slack)"
    using sparse_record_buffer [OF hdr slack] by blast
  have pk: "peek 0 (?m + 16 + ?p) (?pl @ drop ?p slack) = Some ?pl" using len by (simp add: peek_def)
  obtain wp st1 st2 where sw:
      "sparse_write be r ?pl (of_nat (length ?pl)) (upd_file (\<lambda>zf. zf\<lparr>wal_seq := wal_seq zf + 1\<rparr>) st) = Some (OK, st1)"
      "extent_start (f_file st1) = extent_start ?zf"
      "record_extent r (extent_start ?zf + 16) (of_nat ?m) st1 = st2"
    and st2: "f_file st2 = add_record r data wp ?zf" "world (f_dev st2) = d" "wal_open r h (cap - length ?pl) st2"
    using sparse_write_record [OF op small(4) cap refl app] by (elim exE conjE) (rule that)
  have "unat (z_capacity (zone_at (f_dev st2) r)) \<noteq> 0" using st2(3) cap by (simp add: wal_open_def)
  then have nz: "next_zone be persist 16 (of_nat (?m + 16)) (?pl @ drop ?p slack) (of_nat (n - ?m)) r st2
      = Some (OK, ?pl @ drop ?p slack, of_nat (n - ?m), st2)"
    by (auto simp: next_zone_def)
  have "SparseAppend_step cfg be persist (hdr @ data @ slack) (of_nat n) st
      = Some (OK, ?pl @ drop ?p slack, of_nat (n - ?m), st2)"
    unfolding SparseAppend_step_def Let_def hd barrier prod.case want
    using o by (simp add: wr pad un left buf pk sw nz del: of_nat_add)
  then show ?thesis using st2 by (intro exI [of _ wp] exI [of _ st2]) simp
qed

lemma SparseAppend_step_record:
  assumes op: "wal_open r h cap st" and hdr: "length hdr = 16" and slack: "4096 \<le> length slack"
    and data: "data \<noteq> []" "length data < 2 ^ 31"
    and bar: "append_bytes_since_last_barrier (f_file st) < barrier cfg"
      "length data + 16 \<le> unat (barrier cfg - append_bytes_since_last_barrier (f_file st))"
    and cap: "length (payload (wal_seq (f_file st)) data) < cap"
    and app: "be_Append be (payload (wal_seq (f_file st)) data) h (world (f_dev st)) = (ret, d)" "0 \<le> ret"
  shows "\<exists>slack' wp st'. SparseAppend_step cfg be persist (hdr @ data @ slack) (of_nat (length data)) st
       = Some (OK, payload (wal_seq (f_file st)) data @ slack', 0, st') \<and>
     length (payload (wal_seq (f_file st)) data @ slack') = length (hdr @ data @ slack) \<and>
     f_file st' = add_record r data wp (f_file st) \<and> world (f_dev st') = d \<and>
     wal_open r h (cap - length (payload (wal_seq (f_file st)) data)) st'"
proof -
  have p: "padding (length data + 16) < 4096" by (rule padding_less)
  then have sl: "padding (length data + 16) \<le> length slack" using slack by simp
  have "write_size cfg (f_file st) (z_capacity (zone_at (f_dev st) r)) (of_nat (length data + 16)) = of_nat (length data + 16)"
    using op data(2) bar(2) cap by (intro write_size_fits) (simp_all add: wal_open_def length_payload)
  from SparseAppend_step_part [OF op hdr sl order_refl data(2) bar(1) this cap app, of persist]
  show ?thesis using hdr sl by (auto simp: length_payload)
qed

end
