(* ===== verification/Wal_Roundtrip.thy ===== *)
theory Wal_Roundtrip
  imports Wal_Write "HOL-Library.Multiset"
begin

text \<open>
  From the bytes appended to a write-ahead log to the bytes read back: the once-log below, the records
  a writer leaves on it, and that the reader finds them.
\<close>

section \<open>The once-log\<close>

text \<open>
  What the log relies on. A once-log keeps the appended pieces in groups: pieces of one group may
  change places on the device, a sync starts a new group. \<open>img\<close> is what is on the device, from the
  first block \<open>tail\<close> on. A read within it returns its bytes.
\<close>

definition log_law :: "'d backend \<Rightarrow> nat \<Rightarrow> ('d \<Rightarrow> bytes list list) \<Rightarrow> ('d \<Rightarrow> bytes) \<Rightarrow> u64 \<Rightarrow> bool" where
  "log_law be h groups img tail \<longleftrightarrow>
     block_shift be = 12 \<and>
     (\<forall>d. groups d \<noteq> [] \<and>
        (\<exists>pgs. img d = concat (concat pgs) \<and> list_all2 (\<lambda>p g. mset p = mset g) pgs (groups d))) \<and>
     (\<forall>data d. length data mod 4096 = 0 \<longrightarrow>
        0 \<le> fst (be_Append be data h d) \<and>
        groups (snd (be_Append be data h d)) = butlast (groups d) @ [last (groups d) @ [data]]) \<and>
     (\<forall>d. groups (snd (be_AppendSync be h d)) = groups d @ [[]]) \<and>
     (\<forall>d. fst (szd_Sync be h d) \<and> groups (snd (szd_Sync be h d)) = groups d) \<and>
     (\<forall>i n d. i * 4096 + n \<le> length (img d) \<and> i * 4096 + n < 2 ^ 63 \<longrightarrow>
        szd_Read be h (tail + of_nat i) n d = (Some (take n (drop (i * 4096) (img d))), d)) \<and>
     (\<forall>d. szd_GetWriteTail be h d = tail \<and> szd_GetWriteHead be h d = tail + of_nat (length (img d) div 4096))"

lemma log_lawD:
  assumes "log_law be h groups img tail"
  shows "block_shift be = 12" "groups d \<noteq> []"
    and "\<exists>pgs. img d = concat (concat pgs) \<and> list_all2 (\<lambda>p g. mset p = mset g) pgs (groups d)"
    and "length data mod 4096 = 0 \<Longrightarrow> 0 \<le> fst (be_Append be data h d)"
    and "length data mod 4096 = 0 \<Longrightarrow>
      groups (snd (be_Append be data h d)) = butlast (groups d) @ [last (groups d) @ [data]]"
    and "groups (snd (be_AppendSync be h d)) = groups d @ [[]]"
    and "fst (szd_Sync be h d)" "groups (snd (szd_Sync be h d)) = groups d"
    and "i * 4096 + n \<le> length (img d) \<Longrightarrow> i * 4096 + n < 2 ^ 63 \<Longrightarrow>
      szd_Read be h (tail + of_nat i) n d = (Some (take n (drop (i * 4096) (img d))), d)"
    and "szd_GetWriteTail be h d = tail"
    and "szd_GetWriteHead be h d = tail + of_nat (length (img d) div 4096)"
  using assms by (simp_all add: log_law_def)

lemma log_law_sync:
  assumes "log_law be h groups img tail" and "wal (f_file st) = Some h"
  shows "\<exists>d. WALSync be st = (OK, st\<lparr>f_dev := (f_dev st)\<lparr>world := d\<rparr>\<rparr>) \<and> groups d = groups (world (f_dev st)) @ [[]]"
proof -
  let ?d1 = "snd (be_AppendSync be h (world (f_dev st)))"
  obtain s d where d: "szd_Sync be h ?d1 = (s, d)" by force
  then have "s" "groups d = groups ?d1"
    using log_lawD(7,8) [OF assms(1), of ?d1] by simp_all
  then show ?thesis
    using assms(2) d log_lawD(6) [OF assms(1)] by (intro exI [of _ d]) (simp add: WALSync_def szd_sync_def Let_def)
qed

lemma log_law_append:
  assumes "log_law be h groups img tail" and "length data mod 4096 = 0"
  shows "concat (groups (snd (be_Append be data h d))) = concat (groups d) @ [data]"
    and "length (groups (snd (be_Append be data h d))) = length (groups d)"
    and "j < length (groups d) \<Longrightarrow> take j (groups (snd (be_Append be data h d))) = take j (groups d)"
proof -
  note g = log_lawD(5) [OF assms, of d]
  have n: "groups d \<noteq> []" by (rule log_lawD(2) [OF assms(1)])
  have "concat (groups d) = concat (butlast (groups d)) @ last (groups d)"
    by (subst append_butlast_last_id [OF n, symmetric]) (simp only: concat_append concat.simps append_Nil2)
  then show "concat (groups (snd (be_Append be data h d))) = concat (groups d) @ [data]"
    unfolding g by simp
  show "length (groups (snd (be_Append be data h d))) = length (groups d)" using n g by simp
  show "take j (groups (snd (be_Append be data h d))) = take j (groups d)" if "j < length (groups d)"
    using that unfolding g by (simp add: take_butlast)
qed

section \<open>What a writer leaves on the log\<close>

definition numbered :: "bytes list \<Rightarrow> (u64 \<times> bytes) list" where
  "numbered ds = map (\<lambda>i. (of_nat i, ds ! i)) [0..<length ds]"

lemma numbered_simps [simp]: "numbered [] = []" "length (numbered ds) = length ds"
  "numbered (ds @ [x]) = numbered ds @ [(of_nat (length ds), x)]"
  by (simp_all add: numbered_def nth_append)

definition payloads :: "bytes list \<Rightarrow> bytes list" where
  "payloads ds = map (\<lambda>(i, x). payload i x) (numbered ds)"

text \<open>
  The records \<open>ds\<close> are on the log. Every \<open>q\<close> records there is a group boundary, so that the records of a
  chunk cannot leave it.
\<close>

definition boundary :: "('d \<Rightarrow> bytes list list) \<Rightarrow> nat \<Rightarrow> bytes list \<Rightarrow> 'd \<Rightarrow> bool" where
  "boundary groups n ds d \<longleftrightarrow> (\<exists>j < length (groups d). concat (take j (groups d)) = take n (payloads ds))"

definition written :: "('d \<Rightarrow> bytes list list) \<Rightarrow> nat \<Rightarrow> bytes list \<Rightarrow> ('d, 'm) fenv \<Rightarrow> bool" where
  "written groups q ds st \<longleftrightarrow>
     concat (groups (world (f_dev st))) = payloads ds \<and>
     (\<forall>k. k * q < length ds \<longrightarrow> boundary groups (k * q) ds (world (f_dev st))) \<and>
     map e_length (extents (f_file st)) = map (of_nat \<circ> length) ds \<and>
     file_size (f_file st) = of_nat (length (concat ds)) \<and> wal_seq (f_file st) = of_nat (length ds)"

text \<open>All records so far fill a buffer of \<open>B\<close> bytes, header included.\<close>

definition bytes_since :: "nat \<Rightarrow> nat \<Rightarrow> nat \<Rightarrow> nat" where
  "bytes_since B q n = (if n = 0 then 0 else B * ((n - 1) mod q + 1))"

definition filled :: "nat \<Rightarrow> nat \<Rightarrow> bytes list \<Rightarrow> ('d, 'm) fenv \<Rightarrow> bool" where
  "filled B q ds st \<longleftrightarrow> (\<forall>x \<in> set ds. length x + 16 = B) \<and>
     append_bytes_since_last_barrier (f_file st) = of_nat (bytes_since B q (length ds))"

text \<open>The parts of a file that writing a record leaves alone.\<close>

definition same_reader :: "ZoneFile \<Rightarrow> ZoneFile \<Rightarrow> bool" where
  "same_reader zf zf' \<longleftrightarrow>
     linkfiles zf' = linkfiles zf \<and> is_sparse zf' = is_sparse zf \<and>
     wal zf' = wal zf \<and> chunk_entries zf' = chunk_entries zf \<and> chunk_end zf' = chunk_end zf \<and>
     chunk_jump zf' = chunk_jump zf \<and> chunk_id zf' = chunk_id zf \<and>
     reader_offset zf' = reader_offset zf \<and> reader_offset_index zf' = reader_offset_index zf"

lemma same_reader_refl [simp]: "same_reader zf zf"
  by (simp add: same_reader_def)

lemma same_reader_trans: "same_reader a b \<Longrightarrow> same_reader b c \<Longrightarrow> same_reader a c"
  by (simp add: same_reader_def)

lemma bytes_since_mod:
  "bytes_since B q n = (if n \<noteq> 0 \<and> n mod q = 0 then B * q else B * (n mod q))"
proof (cases n)
  case (Suc m)
  then show ?thesis
    by (auto simp: bytes_since_def mod_Suc) (metis mult_Suc_right)
qed (simp add: bytes_since_def)

lemma boundary_new_group:
  assumes "boundary groups n ds d" and "groups d' = groups d @ [[]]"
  shows "boundary groups n ds d'"
proof -
  obtain j where "j < length (groups d)" "concat (take j (groups d)) = take n (payloads ds)"
    using assms(1) by (auto simp: boundary_def)
  then show ?thesis using assms(2) unfolding boundary_def by (intro exI [of _ j]) simp
qed

lemma written_new_group:
  assumes "written groups q ds st" and "groups (world (f_dev st')) = groups (world (f_dev st)) @ [[]]"
    and "extents (f_file st') = extents (f_file st)" "file_size (f_file st') = file_size (f_file st)"
      "wal_seq (f_file st') = wal_seq (f_file st)"
  shows "written groups q ds st'" and "boundary groups (length ds) ds (world (f_dev st'))"
proof -
  show "written groups q ds st'"
    using assms boundary_new_group [where groups = groups and d = "world (f_dev st)" and d' = "world (f_dev st')"]
    by (simp add: written_def)
  show "boundary groups (length ds) ds (world (f_dev st'))"
    using assms(1,2) unfolding boundary_def
    by (intro exI [of _ "length (groups (world (f_dev st)))"]) (simp add: written_def payloads_def)
qed

text \<open>A barrier before a record.\<close>

lemma SparseAppend_step_sync:
  assumes law: "log_law be h groups img tail" and op: "wal_open r h cap st"
    and full: "append_bytes_since_last_barrier (f_file st) \<ge> barrier cfg" "barrier cfg \<noteq> 0"
  shows "\<exists>st1. SparseAppend_step cfg be persist buf left st = SparseAppend_step cfg be persist buf left st1 \<and>
     wal_open r h cap st1 \<and> f_file st1 = (f_file st)\<lparr>append_bytes_since_last_barrier := 0\<rparr> \<and>
     groups (world (f_dev st1)) = groups (world (f_dev st)) @ [[]]"
proof -
  have wal: "wal (f_file st) = Some h" "is_wal (f_file st)" using op by (simp_all add: wal_open_def)
  obtain d where d: "WALSync be st = (OK, st\<lparr>f_dev := (f_dev st)\<lparr>world := d\<rparr>\<rparr>)"
      "groups d = groups (world (f_dev st)) @ [[]]"
    using log_law_sync [OF law wal(1)] by blast
  define st1 where "st1 = upd_file (\<lambda>zf. zf\<lparr>append_bytes_since_last_barrier := 0\<rparr>) (st\<lparr>f_dev := (f_dev st)\<lparr>world := d\<rparr>\<rparr>)"
  have "sparse_barrier cfg be st = (OK, st1)"
    using full wal d by (simp add: sparse_barrier_def st1_def)
  moreover have "sparse_barrier cfg be st1 = (OK, st1)"
    using full(2) by (simp add: sparse_barrier_def st1_def upd_file_def)
  moreover have "header_size (f_file st1) = header_size (f_file st)"
    by (simp add: st1_def upd_file_def header_size_def)
  ultimately have "SparseAppend_step cfg be persist buf left st = SparseAppend_step cfg be persist buf left st1"
    by (simp add: SparseAppend_step_def)
  moreover have "wal_open r h cap st1" "f_file st1 = (f_file st)\<lparr>append_bytes_since_last_barrier := 0\<rparr>"
      "groups (world (f_dev st1)) = groups (world (f_dev st)) @ [[]]"
    using op d(2) by (simp_all add: wal_open_def st1_def upd_file_def)
  ultimately show ?thesis by (intro exI [of _ st1]) simp
qed

text \<open>Before a record: a barrier when the chunk is full.\<close>

lemma barrier_step:
  assumes law: "log_law be h groups img tail" and op: "wal_open r h cap st"
    and w: "written groups q ds st" and f: "filled B q ds st"
    and q: "0 < q" "0 < B" "q * B < 2 ^ 63" "barrier cfg = of_nat (q * B)"
  shows "\<exists>st1. SparseAppend_step cfg be persist buf left st = SparseAppend_step cfg be persist buf left st1 \<and>
     wal_open r h cap st1 \<and> written groups q ds st1 \<and>
     f_file st1 = (f_file st)\<lparr>append_bytes_since_last_barrier := of_nat (B * (length ds mod q))\<rparr> \<and>
     (length ds mod q = 0 \<longrightarrow> boundary groups (length ds) ds (world (f_dev st1))) \<and>
     (\<forall>n. boundary groups n ds (world (f_dev st)) \<longrightarrow> boundary groups n ds (world (f_dev st1)))"
proof (cases "length ds \<noteq> 0 \<and> length ds mod q = 0")
  case True
  have "append_bytes_since_last_barrier (f_file st) = of_nat (q * B)"
    using f True unfolding filled_def bytes_since_mod by (simp add: mult.commute)
  then have full: "append_bytes_since_last_barrier (f_file st) \<ge> barrier cfg" using q by simp
  have "barrier cfg \<noteq> 0" using q u64_of_nat(3) [of "q * B" 0] by simp
  from SparseAppend_step_sync [OF law op full this, of persist buf left]
  obtain st1 where st1: "SparseAppend_step cfg be persist buf left st = SparseAppend_step cfg be persist buf left st1"
      "wal_open r h cap st1" "f_file st1 = (f_file st)\<lparr>append_bytes_since_last_barrier := 0\<rparr>"
      "groups (world (f_dev st1)) = groups (world (f_dev st)) @ [[]]"
    by (elim exE conjE) (rule that)
  have "written groups q ds st1" "boundary groups (length ds) ds (world (f_dev st1))"
    using st1(3,4) by (intro written_new_group [OF w]; simp)+
  moreover have "f_file st1 = (f_file st)\<lparr>append_bytes_since_last_barrier := of_nat (B * (length ds mod q))\<rparr>"
    using True st1(3) by simp
  moreover have "boundary groups n ds (world (f_dev st1))" if "boundary groups n ds (world (f_dev st))" for n
    by (rule boundary_new_group [OF that st1(4)])
  ultimately show ?thesis using st1(1,2) by (intro exI [of _ st1] conjI) auto
next
  case False
  then have "append_bytes_since_last_barrier (f_file st) = of_nat (B * (length ds mod q))"
    using f by (auto simp: filled_def bytes_since_mod)
  then have "f_file st = (f_file st)\<lparr>append_bytes_since_last_barrier := of_nat (B * (length ds mod q))\<rparr>"
    by (cases "f_file st") simp
  moreover have "boundary groups (length ds) ds (world (f_dev st))" if "length ds mod q = 0"
    using that False log_lawD(2) [OF law] unfolding boundary_def by (intro exI [of _ 0]) simp
  ultimately show ?thesis using op w by (intro exI [of _ st] conjI) auto
qed

lemma payloads_snoc: "payloads (ds @ [x]) = payloads ds @ [payload (of_nat (length ds)) x]"
  by (simp add: payloads_def)

lemma length_payloads [simp]: "length (payloads ds) = length ds"
  by (simp add: payloads_def)

lemma multiple_le:
  fixes a k b :: nat
  assumes "a mod k = 0" and "b mod k = 0" and "a < b + k"
  shows "a \<le> b"
proof -
  obtain x y where "a = k * x" "b = k * y" using assms(1,2) by (metis dvd_def mod_0_imp_dvd)
  then have "k * x < k * Suc y" using assms(3) by simp
  then have "x \<le> y" by (simp only: mult_less_cancel1 less_Suc_eq_le)
  then show ?thesis using \<open>a = k * x\<close> \<open>b = k * y\<close> by simp
qed

lemma unat_diff_of_nat:
  assumes "a \<le> b" and "b < 2 ^ 64"
  shows "unat (of_nat b - of_nat a :: u64) = b - a"
proof -
  have "of_nat b - of_nat a = (of_nat (b - a) :: u64)" using assms(1) by (simp add: of_nat_diff)
  then show ?thesis using assms(2) by (simp add: unat_of_nat_small del: of_nat_diff)
qed

lemma padding_le:
  assumes "n \<le> B" and "B mod 4096 = 0"
  shows "n + padding n \<le> B"
proof (rule multiple_le [OF padding_aligned assms(2)])
  show "n + padding n < B + 4096" using assms(1) padding_less [of n] by (rule add_le_less_mono)
qed

text \<open>A record on the log.\<close>

lemma boundary_record:
  assumes law: "log_law be h groups img tail" and "boundary groups n ds d" "n \<le> length ds"
    and d': "d' = snd (be_Append be (payload (of_nat (length ds)) data) h d)"
  shows "boundary groups n (ds @ [data]) d'"
proof -
  obtain j where "j < length (groups d)" "concat (take j (groups d)) = take n (payloads ds)"
    using assms(2) by (auto simp: boundary_def)
  then show ?thesis
    using log_law_append(2,3) [OF law payload_aligned [of "of_nat (length ds)" data], where d = d, folded d'] assms(3)
    unfolding boundary_def by (intro exI [of _ j]) (simp add: payloads_snoc)
qed

lemma written_record:
  assumes w: "written groups q ds st"
    and j: "length ds mod q = 0 \<longrightarrow> boundary groups (length ds) ds (world (f_dev st))"
    and law: "log_law be h groups img tail"
    and st': "world (f_dev st') = snd (be_Append be (payload (of_nat (length ds)) data) h (world (f_dev st)))"
      "f_file st' = add_record r data wp ((f_file st)\<lparr>append_bytes_since_last_barrier := a\<rparr>)"
  shows "written groups q (ds @ [data]) st'"
proof -
  have "boundary groups (k * q) (ds @ [data]) (world (f_dev st'))" if k: "k * q < length (ds @ [data])" for k
  proof (rule boundary_record [OF law _ _ st'(1)])
    show "k * q \<le> length ds" using k by simp
    show "boundary groups (k * q) ds (world (f_dev st))"
    proof (cases "k * q = length ds")
      case True
      then have "length ds mod q = 0" by (metis mod_mult_self2_is_0)
      then show ?thesis using j True by simp
    next
      case False
      then show ?thesis using w k unfolding written_def by simp
    qed
  qed
  moreover have "concat (groups (world (f_dev st'))) = payloads (ds @ [data])"
    using w log_law_append(1) [OF law payload_aligned [of "of_nat (length ds)" data], where d = "world (f_dev st)", folded st'(1)]
    by (simp add: written_def payloads_snoc)
  ultimately show ?thesis
    using w st'(2) by (simp add: written_def add_record_def)
qed

lemma SparseAppend_record:
  assumes law: "log_law be h groups img tail" and op: "wal_open r h cap st"
    and w: "written groups q ds st" and f: "filled B q ds st"
    and q: "0 < q" "q * B < 2 ^ 63" "barrier cfg = of_nat (q * B)" and B: "B mod 4096 = 0" "B < 2 ^ 31"
    and data: "data \<noteq> []" "length data + 16 \<le> B" and cap: "B < cap"
    and buf: "length hdr = 16" "4096 \<le> length slack"
  shows "\<exists>buf' st'. SparseAppend cfg be persist (hdr @ data @ slack) (of_nat (length data)) st = Some (OK, buf', st') \<and>
     length buf' = length (hdr @ data @ slack) \<and> same_reader (f_file st) (f_file st') \<and>
     written groups q (ds @ [data]) st' \<and>
     (\<forall>n \<le> length ds. boundary groups n ds (world (f_dev st)) \<longrightarrow> boundary groups n (ds @ [data]) (world (f_dev st'))) \<and>
     (length data + 16 = B \<longrightarrow> filled B q (ds @ [data]) st' \<and> wal_open r h (cap - B) st')"
proof -
  let ?n = "length ds" and ?p = "payload (of_nat (length ds)) data"
  have B0: "0 < B" using data by simp
  obtain st1 where step: "SparseAppend_step cfg be persist (hdr @ data @ slack) (of_nat (length data)) st
        = SparseAppend_step cfg be persist (hdr @ data @ slack) (of_nat (length data)) st1"
    and o1: "wal_open r h cap st1" and w1: "written groups q ds st1"
    and f1: "f_file st1 = (f_file st)\<lparr>append_bytes_since_last_barrier := of_nat (B * (?n mod q))\<rparr>"
    and j1: "?n mod q = 0 \<longrightarrow> boundary groups ?n ds (world (f_dev st1))"
    and bd: "\<forall>n. boundary groups n ds (world (f_dev st)) \<longrightarrow> boundary groups n ds (world (f_dev st1))"
    using barrier_step [OF law op w f q(1) B0 q(2,3), where persist = persist and buf = "hdr @ data @ slack"
        and left = "of_nat (length data)"] by (elim exE conjE) (rule that)
  have seq: "wal_seq (f_file st1) = of_nat ?n" using w1 by (simp add: written_def)
  have "Suc (?n mod q) \<le> q" using q(1) by (simp add: Suc_le_eq)
  from mult_le_mono2 [OF this, of B] have "B * (?n mod q) + B \<le> q * B" by (simp add: mult.commute)
  then have room: "B * (?n mod q) < q * B" "B \<le> q * B - B * (?n mod q)" using B0 by linarith+
  have "q * B < 2 ^ 64" using q(2) by simp
  then have lt64: "B * (?n mod q) < 2 ^ 64" "q * B < 2 ^ 64" using room(1) less_trans by blast+
  have diff: "unat (of_nat (q * B) - of_nat (B * (?n mod q)) :: u64) = q * B - B * (?n mod q)"
    using room(1) q(2) by (intro unat_diff_of_nat) simp_all
  have a1: "append_bytes_since_last_barrier (f_file st1) = of_nat (B * (?n mod q))" using f1 by simp
  have bar: "append_bytes_since_last_barrier (f_file st1) < barrier cfg"
    unfolding a1 q(3) u64_of_nat(1) [OF lt64] by (rule room(1))
  have fit: "length data + 16 \<le> unat (barrier cfg - append_bytes_since_last_barrier (f_file st1))"
    unfolding a1 q(3) diff using room(2) data(2) by (rule order_trans [rotated])
  have lp: "length ?p \<le> B" unfolding length_payload by (rule padding_le [OF data(2) B(1)])
  obtain ret d where app: "be_Append be ?p h (world (f_dev st1)) = (ret, d)" by force
  have ret: "0 \<le> ret" using log_lawD(4) [OF law payload_aligned [of "of_nat ?n" data], where d = "world (f_dev st1)"] app by simp
  have small: "length data < 2 ^ 31" using data(2) B(2) by simp
  have "length ?p < cap" using lp cap by simp
  from SparseAppend_step_record [OF o1 buf data(1) small bar fit, unfolded seq, OF this app ret, of persist]
  obtain slack' wp st' where r: "SparseAppend_step cfg be persist (hdr @ data @ slack) (of_nat (length data)) st1
        = Some (OK, ?p @ slack', 0, st')"
      "length (?p @ slack') = length (hdr @ data @ slack)"
      "f_file st' = add_record r data wp (f_file st1)" "world (f_dev st') = d"
      "wal_open r h (cap - length ?p) st'"
    by (elim exE conjE) (rule that)
  have "of_nat (length data) \<noteq> (0 :: u32)"
    using data small u32_u64_of_nat(3) [of "length data"] by auto
  then have "SparseAppend_loop cfg be persist (hdr @ data @ slack) (of_nat (length data)) st = Some (OK, ?p @ slack', st')"
    using step r(1) by (simp add: SparseAppend_loop.simps)
  then have "SparseAppend cfg be persist (hdr @ data @ slack) (of_nat (length data)) st = Some (OK, ?p @ slack', st')"
    using op by (simp add: SparseAppend_def with_zone_def wal_open_def)
  moreover have "written groups q (ds @ [data]) st'"
    using r(3,4) app f1 by (intro written_record [OF w1 j1 law]) (auto simp: add_record_def)
  moreover have "\<forall>n \<le> length ds. boundary groups n ds (world (f_dev st)) \<longrightarrow>
      boundary groups n (ds @ [data]) (world (f_dev st'))"
    using r(4) app bd boundary_record [OF law, where ds = ds and data = data and d = "world (f_dev st1)" and d' = "world (f_dev st')"]
    by simp
  moreover have "same_reader (f_file st) (f_file st')"
    using r(3) f1 by (simp add: same_reader_def add_record_def)
  moreover have "filled B q (ds @ [data]) st' \<and> wal_open r h (cap - B) st'" if full: "length data + 16 = B"
  proof
    have "length ?p = B" using full B(1) by (simp add: length_payload padding_def)
    then show "wal_open r h (cap - B) st'" using r(5) by simp
    have "bytes_since B q (Suc ?n) = B * (?n mod q) + B" by (simp add: bytes_since_def)
    then show "filled B q (ds @ [data]) st'"
      using f full r(3) f1 \<open>length ?p = B\<close> seq by (simp add: filled_def add_record_def)
  qed
  ultimately show ?thesis using r(2) by (intro exI [of _ "?p @ slack'"] exI [of _ st'] conjI) auto
qed

end
