(* ===== verification/Wal_Writer.thy ===== *)
theory Wal_Writer
  imports Wal_Roundtrip
begin

text \<open>
  The writer of a write-ahead log: its buffer, and that the bytes appended through it are on the log,
  in records that fill the buffer, followed by what the buffer still holds.
\<close>

section \<open>The buffer\<close>

definition holds :: "nat \<Rightarrow> bytes \<Rightarrow> ZonedWritableFile \<Rightarrow> bool" where
  "holds B b w \<longleftrightarrow>
     w_buffered w \<and> w_sparse w \<and> w_off w = 16 \<and> w_buffer_sz w = of_nat (B - 16) \<and>
     w_buffer_pos w = of_nat (length b) \<and> length b + 16 \<le> B \<and>
     (\<exists>hdr slack. w_mem w = hdr @ b @ slack \<and> length hdr = 16 \<and> length b + length slack = B + 4080)"

lemma holds_append:
  assumes h: "holds B b w" and B: "B < 2 ^ 31" and x: "length b + length x + 16 \<le> B"
  shows "\<exists>mem. poke (w_off w + unat (w_buffer_pos w)) x (w_mem w) = Some mem \<and>
     holds B (b @ x) (w\<lparr>w_mem := mem, w_buffer_pos := w_buffer_pos w + of_nat (length x)\<rparr>)"
proof -
  obtain hdr slack where m: "w_mem w = hdr @ b @ slack" "length hdr = 16" "length b + length slack = B + 4080"
    using h by (auto simp: holds_def)
  have "length b < 2 ^ 32" using x B by simp
  then have off: "w_off w + unat (w_buffer_pos w) = 16 + length b"
    using h by (simp add: holds_def u32_u64_of_nat)
  have "poke (16 + length b) x (w_mem w) = Some (hdr @ b @ x @ drop (length x) slack)"
    using m x by (simp add: poke_def)
  moreover have "holds B (b @ x) (w\<lparr>w_mem := hdr @ b @ x @ drop (length x) slack,
      w_buffer_pos := w_buffer_pos w + of_nat (length x)\<rparr>)"
    using h m x unfolding holds_def
    by (intro conjI exI [where x = hdr] exI [where x = "drop (length x) slack"]) auto
  ultimately show ?thesis unfolding off by blast
qed

text \<open>The whole writer: \<open>ds\<close> on the log, \<open>b\<close> in the buffer; \<open>C\<close> is the capacity the zone had at the start.\<close>

definition writing ::
    "'d backend \<Rightarrow> config \<Rightarrow> ('d \<Rightarrow> bytes list list) \<Rightarrow> zref \<Rightarrow> nat \<Rightarrow> nat \<Rightarrow> nat \<Rightarrow> nat \<Rightarrow>
     bytes list \<Rightarrow> bytes \<Rightarrow> ZonedWritableFile \<Rightarrow> ('d, 'm) fenv \<Rightarrow> bool" where
  "writing be cfg groups r h C B q ds b w st \<longleftrightarrow>
     holds B b w \<and> written groups q ds st \<and> filled B q ds st \<and> wal_open r h (C - B * length ds) st"

text \<open>How the constants of the build must fit: a buffer of whole blocks, and whole buffers between barriers.\<close>

definition log_sizes :: "config \<Rightarrow> nat \<Rightarrow> nat \<Rightarrow> bool" where
  "log_sizes cfg B q \<longleftrightarrow>
     0 < q \<and> q * B < 2 ^ 62 \<and> barrier cfg = of_nat (q * B) \<and> B mod 4096 = 0 \<and> 4096 \<le> B \<and> B < 2 ^ 31"

lemma FlushBuffer_log:
  assumes law: "log_law be h groups img tail" and s: "log_sizes cfg B q"
    and w: "writing be cfg groups r h C B q ds b w st" and b: "b \<noteq> []" and C: "B * (length ds + 1) < C"
  shows "\<exists>w' st'. FlushBuffer cfg be persist w st = Some (OK, w', st') \<and> holds B [] w' \<and>
     same_reader (f_file st) (f_file st') \<and> written groups q (ds @ [b]) st' \<and>
     (\<forall>n \<le> length ds. boundary groups n ds (world (f_dev st)) \<longrightarrow> boundary groups n (ds @ [b]) (world (f_dev st'))) \<and>
     (length b + 16 = B \<longrightarrow> writing be cfg groups r h C B q (ds @ [b]) [] w' st')"
proof -
  have wr: "written groups q ds st" "filled B q ds st" "wal_open r h (C - B * length ds) st"
    using w by (simp_all add: writing_def)
  note w = w [unfolded writing_def]
  have si: "0 < q" "q * B < 2 ^ 63" "barrier cfg = of_nat (q * B)" "B mod 4096 = 0" "B < 2 ^ 31"
    using s by (simp_all add: log_sizes_def)
  obtain hdr slack where m: "w_mem w = hdr @ b @ slack" "length hdr = 16" "length b + length slack = B + 4080"
    using w by (auto simp: holds_def)
  have len: "length b + 16 \<le> B" "w_buffer_pos w = of_nat (length b)" using w by (simp_all add: holds_def)
  have cap: "B < C - B * length ds" using C by simp
  have slack: "4096 \<le> length slack" using len(1) m(3) by simp
  obtain buf' st' where a: "SparseAppend cfg be persist (hdr @ b @ slack) (of_nat (length b)) st = Some (OK, buf', st')"
      "length buf' = length (hdr @ b @ slack)" "same_reader (f_file st) (f_file st')"
      "written groups q (ds @ [b]) st'"
      "\<forall>n \<le> length ds. boundary groups n ds (world (f_dev st)) \<longrightarrow> boundary groups n (ds @ [b]) (world (f_dev st'))"
      "length b + 16 = B \<longrightarrow> filled B q (ds @ [b]) st' \<and> wal_open r h (C - B * length ds - B) st'"
    using SparseAppend_record [where persist = persist, OF law wr(3,1,2) si b len(1) cap m(2) slack]
    by (elim exE conjE) (rule that)
  have nz: "w_buffer_pos w \<noteq> 0"
    unfolding len(2) using b len(1) si(5) u32_u64_of_nat(3) [of "length b"] by auto
  define w' where "w' = w\<lparr>w_mem := buf', w_wp := w_wp w + ucast (w_buffer_pos w), w_buffer_pos := 0\<rparr>"
  have "FlushBuffer cfg be persist w st = Some (OK, w', st')"
    using nz a(1) w len(2) m(1) by (simp add: FlushBuffer_def holds_def wal_open_def w'_def)
  moreover have "holds B [] w'"
    using w a(2) m unfolding holds_def w'_def
    by (intro conjI exI [of _ "take 16 buf'"] exI [of _ "drop 16 buf'"]) auto
  moreover have "C - B * length (ds @ [b]) = C - B * length ds - B" by simp
  ultimately show ?thesis using a(3-6) by (intro exI [of _ w'] exI [of _ st']) (simp add: writing_def)
qed

section \<open>Appending\<close>

lemma BufferedWrite_step_log:
  assumes law: "log_law be h groups img tail" and s: "log_sizes cfg B q"
    and w: "writing be cfg groups r h C B q ds b w st" and data: "data \<noteq> []" "length data < 2 ^ 32"
    and C: "length b + 16 = B \<longrightarrow> B * (length ds + 1) < C"
  defines "ds1 \<equiv> (if length b + 16 = B then ds @ [b] else ds)" and "b1 \<equiv> (if length b + 16 = B then [] else b)"
  defines "n \<equiv> min (length data) (B - 16 - length b1)"
  shows "\<exists>w' st'. BufferedWrite_step cfg be persist data (of_nat (length data)) w st
       = Some (OK, drop n data, of_nat (length (drop n data)), w', st') \<and>
     writing be cfg groups r h C B q ds1 (b1 @ take n data) w' st' \<and> 0 < n \<and> same_reader (f_file st) (f_file st')"
proof -
  have B: "4096 \<le> B" "B < 2 ^ 31" using s by (simp_all add: log_sizes_def)
  have h: "holds B b w" using w by (simp add: writing_def)
  then have hb: "length b + 16 \<le> B" "w_buffer_sz w = of_nat (B - 16)" "w_buffer_pos w = of_nat (length b)"
    by (simp_all add: holds_def)
  have sm: "B - 16 - length b < 2 ^ 32" "length b < 2 ^ 32" "B - 16 < 2 ^ 32" using hb(1) B by simp_all
  have "of_nat (B - 16) - ucast (of_nat (length b) :: u32) = (of_nat (B - 16 - length b) :: u64)"
    using hb(1) B u32_u64_of_nat(1) [OF sm(2)] by (simp add: of_nat_diff)
  then have left: "ucast (w_buffer_sz w - ucast (w_buffer_pos w)) = (of_nat (B - 16 - length b) :: u32)"
    unfolding hb(2,3) using u32_u64_of_nat(2) [OF sm(1)] by simp
  have "of_nat (B - 16 - length b) = (0 :: u32) \<longleftrightarrow> B - 16 - length b = 0"
    using u32_u64_of_nat(3) [OF sm(1)] by (auto simp: word_unat_eq_iff)
  then have zero: "of_nat (B - 16 - length b) = (0 :: u32) \<longleftrightarrow> length b + 16 = B" using hb(1) B by auto
  have "\<exists>w1 st1. (if ucast (w_buffer_sz w - ucast (w_buffer_pos w)) = (0 :: u32)
        then do { (s, w1, st1) \<leftarrow> FlushBuffer cfg be persist w st; Some (s, ucast (w_buffer_sz w1), w1, st1) }
        else Some (OK, ucast (w_buffer_sz w - ucast (w_buffer_pos w)), w, st))
      = Some (OK, of_nat (B - 16 - length b1) :: u32, w1, st1) \<and>
      writing be cfg groups r h C B q ds1 b1 w1 st1 \<and> same_reader (f_file st) (f_file st1)"
  proof (cases "length b + 16 = B")
    case True
    have "b \<noteq> []" using True B by auto
    from FlushBuffer_log [OF law s w this, of persist] C True
    obtain w1 st1 where f: "FlushBuffer cfg be persist w st = Some (OK, w1, st1)"
        "writing be cfg groups r h C B q (ds @ [b]) [] w1 st1" "same_reader (f_file st) (f_file st1)"
      by auto
    have "w_buffer_sz w1 = of_nat (B - 16)" using f(2) by (simp add: writing_def holds_def)
    then have "ucast (w_buffer_sz w1) = (of_nat (B - 16) :: u32)" by (simp only: u32_u64_of_nat(2) [OF sm(3)])
    then show ?thesis using f True zero left by (simp add: ds1_def b1_def)
  next
    case False
    then show ?thesis using w zero left by (simp add: ds1_def b1_def)
  qed
  then obtain w1 st1 where f: "(if ucast (w_buffer_sz w - ucast (w_buffer_pos w)) = (0 :: u32)
        then do { (s, w1, st1) \<leftarrow> FlushBuffer cfg be persist w st; Some (s, ucast (w_buffer_sz w1), w1, st1) }
        else Some (OK, ucast (w_buffer_sz w - ucast (w_buffer_pos w)), w, st))
      = Some (OK, of_nat (B - 16 - length b1) :: u32, w1, st1)"
      "writing be cfg groups r h C B q ds1 b1 w1 st1" "same_reader (f_file st) (f_file st1)"
    by (elim exE conjE) (rule that)
  have b1: "length b1 + 16 < B" using hb(1) B by (auto simp: b1_def)
  then have n: "0 < n" "n \<le> length data" "length b1 + n + 16 \<le> B" "n < 2 ^ 32"
    using data by (auto simp: n_def)
  have sm1: "B - 16 - length b1 < 2 ^ 32" using B by simp
  define L where "L = (of_nat (B - 16 - length b1) :: u32)"
  have tb: "(if (of_nat (length data) :: u32) > L then L else of_nat (length data)) = of_nat n"
    using u32_u64_of_nat(3) [OF data(2)] u32_u64_of_nat(3) [OF sm1]
    by (auto simp: L_def n_def word_less_nat_alt min_def)
  have "holds B b1 w1" using f(2) by (simp add: writing_def)
  then obtain mem where m: "poke (w_off w1 + unat (w_buffer_pos w1)) (take n data) (w_mem w1) = Some mem"
      "holds B (b1 @ take n data) (w1\<lparr>w_mem := mem, w_buffer_pos := w_buffer_pos w1 + of_nat n\<rparr>)"
    using holds_append [of B b1 w1 "take n data"] B n by auto
  have "BufferedWrite_step cfg be persist data (of_nat (length data)) w st
      = Some (OK, drop n data, of_nat (length data) - of_nat n, w1\<lparr>w_mem := mem, w_buffer_pos := w_buffer_pos w1 + of_nat n\<rparr>, st1)"
    unfolding BufferedWrite_step_def Let_def f(1) [folded L_def]
    using n m(1) u32_u64_of_nat(3) [OF n(4)] by (simp add: tb peek_def)
  moreover have "of_nat (length data) - of_nat n = (of_nat (length (drop n data)) :: u32)"
    using n(2) by (simp add: of_nat_diff)
  moreover have "writing be cfg groups r h C B q ds1 (b1 @ take n data)
      (w1\<lparr>w_mem := mem, w_buffer_pos := w_buffer_pos w1 + of_nat n\<rparr>) st1"
    using f(2) m(2) by (simp add: writing_def)
  ultimately show ?thesis
    using f(3) n(1)
    by (intro exI [of _ "w1\<lparr>w_mem := mem, w_buffer_pos := w_buffer_pos w1 + of_nat n\<rparr>"] exI [of _ st1]) simp
qed

text \<open>The zone is large enough for a stream of \<open>n\<close> bytes.\<close>

definition zone_fits :: "nat \<Rightarrow> nat \<Rightarrow> nat \<Rightarrow> bool" where
  "zone_fits C B n \<longleftrightarrow> B * (n div (B - 16) + 1) < C"

lemma filled_length: "filled B q ds st \<Longrightarrow> length (concat ds) = length ds * (B - 16)"
proof -
  assume f: "filled B q ds st"
  have "(\<forall>x \<in> set ds. length x = B - 16) \<Longrightarrow> length (concat ds) = length ds * (B - 16)"
    by (induction ds) simp_all
  moreover have "\<forall>x \<in> set ds. length x = B - 16" using f by (auto simp: filled_def)
  ultimately show ?thesis by blast
qed

lemma zone_fits_record:
  assumes "zone_fits C B n" and "length ds * (B - 16) \<le> n" and "16 < B"
  shows "B * (length ds + 1) < C"
proof -
  have "length ds \<le> n div (B - 16)" using assms(2,3) by (simp add: less_eq_div_iff_mult_less_eq)
  then have "B * (length ds + 1) \<le> B * (n div (B - 16) + 1)" by simp
  then show ?thesis using assms(1) unfolding zone_fits_def by linarith
qed

lemma zone_fits_mono: "zone_fits C B n \<Longrightarrow> m \<le> n \<Longrightarrow> zone_fits C B m"
proof -
  assume a: "zone_fits C B n" and "m \<le> n"
  then have "B * (m div (B - 16) + 1) \<le> B * (n div (B - 16) + 1)" by (simp add: div_le_mono)
  then show ?thesis using a unfolding zone_fits_def by linarith
qed

lemma BufferedWrite_loop_log:
  assumes law: "log_law be h groups img tail" and s: "log_sizes cfg B q"
    and "writing be cfg groups r h C B q ds b w st" and "length data < 2 ^ 32"
    and "zone_fits C B (length (concat ds @ b @ data))"
  shows "\<exists>ds' b' w' st'. BufferedWrite_loop cfg be persist data (of_nat (length data)) w st = Some (OK, w', st') \<and>
     writing be cfg groups r h C B q ds' b' w' st' \<and> concat ds' @ b' = concat ds @ b @ data \<and>
     (b \<noteq> [] \<or> data \<noteq> [] \<longrightarrow> b' \<noteq> []) \<and> same_reader (f_file st) (f_file st')"
  using assms(3-5)
proof (induction "length data" arbitrary: ds b w st data rule: less_induct)
  case less
  show ?case
  proof (cases "data = []")
    case True
    then have "BufferedWrite_loop cfg be persist data (of_nat (length data)) w st = Some (OK, w, st)"
      by (simp add: BufferedWrite_loop.simps)
    then show ?thesis using less.prems(1) True by (intro exI [of _ ds] exI [of _ b] exI [of _ w] exI [of _ st]) simp
  next
    case False
    define ds1 where "ds1 = (if length b + 16 = B then ds @ [b] else ds)"
    define b1 where "b1 = (if length b + 16 = B then [] else b)"
    define n where "n = min (length data) (B - 16 - length b1)"
    have f: "filled B q ds st" using less.prems(1) by (simp add: writing_def)
    have "16 < B" using s by (simp add: log_sizes_def)
    then have "length b + 16 = B \<longrightarrow> B * (length ds + 1) < C"
      using zone_fits_record [OF less.prems(3), of ds] filled_length [OF f] by simp
    from BufferedWrite_step_log
      [OF law s less.prems(1) False less.prems(2) this, of persist, folded ds1_def b1_def, folded n_def]
    obtain w1 st1 where st: "BufferedWrite_step cfg be persist data (of_nat (length data)) w st
          = Some (OK, drop n data, of_nat (length (drop n data)), w1, st1)"
        "writing be cfg groups r h C B q ds1 (b1 @ take n data) w1 st1" "0 < n" "same_reader (f_file st) (f_file st1)"
      by (elim exE conjE) (rule that)
    have c: "concat ds1 @ (b1 @ take n data) @ drop n data = concat ds @ b @ data"
      by (simp add: ds1_def b1_def)
    have d: "length (drop n data) < length data" using st(3) False by simp
    have l: "length (drop n data) < 2 ^ 32" using less.prems(2) by simp
    have "zone_fits C B (length (concat ds1 @ (b1 @ take n data) @ drop n data))"
      unfolding c by (rule less.prems(3))
    from less.hyps [OF d st(2) l this]
    obtain ds' b' w' st' where ih:
        "BufferedWrite_loop cfg be persist (drop n data) (of_nat (length (drop n data))) w1 st1 = Some (OK, w', st')"
        "writing be cfg groups r h C B q ds' b' w' st'"
        "concat ds' @ b' = concat ds1 @ (b1 @ take n data) @ drop n data"
        "b1 @ take n data \<noteq> [] \<or> drop n data \<noteq> [] \<longrightarrow> b' \<noteq> []" "same_reader (f_file st1) (f_file st')"
      by (elim exE conjE) (rule that)
    have "of_nat (length data) \<noteq> (0 :: u32)"
      using False u32_u64_of_nat(3) [OF less.prems(2)] by auto
    then have "BufferedWrite_loop cfg be persist data (of_nat (length data)) w st = Some (OK, w', st')"
      using st(1) ih(1) by (simp add: BufferedWrite_loop.simps [of cfg be persist data])
    moreover have "b' \<noteq> []" using ih(4) st(3) False by simp
    ultimately show ?thesis
      using ih(2,3) c same_reader_trans [OF st(4) ih(5)]
      by (intro exI [of _ ds'] exI [of _ b'] exI [of _ w'] exI [of _ st']) simp
  qed
qed

text \<open>Appending one string after the other, until an error.\<close>

fun append_all ::
    "config \<Rightarrow> 'd backend \<Rightarrow> ('d, 'm) persist \<Rightarrow> bytes list \<Rightarrow> ZonedWritableFile \<Rightarrow> ('d, 'm) fenv \<Rightarrow> ('d, 'm) wresult" where
  "append_all cfg be persist [] w st = Some (OK, w, st)"
| "append_all cfg be persist (x # xs) w st =
     do {
       (s, w1, st1) \<leftarrow> ZonedWritableFile_Append cfg be persist x w st;
       (if \<not> ok s then Some (s, w1, st1) else append_all cfg be persist xs w1 st1)
     }"

lemma append_all_log:
  assumes law: "log_law be h groups img tail" and s: "log_sizes cfg B q"
    and "writing be cfg groups r h C B q ds b w st" and "\<forall>x \<in> set xs. length x < 2 ^ 32"
    and "zone_fits C B (length (concat ds @ b @ concat xs))"
  shows "\<exists>ds' b' w' st'. append_all cfg be persist xs w st = Some (OK, w', st') \<and>
     writing be cfg groups r h C B q ds' b' w' st' \<and> concat ds' @ b' = concat ds @ b @ concat xs \<and>
     (b \<noteq> [] \<or> concat xs \<noteq> [] \<longrightarrow> b' \<noteq> []) \<and> same_reader (f_file st) (f_file st')"
  using assms(3-5)
proof (induction xs arbitrary: ds b w st)
  case Nil
  then show ?case by (intro exI [of _ ds] exI [of _ b] exI [of _ w] exI [of _ st]) simp
next
  case (Cons x xs)
  have z: "zone_fits C B (length (concat ds @ b @ x))"
    by (rule zone_fits_mono [OF Cons.prems(3)]) simp
  have x: "length x < 2 ^ 32" "\<forall>x \<in> set xs. length x < 2 ^ 32" using Cons.prems(2) by simp_all
  from BufferedWrite_loop_log [OF law s Cons.prems(1) x(1) z, of persist]
  obtain ds1 b1 w1 st1 where a: "BufferedWrite_loop cfg be persist x (of_nat (length x)) w st = Some (OK, w1, st1)"
      "writing be cfg groups r h C B q ds1 b1 w1 st1" "concat ds1 @ b1 = concat ds @ b @ x"
      "b \<noteq> [] \<or> x \<noteq> [] \<longrightarrow> b1 \<noteq> []" "same_reader (f_file st) (f_file st1)"
    by (elim exE conjE) (rule that)
  have c: "concat ds1 @ b1 @ concat xs = concat ds @ b @ concat (x # xs)"
    using a(3) by (metis append.assoc concat.simps(2))
  have "zone_fits C B (length (concat ds1 @ b1 @ concat xs))" unfolding c by (rule Cons.prems(3))
  from Cons.IH [OF a(2) x(2) this]
  obtain ds' b' w' st' where ih: "append_all cfg be persist xs w1 st1 = Some (OK, w', st')"
      "writing be cfg groups r h C B q ds' b' w' st'" "concat ds' @ b' = concat ds1 @ b1 @ concat xs"
      "b1 \<noteq> [] \<or> concat xs \<noteq> [] \<longrightarrow> b' \<noteq> []" "same_reader (f_file st1) (f_file st')"
    by (elim exE conjE) (rule that)
  have "ZonedWritableFile_Append cfg be persist x w st = Some (OK, w1, st1)"
    using a(1) Cons.prems(1) by (simp add: ZonedWritableFile_Append_def BufferedWrite_def writing_def holds_def)
  then have "append_all cfg be persist (x # xs) w st = Some (OK, w', st')" using ih(1) by simp
  moreover have "b \<noteq> [] \<or> concat (x # xs) \<noteq> [] \<longrightarrow> b' \<noteq> []" using a(4) ih(4) by auto
  ultimately show ?case
    using ih(2,3) c same_reader_trans [OF a(5) ih(5)]
    by (intro exI [of _ ds'] exI [of _ b'] exI [of _ w'] exI [of _ st']) simp
qed

text \<open>Syncing: the log is synced, then the buffer becomes the last record, in a group of its own.\<close>

lemma DataSync_log:
  assumes law: "log_law be h groups img tail" and s: "log_sizes cfg B q"
    and w: "writing be cfg groups r h C B q ds b w st" and b: "b \<noteq> []"
    and C: "zone_fits C B (length (concat ds @ b))"
  shows "\<exists>w' st'. DataSync cfg be persist w st = Some (OK, w', st') \<and>
     same_reader (f_file st) (f_file st') \<and> written groups q (ds @ [b]) st' \<and>
     boundary groups (length ds) (ds @ [b]) (world (f_dev st'))"
proof -
  have o: "is_wal (f_file st)" "wal (f_file st) = Some h" "is_sparse (f_file st)"
    and f: "filled B q ds st" and wr: "written groups q ds st" and bf: "w_buffered w"
    using w by (simp_all add: writing_def wal_open_def holds_def)
  obtain d where d: "WALSync be st = (OK, st\<lparr>f_dev := (f_dev st)\<lparr>world := d\<rparr>\<rparr>)"
      "groups d = groups (world (f_dev st)) @ [[]]"
    using log_law_sync [OF law o(2)] by blast
  let ?st = "st\<lparr>f_dev := (f_dev st)\<lparr>world := d\<rparr>\<rparr>"
  have n: "written groups q ds ?st" "boundary groups (length ds) ds (world (f_dev ?st))"
    using d(2) by (intro written_new_group [OF wr]; simp)+
  then have w1: "writing be cfg groups r h C B q ds b w ?st"
    using w by (simp add: writing_def filled_def wal_open_def)
  have "16 < B" using s by (simp add: log_sizes_def)
  then have "B * (length ds + 1) < C"
    using zone_fits_record [OF C, of ds] filled_length [OF f] by simp
  from FlushBuffer_log [OF law s w1 b this, of persist]
  obtain w' st' where fl: "FlushBuffer cfg be persist w ?st = Some (OK, w', st')"
      "same_reader (f_file ?st) (f_file st')" "written groups q (ds @ [b]) st'"
      "\<forall>n \<le> length ds. boundary groups n ds (world (f_dev ?st)) \<longrightarrow> boundary groups n (ds @ [b]) (world (f_dev st'))"
    by (elim exE conjE) (rule that)
  have "is_sparse (f_file st')" using fl(2) o(3) by (simp add: same_reader_def)
  then have "DataSync cfg be persist w st = Some (OK, w', st')"
    using d(1) fl(1) o bf by (simp add: DataSync_def)
  then show ?thesis using fl n(2) by (intro exI [of _ w'] exI [of _ st']) simp
qed

end
