(* ===== verification/Wal_Layout.thy ===== *)
theory Wal_Layout
  imports Wal_Writer
begin

text \<open>
  Where the records of a log are: the pieces between two group boundaries are on the device in some
  order, so each chunk holds its own records, and the reader's view of the log follows.
\<close>

section \<open>Permuted groups\<close>

lemma mset_concat_groups:
  "list_all2 (\<lambda>p g. mset p = mset g) pgs gs \<Longrightarrow> mset (concat pgs) = mset (concat gs)"
  by (induction rule: list_all2_induct) simp_all

lemma length_concat_mset: "mset xs = mset ys \<Longrightarrow> length (concat xs) = length (concat ys)"
  unfolding length_concat by (metis mset_map sum_mset_sum_list)

lemma permuted_map:
  assumes "mset xs = mset (map f ys)"
  shows "\<exists>zs. mset zs = mset ys \<and> xs = map f zs"
  using assms
proof (induction xs arbitrary: ys)
  case Nil
  then show ?case by simp
next
  case (Cons x xs)
  have "x \<in> set (map f ys)" using Cons.prems by (metis list.set_intros(1) mset_eq_setD)
  then obtain y where y: "y \<in> set ys" "x = f y" by auto
  have "mset (map f ys) = add_mset (f y) (mset (map f (remove1 y ys)))"
    using y(1) by (induction ys) auto
  then have "mset xs = mset (map f (remove1 y ys))" using Cons.prems y(2) by simp
  then obtain zs where "mset zs = mset (remove1 y ys)" "xs = map f zs" using Cons.IH by blast
  then show ?case using y by (intro exI [of _ "y # zs"]) simp
qed

lemma permuted_segment:
  assumes perm: "list_all2 (\<lambda>p g. mset p = mset g) pgs gs" and j: "j1 \<le> j2" "j2 \<le> length gs"
    and n: "concat (take j1 gs) = take n1 (concat gs)" "concat (take j2 gs) = take n2 (concat gs)"
      "n1 \<le> n2" "n2 \<le> length (concat gs)"
  shows "\<exists>xs ys zs. concat pgs = xs @ ys @ zs \<and> mset xs = mset (take n1 (concat gs)) \<and>
     mset ys = mset (take (n2 - n1) (drop n1 (concat gs))) \<and> mset zs = mset (drop n2 (concat gs))"
proof -
  have t: "mset (concat (take j pgs)) = mset (concat (take j gs))"
    and d: "mset (concat (drop j pgs)) = mset (concat (drop j gs))" for j
    using perm by (simp_all add: mset_concat_groups list_all2_takeI list_all2_dropI)
  have m: "mset (concat (take (j2 - j1) (drop j1 pgs))) = mset (concat (take (j2 - j1) (drop j1 gs)))"
    using perm by (intro mset_concat_groups list_all2_takeI list_all2_dropI)
  have "concat (take j2 gs) = concat (take j1 gs) @ concat (take (j2 - j1) (drop j1 gs))"
    using take_add [of j1 "j2 - j1" gs] j(1) by simp
  then have mid: "concat (take (j2 - j1) (drop j1 gs)) = take (n2 - n1) (drop n1 (concat gs))"
    using n take_add [of n1 "n2 - n1" "concat gs"] by simp
  have "concat gs = concat (take j2 gs) @ concat (drop j2 gs)"
    by (metis append_take_drop_id concat_append)
  then have last: "concat (drop j2 gs) = drop n2 (concat gs)"
    using n(2) by (metis append_take_drop_id same_append_eq)
  have "concat pgs = concat (take j1 pgs) @ concat (take (j2 - j1) (drop j1 pgs)) @ concat (drop j2 pgs)"
    using j(1) take_add [of j1 "j2 - j1" pgs] append_take_drop_id [of j2 pgs]
    by (metis append.assoc concat_append le_add_diff_inverse)
  then show ?thesis
    using t [of j1] m d [of j2] n(1) mid last
    by (intro exI [of _ "concat (take j1 pgs)"] exI [of _ "concat (take (j2 - j1) (drop j1 pgs))"]
        exI [of _ "concat (drop j2 pgs)"]) simp
qed

lemma boundaries_ordered:
  assumes "j1 \<le> length gs" "concat (take j1 gs) = take n1 (concat gs)"
    and "j2 \<le> length gs" "concat (take j2 gs) = take n2 (concat gs)"
    and "n1 \<le> n2" "n2 \<le> length (concat gs)"
  shows "\<exists>i1 i2. i1 \<le> i2 \<and> i2 \<le> length gs \<and> concat (take i1 gs) = take n1 (concat gs) \<and>
     concat (take i2 gs) = take n2 (concat gs)"
proof (cases "j1 \<le> j2")
  case False
  have "take j1 gs = take j2 gs @ take (j1 - j2) (drop j2 gs)"
    using False take_add [of j2 "j1 - j2" gs] by simp
  then have "length (concat (take j2 gs)) \<le> length (concat (take j1 gs))" by simp
  then have "n2 \<le> n1" using assms by simp
  then have "n1 = n2" using assms(5) by simp
  then show ?thesis using assms(3,4) by (intro exI [of _ j2]) simp
qed (use assms in blast)

section \<open>The records of a chunk\<close>

lemma length_concat_const: "\<forall>x \<in> set xs. length x = B \<Longrightarrow> length (concat xs) = length xs * B"
  by (induction xs) simp_all

lemma chunk_segment:
  assumes perm: "list_all2 (\<lambda>p g. mset p = mset g) pgs gs"
    and gs: "concat gs = map wal_record R @ [wal_record e @ t]" and R: "\<forall>e \<in> set R. length (wal_record e) = B"
    and k: "j1 \<le> length gs" "concat (take j1 gs) = take (k * q) (concat gs)" "k * q \<le> length R"
    and k2: "j2 \<le> length gs" "concat (take j2 gs) = take (min (Suc k * q) (length R)) (concat gs)"
  shows "\<exists>ps. mset ps = mset (take q (drop (k * q) (R @ [e]))) \<and>
     (if Suc k * q \<le> length R
      then concat (map wal_record ps) = take (q * B) (drop (k * q * B) (concat (concat pgs)))
      else concat (map wal_record ps) @ t = drop (k * q * B) (concat (concat pgs)))"
proof -
  define n1 where "n1 = k * q"
  define n2 where "n2 = min (Suc k * q) (length R)"
  note k = k [folded n1_def] and k2 = k2 [folded n2_def]
  have n12: "n1 \<le> n2" "n2 \<le> length R"
    using k(3) unfolding n1_def n2_def by (simp_all only: min.bounded_iff mult_Suc le_add2 min.cobounded2)
  have "length (concat gs) = Suc (length R)" unfolding gs by simp
  then have "n2 \<le> length (concat gs)" using n12(2) by simp
  note n = n12(1) this
  obtain i1 i2 where i: "i1 \<le> i2" "i2 \<le> length gs" "concat (take i1 gs) = take n1 (concat gs)"
      "concat (take i2 gs) = take n2 (concat gs)"
    using boundaries_ordered [OF k(1,2) k2 n] by blast
  obtain xs ys zs where x: "concat pgs = xs @ ys @ zs" "mset xs = mset (take n1 (concat gs))"
      "mset ys = mset (take (n2 - n1) (drop n1 (concat gs)))" "mset zs = mset (drop n2 (concat gs))"
    using permuted_segment [OF perm i n] by blast
  have t1: "take n1 (concat gs) = map wal_record (take n1 R)" using k(3) gs by (simp add: take_map)
  have "length (concat (map wal_record (take n1 R))) = n1 * B"
    using length_concat_const [of "map wal_record (take n1 R)" B] k(3) R by (auto dest: in_set_takeD)
  then have lx: "length (concat xs) = n1 * B" using length_concat_mset [OF x(2)] unfolding t1 by simp
  have "take (n2 - n1) (drop n1 (concat gs)) = map wal_record (take (n2 - n1) (drop n1 R))"
    using n12 gs by (simp add: take_map drop_map)
  then obtain qs where qs: "mset qs = mset (take (n2 - n1) (drop n1 R))" "ys = map wal_record qs"
    using permuted_map x(3) by metis
  show ?thesis
  proof (cases "Suc k * q \<le> length R")
    case True
    then have "n2 = Suc k * q" unfolding n2_def by (rule min_absorb1)
    then have n2: "n2 - n1 = q" by (simp add: n1_def)
    have "q \<le> length (drop n1 R)" using True by (simp add: n1_def)
    then have "take q (drop n1 (R @ [e])) = take q (drop n1 R)" using k(3) by simp
    then have "mset qs = mset (take q (drop n1 (R @ [e])))" using qs(1) unfolding n2 by simp
    moreover have "length (concat ys) = q * B"
    proof -
      have "length qs = q" using arg_cong [OF qs(1), of size] \<open>q \<le> length (drop n1 R)\<close> unfolding n2 by simp
      moreover have "set qs \<subseteq> set R"
        using mset_eq_setD [OF qs(1)] by (auto dest: in_set_takeD in_set_dropD)
      ultimately show ?thesis using length_concat_const [of ys B] R qs(2) by auto
    qed
    ultimately show ?thesis using True x(1) lx qs(2) by (intro exI [of _ qs]) (simp add: n1_def)
  next
    case False
    then have n2: "n2 = length R" unfolding n2_def by (simp only: min_absorb2 linorder_not_le less_imp_le)
    have "mset zs = {#wal_record e @ t#}" using x(4) gs unfolding n2 by simp
    then have "zs = [wal_record e @ t]" by (metis mset_single_iff)
    moreover have "mset (qs @ [e]) = mset (take q (drop n1 (R @ [e])))"
    proof -
      have "length (drop n1 (R @ [e])) \<le> q" using False by (simp add: n1_def)
      then have "take q (drop n1 (R @ [e])) = drop n1 R @ [e]" using k(3) by simp
      then show ?thesis using qs(1) unfolding n2 by simp
    qed
    ultimately show ?thesis using False x(1) lx qs(2) by (intro exI [of _ "qs @ [e]"]) (simp add: n1_def)
  qed
qed

definition chunks_of :: "nat \<Rightarrow> 'a list \<Rightarrow> 'a list list" where
  "chunks_of q xs = map (\<lambda>k. take q (drop (k * q) xs)) [0..<(length xs + q - 1) div q]"

lemma concat_chunks: "concat (map (\<lambda>k. take q (drop (k * q) xs)) [0..<n]) = take (n * q) xs"
proof (induction n)
  case (Suc n)
  then show ?case using take_add [of "n * q" q xs] by (simp add: add.commute)
qed simp

lemma length_chunks_of: "length (chunks_of q xs) = (length xs + q - 1) div q"
  by (simp add: chunks_of_def)

lemma chunks_of_bound:
  assumes "0 < q"
  shows "k < length (chunks_of q xs) \<longleftrightarrow> k * q < length xs"
proof -
  have "k < (length xs + q - 1) div q \<longleftrightarrow> (k + 1) * q \<le> length xs + q - 1"
    using assms less_eq_div_iff_mult_less_eq [of q "Suc k" "length xs + q - 1"] by (simp add: Suc_le_eq)
  also have "\<dots> \<longleftrightarrow> k * q < length xs" using assms by (auto simp: algebra_simps)
  finally show ?thesis by (simp add: length_chunks_of)
qed

lemma chunks_of_nth: "k < length (chunks_of q xs) \<Longrightarrow> chunks_of q xs ! k = take q (drop (k * q) xs)"
  by (simp add: chunks_of_def)

lemma concat_chunks_of:
  assumes "0 < q"
  shows "concat (chunks_of q xs) = xs"
proof -
  have "\<not> length (chunks_of q xs) * q < length xs" using chunks_of_bound [OF assms, of "length (chunks_of q xs)" xs] by simp
  then show ?thesis unfolding chunks_of_def concat_chunks by (simp add: length_chunks_of)
qed

section \<open>Word arithmetic of the chunk bounds\<close>

lemma push_drop_12:
  assumes "n * 4096 < 2 ^ 64"
  shows "push_bit 12 (of_nat n :: u64) = of_nat (n * 4096)" and "drop_bit 12 (of_nat (n * 4096) :: u64) = of_nat n"
proof -
  show "push_bit 12 (of_nat n :: u64) = of_nat (n * 4096)" by (simp add: push_bit_eq_mult)
  have "unat (of_nat (n * 4096) :: u64) = n * 4096" by (rule unat_of_nat_small) (use assms in simp)
  then have "unat (drop_bit 12 (of_nat (n * 4096) :: u64)) = drop_bit 12 (take_bit 64 (n * 4096))"
    by (simp only: unsigned_drop_bit_eq) simp
  then have "unat (drop_bit 12 (of_nat (n * 4096) :: u64)) = n"
    using assms by (simp add: take_bit_nat_eq_self drop_bit_eq_div)
  moreover have "unat (of_nat n :: u64) = n" by (rule unat_of_nat_small) (use assms in simp)
  ultimately show "drop_bit 12 (of_nat (n * 4096) :: u64) = of_nat n" by (simp only: word_unat_eq_iff)
qed

lemma min_of_nat:
  assumes "a < 2 ^ 64" and "b < 2 ^ 64"
  shows "min (of_nat a :: u64) (of_nat b) = of_nat (min a b)"
  using u64_of_nat(2) [OF assms] by (simp add: min_def)

lemma chunk_bounds_log:
  assumes law: "log_law be h groups img tail" and s: "log_sizes cfg B q"
    and len: "length (img d) mod 4096 = 0" "unat tail * 4096 + length (img d) < 2 ^ 63"
    and k: "unat tail * 4096 + Suc k * (q * B) < 2 ^ 64"
  shows "chunk_bounds cfg be h (of_nat k) d =
     (of_nat (unat tail * 4096 + min (k * (q * B)) (length (img d))),
      of_nat (unat tail * 4096 + min (Suc k * (q * B)) (length (img d))))"
proof -
  let ?t = "unat tail" and ?n = "length (img d)"
  have n: "?n = ?n div 4096 * 4096" using len(1) by (simp add: mod_0_imp_dvd)
  have tail: "tail = of_nat ?t" by simp
  have l64: "?t * 4096 + ?n < 2 ^ 64" using len(2) by simp
  have pt: "push_bit 12 tail = of_nat (?t * 4096)"
    using push_drop_12(1) [of ?t] len(2) tail by simp
  have ph: "push_bit 12 (tail + of_nat (?n div 4096)) = of_nat (?t * 4096 + ?n)"
  proof -
    have "tail + of_nat (?n div 4096) = of_nat (?t + ?n div 4096)" by simp
    moreover have "(?t + ?n div 4096) * 4096 = ?t * 4096 + ?n" using n by (simp add: add_mult_distrib)
    ultimately show ?thesis using push_drop_12(1) [of "?t + ?n div 4096"] l64 by (simp only:)
  qed
  have bar: "of_nat (?t * 4096) + of_nat k * barrier cfg = (of_nat (?t * 4096 + k * (q * B)) :: u64)"
    "of_nat (?t * 4096) + (of_nat k + 1) * barrier cfg = (of_nat (?t * 4096 + Suc k * (q * B)) :: u64)"
    using s by (simp_all add: log_sizes_def algebra_simps)
  have mn: "min (of_nat (?t * 4096 + a)) (of_nat (?t * 4096 + ?n)) = (of_nat (?t * 4096 + min a ?n) :: u64)"
    if "?t * 4096 + a < 2 ^ 64" for a
    using that l64 min_of_nat [of "?t * 4096 + a" "?t * 4096 + ?n"] by (simp only: min_add_distrib_right)
  have "?t * 4096 + k * (q * B) < 2 ^ 64" using k by simp
  from mn [OF this] mn [OF k] show ?thesis
    unfolding chunk_bounds_def Let_def log_lawD(1,10,11) [OF law] pt ph bar by (simp only:)
qed

section \<open>What the reader finds\<close>

lemma numbered_fst: "map fst (numbered ds) = map of_nat [0..<length ds]"
  by (simp add: numbered_def)

lemma numbered_nth: "i < length ds \<Longrightarrow> numbered ds ! i = (of_nat i, ds ! i)"
  by (simp add: numbered_def)

lemma numbered_chunk_sorted:
  assumes "length ds < 2 ^ 63"
  shows "sorted_wrt (<) (map fst (take q (drop n (numbered ds))))"
proof -
  have "sorted_wrt (<) (map (of_nat :: nat \<Rightarrow> u64) [0..<length ds])"
    using assms by (auto simp: sorted_wrt_iff_nth_less u64_of_nat)
  then show ?thesis
    unfolding numbered_fst [symmetric] take_map [symmetric] drop_map [symmetric]
    by (simp only: sorted_wrt_take sorted_wrt_drop)
qed

lemma numbered_chunk_entry:
  assumes "e \<in> set (take q (drop n (numbered ds)))" and "length ds < 2 ^ 63"
    and "\<forall>x \<in> set ds. x \<noteq> [] \<and> length x < 2 ^ 32" and "later \<longrightarrow> 0 < n"
  shows "entry_ok later e"
proof -
  obtain j where j: "j < length (take q (drop n (numbered ds)))" "e = take q (drop n (numbered ds)) ! j"
    using assms(1) by (metis in_set_conv_nth)
  define i where "i = n + j"
  have i: "i < length ds" "n \<le> i" "e = numbered ds ! i" using j by (auto simp: i_def)
  have "later \<longrightarrow> (of_nat i :: u64) \<noteq> 0"
    using assms(2,4) i u64_of_nat(3) [of i 0] by auto
  then show ?thesis using i assms(3) nth_mem [OF i(1)] by (simp add: entry_ok_def numbered_nth)
qed

lemma payload_full:
  assumes "length x + 16 = B" and "B mod 4096 = 0"
  shows "payload i x = wal_record (i, x)"
  using assms by (simp add: payload_def padding_def)

lemma payloads_full:
  assumes "\<forall>x \<in> set ds. length x + 16 = B" and "B mod 4096 = 0"
  shows "payloads ds = map wal_record (numbered ds)" and "\<forall>e \<in> set (numbered ds). length (wal_record e) = B"
  using assms payload_full by (auto simp: payloads_def numbered_def add.commute)

text \<open>The length of the padding of the last record: none, or enough for a header.\<close>

definition pad_ok :: "nat \<Rightarrow> bool" where
  "pad_ok n \<longleftrightarrow> padding (n + 16) = 0 \<or> 16 \<le> padding (n + 16)"

lemma pad_ok_tail: "pad_ok n \<Longrightarrow> chunk_tail (replicate (padding (n + 16)) 0)"
  using chunk_tail_padding [of "padding (n + 16)" "[]"] by (auto simp: pad_ok_def chunk_tail_def)

text \<open>The contents of one chunk, from its first byte on.\<close>

lemma written_chunk:
  assumes law: "log_law be h groups img tail" and B: "B mod 4096 = 0" and q: "0 < q"
    and full: "\<forall>x \<in> set ds. length x + 16 = B"
    and w: "written groups q (ds @ [b]) st"
    and bd: "boundary groups (length ds) (ds @ [b]) (world (f_dev st))" and k: "k * q \<le> length ds"
  shows "\<exists>ps. mset ps = mset (take q (drop (k * q) (numbered (ds @ [b])))) \<and>
     (if Suc k * q \<le> length ds
      then concat (map wal_record ps) = take (q * B) (drop (k * q * B) (img (world (f_dev st))))
      else concat (map wal_record ps) @ replicate (padding (length b + 16)) 0
        = drop (k * q * B) (img (world (f_dev st))))"
    and "length (img (world (f_dev st))) = length ds * B + length (payload (of_nat (length ds)) b)"
proof -
  let ?gs = "groups (world (f_dev st))"
  obtain pgs where p: "img (world (f_dev st)) = concat (concat pgs)" "list_all2 (\<lambda>p g. mset p = mset g) pgs ?gs"
    using log_lawD(3) [OF law] by blast
  have gs: "concat ?gs = payloads (ds @ [b])" using w by (simp add: written_def)
  have pl: "payloads (ds @ [b]) = map wal_record (numbered ds) @
      [wal_record (of_nat (length ds), b) @ replicate (padding (length b + 16)) 0]"
    using payloads_full(1) [OF full B] by (simp add: payloads_snoc payload_def)
  have bk: "\<exists>j \<le> length ?gs. concat (take j ?gs) = take n (concat ?gs)"
    if "boundary groups n (ds @ [b]) (world (f_dev st))" for n
    using that unfolding boundary_def gs by (meson less_imp_le)
  have "k * q < length (ds @ [b])" using k by simp
  then obtain j1 where j1: "j1 \<le> length ?gs" "concat (take j1 ?gs) = take (k * q) (concat ?gs)"
    using bk w unfolding written_def by blast
  have "boundary groups (min (Suc k * q) (length ds)) (ds @ [b]) (world (f_dev st))"
  proof (cases "Suc k * q \<le> length ds")
    case True
    then have "Suc k * q < length (ds @ [b])" by simp
    then have "boundary groups (Suc k * q) (ds @ [b]) (world (f_dev st))" using w unfolding written_def by blast
    then show ?thesis unfolding min_absorb1 [OF True] .
  next
    case False
    then have "min (Suc k * q) (length ds) = length ds" by (simp only: min_absorb2 linorder_not_le less_imp_le)
    then show ?thesis using bd by simp
  qed
  then obtain j2 where j2: "j2 \<le> length ?gs" "concat (take j2 ?gs) = take (min (Suc k * q) (length ds)) (concat ?gs)"
    using bk by blast
  have nd: "length (numbered ds) = length ds" by simp
  show "\<exists>ps. mset ps = mset (take q (drop (k * q) (numbered (ds @ [b])))) \<and>
     (if Suc k * q \<le> length ds
      then concat (map wal_record ps) = take (q * B) (drop (k * q * B) (img (world (f_dev st))))
      else concat (map wal_record ps) @ replicate (padding (length b + 16)) 0
        = drop (k * q * B) (img (world (f_dev st))))"
    unfolding p(1) numbered_simps(3)
    by (rule chunk_segment [OF p(2) gs [unfolded pl] payloads_full(2) [OF full B] j1, unfolded nd, OF k j2])
  have "length (concat (concat pgs)) = length (concat (concat ?gs))"
    by (rule length_concat_mset [OF mset_concat_groups [OF p(2)]])
  then show "length (img (world (f_dev st))) = length ds * B + length (payload (of_nat (length ds)) b)"
    using length_concat_const [of "map wal_record (numbered ds)" B] payloads_full(2) [OF full B]
    unfolding p(1) gs pl by (simp add: payload_def)
qed

text \<open>Reading the bytes of a chunk.\<close>

lemma read_chunk:
  assumes law: "log_law be h groups img tail" and x: "x mod 4096 = 0" "x \<le> y" "y \<le> length (img d)"
    and t: "unat tail * 4096 + y < 2 ^ 63"
  shows "szd_Read be h (drop_bit 12 (of_nat (unat tail * 4096 + x))) (unat (of_nat (unat tail * 4096 + y) - of_nat (unat tail * 4096 + x) :: u64)) d
      = (Some (take (y - x) (drop x (img d))), d)"
    and "unat (of_nat (unat tail * 4096 + y) - of_nat (unat tail * 4096 + x) :: u64) = y - x"
proof -
  have t64: "unat tail * 4096 + y < 2 ^ 64" using t by simp
  have n: "unat (of_nat (unat tail * 4096 + y) - of_nat (unat tail * 4096 + x) :: u64) = y - x"
    using unat_diff_of_nat [of "unat tail * 4096 + x" "unat tail * 4096 + y"] x(2) t64 by simp
  obtain i where i: "x = i * 4096" using x(1) by (metis dvd_def mod_0_imp_dvd mult.commute)
  have "(unat tail + i) * 4096 < 2 ^ 64" using t64 x(2) i by simp
  from push_drop_12(2) [OF this]
  have "drop_bit 12 (of_nat (unat tail * 4096 + x)) = tail + (of_nat i :: u64)"
    unfolding i by (simp add: add_mult_distrib)
  moreover have "i * 4096 + (y - x) \<le> length (img d)" "i * 4096 + (y - x) < 2 ^ 63" using x(2,3) i t by simp_all
  ultimately show "szd_Read be h (drop_bit 12 (of_nat (unat tail * 4096 + x))) (unat (of_nat (unat tail * 4096 + y) - of_nat (unat tail * 4096 + x) :: u64)) d
      = (Some (take (y - x) (drop x (img d))), d)"
    unfolding n using log_lawD(9) [OF law, where i = i and n = "y - x" and d = d] i by simp
  show "unat (of_nat (unat tail * 4096 + y) - of_nat (unat tail * 4096 + x) :: u64) = y - x" by (rule n)
qed

text \<open>The layout of a synced log; the lemmas below are about it.\<close>

definition laid_out ::
    "'d backend \<Rightarrow> nat \<Rightarrow> ('d \<Rightarrow> bytes list list) \<Rightarrow> ('d \<Rightarrow> bytes) \<Rightarrow> u64 \<Rightarrow> config \<Rightarrow> nat \<Rightarrow> nat \<Rightarrow>
     bytes list \<Rightarrow> bytes \<Rightarrow> ('d, 'm) fenv \<Rightarrow> bool" where
  "laid_out be h groups img tail cfg B q ds b st \<longleftrightarrow>
     log_law be h groups img tail \<and> log_sizes cfg B q \<and> (\<forall>x \<in> set ds. length x + 16 = B) \<and>
     b \<noteq> [] \<and> length b + 16 \<le> B \<and> pad_ok (length b) \<and> written groups q (ds @ [b]) st \<and>
     boundary groups (length ds) (ds @ [b]) (world (f_dev st)) \<and> unat tail * 4096 + (length ds + 1) * B < 2 ^ 62"

lemma laid_out_size:
  assumes "laid_out be h groups img tail cfg B q ds b st"
  shows "length (img (world (f_dev st))) = length ds * B + length (payload (of_nat (length ds)) b)"
    and "0 < length (payload (of_nat (length ds)) b)" "length (payload (of_nat (length ds)) b) \<le> B"
    and "length (img (world (f_dev st))) mod 4096 = 0" "unat tail * 4096 + length (img (world (f_dev st))) < 2 ^ 63"
proof -
  let ?p = "payload (of_nat (length ds)) b"
  note l = assms [unfolded laid_out_def]
  have B: "B mod 4096 = 0" "0 < q" using l by (simp_all add: log_sizes_def)
  show len: "length (img (world (f_dev st))) = length ds * B + length ?p"
    using l B by (intro written_chunk(2) [of be h groups img tail B q, where k = 0]) auto
  have "length b + 16 \<le> B" using l by simp
  then show lp: "0 < length ?p" "length ?p \<le> B" using padding_le B(1) by (simp_all add: length_payload)
  show "length (img (world (f_dev st))) mod 4096 = 0"
    unfolding len using B(1) payload_aligned [of "of_nat (length ds)" b] by (simp add: mod_0_imp_dvd dvd_imp_mod_0)
  show "unat tail * 4096 + length (img (world (f_dev st))) < 2 ^ 63" using l lp(2) unfolding len by simp
qed

lemma laid_out_bounds:
  assumes l: "laid_out be h groups img tail cfg B q ds b st" and k: "k * q \<le> length ds + q"
  shows "chunk_bounds cfg be h (of_nat k) (world (f_dev st)) =
      (of_nat (unat tail * 4096 + min (k * (q * B)) (length (img (world (f_dev st))))),
       of_nat (unat tail * 4096 + min (Suc k * (q * B)) (length (img (world (f_dev st))))))"
proof -
  have law: "log_law be h groups img tail" and s: "log_sizes cfg B q" and "q * B < 2 ^ 62"
    and room: "unat tail * 4096 + (length ds + 1) * B < 2 ^ 62"
    using l by (simp_all add: laid_out_def log_sizes_def)
  have "Suc k * (q * B) \<le> length ds * B + q * B + q * B"
    using mult_le_mono1 [OF k, of B] by (simp add: add_mult_distrib mult.assoc)
  then have "unat tail * 4096 + Suc k * (q * B) < 2 ^ 64" using room \<open>q * B < 2 ^ 62\<close> by simp
  then show ?thesis by (rule chunk_bounds_log [OF law s laid_out_size(4,5) [OF l]])
qed

text \<open>The bytes between two chunk bounds \<open>x\<close> and \<open>y\<close>.\<close>

lemma laid_out_chunk:
  assumes l: "laid_out be h groups img tail cfg B q ds b st" and k: "k * q \<le> length ds"
  defines "x \<equiv> k * (q * B)" and "y \<equiv> min (k * (q * B) + q * B) (length (img (world (f_dev st))))"
  shows "x < y" and "x mod 4096 = 0" and "y \<le> length (img (world (f_dev st)))"
    and "\<exists>ps t. mset ps = mset (take q (drop (k * q) (numbered (ds @ [b])))) \<and> chunk_tail t \<and>
      concat (map wal_record ps) @ t = take (y - x) (drop x (img (world (f_dev st))))"
proof -
  let ?d = "world (f_dev st)" and ?m = "length ds"
  have law: "log_law be h groups img tail" and si: "B mod 4096 = 0" "0 < q"
    and full: "\<forall>x \<in> set ds. length x + 16 = B" and b: "length b + 16 \<le> B" "pad_ok (length b)"
    and w: "written groups q (ds @ [b]) st" and bd: "boundary groups (length ds) (ds @ [b]) ?d"
    using l by (simp_all add: laid_out_def log_sizes_def)
  note len = laid_out_size(1) [OF l] and lp = laid_out_size(2,3) [OF l]
  have "x \<le> ?m * B" using mult_le_mono1 [OF k, of B] by (simp add: x_def mult.assoc)
  then have xl: "x < length (img ?d)" unfolding len using lp(1) by linarith
  have "0 < q * B" using si(2) b(1) by simp
  then show "x < y" using xl by (simp add: x_def y_def)
  show "x mod 4096 = 0" using si(1) unfolding x_def by (metis mod_mult_right_eq mult.assoc mult_0_right mod_0)
  show "y \<le> length (img ?d)" by (simp add: y_def)
  obtain ps where ps: "mset ps = mset (take q (drop (k * q) (numbered (ds @ [b]))))"
      "if Suc k * q \<le> ?m then concat (map wal_record ps) = take (q * B) (drop (k * q * B) (img ?d))
       else concat (map wal_record ps) @ replicate (padding (length b + 16)) 0 = drop (k * q * B) (img ?d)"
    using written_chunk(1) [OF law si full w bd k] by blast
  have "\<exists>t. chunk_tail t \<and> concat (map wal_record ps) @ t = take (y - x) (drop x (img ?d))"
  proof (cases "Suc k * q \<le> ?m")
    case True
    have "x + q * B \<le> ?m * B" using mult_le_mono1 [OF True, of B] by (simp add: x_def add_mult_distrib mult.assoc add.commute)
    then have "y = x + q * B" unfolding y_def x_def len by simp
    then show ?thesis using ps(2) True by (intro exI [of _ "[]"]) (simp add: chunk_tail_def x_def mult.assoc)
  next
    case False
    then have "?m + 1 \<le> Suc k * q" by simp
    from mult_le_mono1 [OF this, of B] have "length (img ?d) \<le> x + q * B"
      unfolding len using lp(2) by (simp add: x_def add_mult_distrib mult.assoc add.commute)
    then have "y = length (img ?d)" by (simp add: y_def x_def)
    then show ?thesis using ps(2) False pad_ok_tail [OF b(2)]
      by (intro exI [of _ "replicate (padding (length b + 16)) 0"]) (simp add: x_def mult.assoc)
  qed
  then show "\<exists>ps t. mset ps = mset (take q (drop (k * q) (numbered (ds @ [b])))) \<and> chunk_tail t \<and>
      concat (map wal_record ps) @ t = take (y - x) (drop x (img ?d))" using ps(1) by blast
qed

lemma laid_out_records:
  assumes l: "laid_out be h groups img tail cfg B q ds b st"
  shows "length (ds @ [b]) < 2 ^ 63" and "\<forall>x \<in> set (ds @ [b]). x \<noteq> [] \<and> length x < 2 ^ 32"
proof -
  have B: "4096 \<le> B" "B < 2 ^ 31" and room: "unat tail * 4096 + (length ds + 1) * B < 2 ^ 62"
    using l by (simp_all add: laid_out_def log_sizes_def)
  have "length ds + 1 \<le> (length ds + 1) * B" using mult_le_mono2 [of 1 B "length ds + 1"] B(1) by simp
  then show "length (ds @ [b]) < 2 ^ 63" using room by simp
  show "\<forall>x \<in> set (ds @ [b]). x \<noteq> [] \<and> length x < 2 ^ 32"
    using l B by (fastforce simp: laid_out_def)
qed

lemma laid_out_chunk_holds:
  assumes l: "laid_out be h groups img tail cfg B q ds b st" and k: "k * q \<le> length ds"
    and rs: "rs = take q (drop (k * q) (numbered (ds @ [b])))"
  shows "case chunk_bounds cfg be h (of_nat k) (world (f_dev st)) of (lo, hi) \<Rightarrow>
      lo < hi \<and> rs \<noteq> [] \<and> sorted_wrt (<) (map fst rs) \<and>
      (\<forall>e \<in> set rs. entry_ok (lo > push_bit (block_shift be) (szd_GetWriteTail be h (world (f_dev st)))) e) \<and>
      (\<exists>ps t. mset ps = mset rs \<and> chunk_tail t \<and> length (concat (map wal_record ps) @ t) = unat (hi - lo) \<and>
         szd_Read be h (drop_bit (block_shift be) lo) (unat (hi - lo)) (world (f_dev st))
           = (Some (concat (map wal_record ps) @ t), world (f_dev st)))"
proof -
  let ?d = "world (f_dev st)" and ?t = "unat tail * 4096"
  have law: "log_law be h groups img tail" and q: "0 < q" using l by (simp_all add: laid_out_def log_sizes_def)
  define x where "x = k * (q * B)"
  define y where "y = min (k * (q * B) + q * B) (length (img ?d))"
  note c = laid_out_chunk [OF l k, folded x_def y_def]
  have tl: "?t + y < 2 ^ 63" using laid_out_size(5) [OF l] c(3) by linarith
  note rd = read_chunk [OF law c(2) less_imp_le [OF c(1)] c(3) tl]
  have "x \<le> length (img ?d)" using c(1,3) by simp
  then have cb: "chunk_bounds cfg be h (of_nat k) ?d = (of_nat (?t + x), of_nat (?t + y))"
    using laid_out_bounds [OF l, of k] k by (simp add: x_def y_def add.commute)
  have t64: "?t + x < 2 ^ 64" "?t + y < 2 ^ 64" "?t < 2 ^ 64" using tl c(1) by simp_all
  have lt: "(of_nat (?t + x) :: u64) < of_nat (?t + y)" unfolding u64_of_nat(1) [OF t64(1,2)] using c(1) by simp
  have pt: "push_bit 12 (szd_GetWriteTail be h ?d) = of_nat ?t"
    using push_drop_12(1) [of "unat tail"] t64(3) unfolding log_lawD(10) [OF law] by simp
  have later: "(of_nat ?t :: u64) < of_nat (?t + x) \<longrightarrow> 0 < k * q"
    unfolding u64_of_nat(1) [OF t64(3,1)] by (simp add: x_def)
  have ne: "rs \<noteq> []" using k q by (simp add: rs)
  obtain ps t where t: "mset ps = mset rs" "chunk_tail t" "concat (map wal_record ps) @ t = take (y - x) (drop x (img ?d))"
    using c(4) unfolding rs by blast
  have "length (concat (map wal_record ps) @ t) = y - x" unfolding t(3) using c(3) by simp
  then have "\<exists>ps t. mset ps = mset rs \<and> chunk_tail t \<and> length (concat (map wal_record ps) @ t) = y - x \<and>
      szd_Read be h (drop_bit 12 (of_nat (?t + x))) (y - x) ?d = (Some (concat (map wal_record ps) @ t), ?d)"
    using t rd by (intro exI [of _ ps] exI [of _ t]) simp
  then show ?thesis
    unfolding cb prod.case pt rd(2) log_lawD(1) [OF law]
    using lt ne numbered_chunk_sorted [OF laid_out_records(1) [OF l], of q "k * q"]
      numbered_chunk_entry [OF _ laid_out_records [OF l] later, of _ q] unfolding rs by blast
qed

lemma laid_out_log_holds:
  assumes l: "laid_out be h groups img tail cfg B q ds b st"
  shows "log_holds cfg be h (world (f_dev st)) (chunks_of q (numbered (ds @ [b])))"
  unfolding log_holds_def
proof (intro conjI allI impI)
  let ?R = "numbered (ds @ [b])" and ?n = "length (img (world (f_dev st)))"
  have q: "0 < q" using l by (simp add: laid_out_def log_sizes_def)
  fix k assume k: "k < length (chunks_of q ?R)"
  then have "k * q \<le> length ds" using chunks_of_bound [OF q, of k ?R] by simp
  from laid_out_chunk_holds [OF l this chunks_of_nth [OF k]]
  show "case chunk_bounds cfg be h (of_nat k) (world (f_dev st)) of (lo, hi) \<Rightarrow>
      lo < hi \<and> chunks_of q ?R ! k \<noteq> [] \<and> sorted_wrt (<) (map fst (chunks_of q ?R ! k)) \<and>
      (\<forall>e \<in> set (chunks_of q ?R ! k).
         entry_ok (lo > push_bit (block_shift be) (szd_GetWriteTail be h (world (f_dev st)))) e) \<and>
      (\<exists>ps t. mset ps = mset (chunks_of q ?R ! k) \<and> chunk_tail t \<and>
         length (concat (map wal_record ps) @ t) = unat (hi - lo) \<and>
         szd_Read be h (drop_bit (block_shift be) lo) (unat (hi - lo)) (world (f_dev st))
           = (Some (concat (map wal_record ps) @ t), world (f_dev st)))" .
next
  let ?R = "numbered (ds @ [b])" and ?n = "length (img (world (f_dev st)))"
  have q: "0 < q" using l by (simp add: laid_out_def log_sizes_def)
  define L where "L = length (chunks_of q ?R)"
  have "\<not> L * q < length ds + 1" using chunks_of_bound [OF q, of L ?R] by (simp add: L_def)
  then have "?n \<le> L * (q * B)"
    using mult_le_mono1 [of "length ds + 1" "L * q" B] laid_out_size(1,3) [OF l] by (simp add: mult.assoc)
  moreover have "L * q \<le> length ds + q" unfolding L_def length_chunks_of
    using div_times_less_eq_dividend [of "length ?R + q - 1" q] q by simp
  ultimately show "case chunk_bounds cfg be h (of_nat (length (chunks_of q ?R))) (world (f_dev st)) of (lo, hi) \<Rightarrow> lo \<ge> hi"
    using laid_out_bounds [OF l, of L] unfolding L_def [symmetric] by simp
qed

end
