(* ===== verification/Wal_Props.thy ===== *)
theory Wal_Props
  imports Wal_Read
begin

text \<open>What the write-ahead log promises its readers, and a log in memory to evaluate it on.\<close>

section \<open>A log in memory\<close>

text \<open>
  For concrete evaluations: a once-log that holds a byte image, with barriers every 8 KiB. The first
  chunk holds two records that reached the device in the wrong order, the second one a short record
  and padding.
\<close>

definition image_backend :: "bytes \<Rightarrow> (u64 \<Rightarrow> byte) backend" where
  "image_backend img = (ram_backend 8192)
     \<lparr>szd_Read := (\<lambda>wal lba n d. (Some (take n (drop (unat lba * 4096) img)), d)),
      szd_GetWriteHead := (\<lambda>wal d. of_nat (length img div 4096))\<rparr>"

definition barrier_config :: config where
  "barrier_config = \<lparr> SPARSE_BUFFER_SIZE_IN_KB = 8, WAL_BARRIER_SIZE_IN_KB = 8 \<rparr>"

definition three_records :: "(u64 \<times> bytes) list list" where
  "three_records = [[(0, replicate 4080 1), (1, replicate 4080 2)], [(2, [3, 4])]]"

definition three_records_image :: bytes where
  "three_records_image =
     wal_record (1, replicate 4080 2) @ wal_record (0, replicate 4080 1) @ wal_record (2, [3, 4]) @ replicate 4078 0"

definition three_records_file :: ZoneFile where
  "three_records_file = (newZoneFile 7)\<lparr>linkfiles := [str ''1.log''], is_wal := True, is_sparse := True,
     wal := Some 0, file_size := 8162,
     extents := [\<lparr> e_start = 0, e_length = 4080, e_zone = IoZ 0 \<rparr>, \<lparr> e_start = 4096, e_length = 4080, e_zone = IoZ 0 \<rparr>,
                 \<lparr> e_start = 8192, e_length = 2, e_zone = IoZ 0 \<rparr>]\<rparr>"

lemma image_block_shift [simp]: "block_shift (image_backend img) = 12"
  by (simp add: block_shift_def image_backend_def ram_backend_def shift_block_size_def)

lemma three_records_padding: "chunk_tail (replicate 4078 0)"
  using chunk_tail_padding [of 4078 "[]"] by simp

lemma three_records_bounds:
  "chunk_bounds barrier_config (image_backend three_records_image) 0 0 d = (0, 8192)"
  "chunk_bounds barrier_config (image_backend three_records_image) 0 1 d = (8192, 12288)"
  "chunk_bounds barrier_config (image_backend three_records_image) 0 2 d = (12288, 12288)"
  by (simp_all add: chunk_bounds_def barrier_config_def barrier_def KiB_def three_records_image_def Let_def)
     (simp_all add: image_backend_def ram_backend_def)

lemma three_records_log: "log_holds barrier_config (image_backend three_records_image) 0 d three_records"
proof -
  let ?be = "image_backend three_records_image"
  have r0: "szd_Read ?be 0 0 8192 d = (Some (concat (map wal_record [(1, replicate 4080 2), (0, replicate 4080 1)]) @ []), d)"
    by (simp add: image_backend_def three_records_image_def)
  have r1: "szd_Read ?be 0 2 4096 d = (Some (concat (map wal_record [(2, [3, 4])]) @ replicate 4078 0), d)"
    by (simp add: image_backend_def three_records_image_def)
  have tail: "szd_GetWriteTail ?be 0 d = 0" by (simp add: image_backend_def ram_backend_def)
  show ?thesis
    unfolding log_holds_def
  proof (intro conjI allI impI)
    fix k assume "k < length three_records"
    then consider (first) "k = 0" | (second) "k = 1" by (auto simp: three_records_def less_Suc_eq)
    then show "case chunk_bounds barrier_config ?be 0 (of_nat k) d of (lo, hi) \<Rightarrow>
          lo < hi \<and> three_records ! k \<noteq> [] \<and> sorted_wrt (<) (map fst (three_records ! k)) \<and>
          (\<forall>e \<in> set (three_records ! k). entry_ok (lo > push_bit (block_shift ?be) (szd_GetWriteTail ?be 0 d)) e) \<and>
          (\<exists>ps t. mset ps = mset (three_records ! k) \<and> chunk_tail t \<and>
             length (concat (map wal_record ps) @ t) = unat (hi - lo) \<and>
             szd_Read ?be 0 (drop_bit (block_shift ?be) lo) (unat (hi - lo)) d
               = (Some (concat (map wal_record ps) @ t), d))"
    proof cases
      case first
      have "\<exists>ps t. mset ps = mset (three_records ! 0) \<and> chunk_tail t \<and>
          length (concat (map wal_record ps) @ t) = 8192 \<and>
          szd_Read ?be 0 0 8192 d = (Some (concat (map wal_record ps) @ t), d)"
        using r0
        by (intro exI [of _ "[(1, replicate 4080 2), (0, replicate 4080 1)]"] exI [of _ "[]"] conjI)
           (simp_all add: three_records_def chunk_tail_def)
      then show ?thesis
        using first tail three_records_bounds(1) [of d] by (simp add: three_records_def entry_ok_def)
    next
      case second
      have "\<exists>ps t. mset ps = mset (three_records ! 1) \<and> chunk_tail t \<and>
          length (concat (map wal_record ps) @ t) = 4096 \<and>
          szd_Read ?be 0 2 4096 d = (Some (concat (map wal_record ps) @ t), d)"
        using r1 three_records_padding
        by (intro exI [of _ "[(2, [3, 4])]"] exI [of _ "replicate 4078 0"] conjI)
           (simp_all add: three_records_def)
      then show ?thesis
        using second tail three_records_bounds(2) [of d] by (simp add: three_records_def entry_ok_def)
    qed
  next
    show "case chunk_bounds barrier_config ?be 0 (of_nat (length three_records)) d of (lo, hi) \<Rightarrow> lo \<ge> hi"
      using three_records_bounds(3) [of d] by (simp add: three_records_def)
  qed
qed

lemma three_records_file_ok:
  "log_file 0 three_records three_records_file" "unread three_records_file"
  "reader_offset_index three_records_file = 0" "reader_offset three_records_file = 0"
  by (simp_all add: log_file_def unread_def three_records_file_def three_records_def newZoneFile_def
      log_data_def ends_with_def str_def)

section \<open>Properties\<close>

text \<open>
  C18. Zone appends may reach the device in any order between two barriers. Whatever the order,
  \<^verbatim>\<open>RecoverWALChunk\<close> returns the records of a chunk in the order they were written, each with its
  data and nothing else, and reports success.
\<close>

theorem wal_chunk_order:
  assumes "sorted_wrt (<) (map fst rs)" and "mset ps = mset rs" and "chunk_tail t"
    and "szd_Read be h (drop_bit (block_shift be) begin) (unat (end - begin)) (world dev)
           = (Some (concat (map wal_record ps) @ t), d)"
    and "length (concat (map wal_record ps) @ t) = unat (end - begin)"
    and "\<forall>e \<in> set rs. entry_ok (begin > push_bit (block_shift be) (szd_GetWriteTail be h d)) e"
  shows "RecoverWALChunk be h begin end dev = Some (OK, rs, dev\<lparr>world := d\<rparr>)"
  using assms by (rule RecoverWALChunk_order)

theorem wal_chunk_order_witness:
  "RecoverWALChunk (image_backend three_records_image) 0 0 8192 two_zone_dev
     = Some (OK, [(0, replicate 4080 1), (1, replicate 4080 2)], two_zone_dev)"
proof -
  let ?rs = "[(0, replicate 4080 1), (1, replicate 4080 2)] :: (u64 \<times> bytes) list"
    and ?ps = "[(1, replicate 4080 2), (0, replicate 4080 1)] :: (u64 \<times> bytes) list"
    and ?be = "image_backend three_records_image"
  have "szd_Read ?be 0 0 8192 d = (Some (concat (map wal_record ?ps) @ []), d)" for d
    by (simp add: image_backend_def three_records_image_def)
  then show ?thesis
    using wal_chunk_order [of ?rs ?ps "[]" ?be 0 0 8192 two_zone_dev "world two_zone_dev"]
    by (simp add: chunk_tail_def entry_ok_def)
qed

text \<open>
  C4. Reading a write-ahead log refines reading the bytes that were appended to it. Starting with the
  first read after the file was opened, reads of any sizes return, one after the other, the data of
  all records in the order of their sequence numbers, across records and across chunks, and end at
  the end of the data.
\<close>

theorem wal_sequential_read:
  assumes "log_holds cfg be h (world dev) chunks" and "log_file h chunks zf" and "concat chunks \<noteq> []"
    and "unread zf" "reader_offset_index zf = 0" "reader_offset zf = 0"
    and "\<forall>n \<in> set ns. unat n < 2 ^ 63"
  shows "\<exists>zf'. sequential_reads cfg be ns (newZonedSequentialFile use_direct_reads zf) zf dev
     = Some (OK, take (sum_list (map unat ns)) (log_data chunks), zf', dev)"
  using sequential_reads_log [OF assms(1) reader_at_start [OF assms(2-6)], of "newZonedSequentialFile use_direct_reads zf" ns]
    assms(2,7)
  by (auto simp: newZonedSequentialFile_def log_file_def)

theorem wal_sequential_read_witness:
  "\<exists>zf'. sequential_reads barrier_config (image_backend three_records_image) [4090, 5000]
       (newZonedSequentialFile True three_records_file) three_records_file two_zone_dev
     = Some (OK, replicate 4080 1 @ replicate 4080 2 @ [3, 4], zf', two_zone_dev)"
proof -
  have "concat three_records \<noteq> []" by (simp add: three_records_def)
  moreover have "take (sum_list (map unat [4090, 5000 :: u64])) (log_data three_records)
      = replicate 4080 1 @ replicate 4080 2 @ [3, 4]"
    by (simp add: log_data_def three_records_def)
  ultimately show ?thesis
    using wal_sequential_read [OF three_records_log three_records_file_ok(1) _ three_records_file_ok(2-4),
      where ns = "[4090, 5000]" and dev = two_zone_dev and use_direct_reads = True]
    by simp
qed

text \<open>
  C28. The position of a log's reader is kept in the shared \<^verbatim>\<open>ZoneFile\<close> and the offset of a read is
  ignored: once a reader has read the log to its end, a new \<^verbatim>\<open>ZonedSequentialFile\<close> for the same log
  reads an empty file, without an error.
\<close>

theorem wal_second_reader_empty:
  assumes "log_holds cfg be h (world dev) chunks" and "reader_at h chunks (length (log_data chunks)) zf"
    and "unat n < 2 ^ 63"
  shows "\<exists>zf'. ZonedSequentialFile_Read cfg be n (newZonedSequentialFile use_direct_reads zf) zf dev
     = Some (OK, [], newZonedSequentialFile use_direct_reads zf, zf', dev)"
  using reread_empty [OF assms] assms(2)
  by (auto simp: ZonedSequentialFile_Read_def PositionedRead_def newZonedSequentialFile_def reader_at_def log_file_def)

theorem wal_second_reader_empty_witness:
  "\<exists>zf1 zf2. sequential_reads barrier_config (image_backend three_records_image) [9000]
       (newZonedSequentialFile True three_records_file) three_records_file two_zone_dev
     = Some (OK, replicate 4080 1 @ replicate 4080 2 @ [3, 4], zf1, two_zone_dev) \<and>
     ZonedSequentialFile_Read barrier_config (image_backend three_records_image) 9000
       (newZonedSequentialFile False zf1) zf1 two_zone_dev
     = Some (OK, [], newZonedSequentialFile False zf1, zf2, two_zone_dev)"
proof -
  have "concat three_records \<noteq> []" by (simp add: three_records_def)
  from reader_at_start [OF three_records_file_ok(1) this three_records_file_ok(2-4)]
  obtain zf1 where r: "sequential_reads barrier_config (image_backend three_records_image) [9000]
       (newZonedSequentialFile True three_records_file) three_records_file two_zone_dev
     = Some (OK, log_data three_records, zf1, two_zone_dev)"
     "reader_at 0 three_records (length (log_data three_records)) zf1"
    using sequential_reads_log [OF three_records_log, where zf = three_records_file and dev = two_zone_dev and p = 0
        and sq = "newZonedSequentialFile True three_records_file" and ns = "[9000]"]
    by (auto simp: newZonedSequentialFile_def three_records_file_def log_data_def three_records_def)
  from wal_second_reader_empty [OF three_records_log r(2), where n = 9000 and use_direct_reads = False] r(1)
  show ?thesis by (auto simp: log_data_def three_records_def)
qed

text \<open>
  C29. Only the last record of a chunk may be padded. A record that is followed by padding, as each
  record of a log that is synced after every write, ends the recovery of its chunk: whatever is on
  the device behind the padding is not returned, and the status is still OK.
\<close>

theorem wal_padding_hides_records:
  assumes "entry_ok (begin > push_bit (block_shift be) (szd_GetWriteTail be h d)) e" and "16 \<le> n"
    and "szd_Read be h (drop_bit (block_shift be) begin) (unat (end - begin)) (world dev)
           = (Some (wal_record e @ replicate n 0 @ behind), d)"
    and "length (wal_record e @ replicate n 0 @ behind) = unat (end - begin)"
  shows "RecoverWALChunk be h begin end dev = Some (OK, [e], dev\<lparr>world := d\<rparr>)"
  using RecoverWALChunk_order [of "[e]" "[e]" "replicate n 0 @ behind" be h "begin" "end" dev d] assms chunk_tail_padding
  by simp

theorem wal_padding_hides_records_witness:
  "RecoverWALChunk (image_backend (wal_record (0, [5]) @ replicate 4079 0 @ wal_record (1, [6]) @ replicate 4079 0))
     0 0 8192 two_zone_dev = Some (OK, [(0, [5])], two_zone_dev)"
proof -
  let ?be = "image_backend (wal_record (0, [5]) @ replicate 4079 0 @ wal_record (1, [6]) @ replicate 4079 0)"
  have "szd_Read ?be 0 0 8192 d =
      (Some (wal_record (0, [5]) @ replicate 4079 0 @ wal_record (1, [6]) @ replicate 4079 0), d)" for d
    by (simp add: image_backend_def)
  then show ?thesis
    using wal_padding_hides_records [of ?be 0 "world two_zone_dev" 0 "(0, [5])" 4079 8192 two_zone_dev
        "wal_record (1, [6]) @ replicate 4079 0"]
    by (simp add: entry_ok_def)
qed

end
