(* ===== verification/Wal_Stream.thy ===== *)
theory Wal_Stream
  imports Wal_Layout Wal_Props
begin

text \<open>
  The write-ahead log as a whole: the bytes a writer appends and syncs are the bytes a reader gets,
  although the device may reorder the records between two barriers.
\<close>

section \<open>A new log\<close>

text \<open>A file that was just opened as a write-ahead log, with \<open>C\<close> bytes of room in its zone.\<close>

definition fresh_log :: "('d \<Rightarrow> bytes list list) \<Rightarrow> zref \<Rightarrow> nat \<Rightarrow> nat \<Rightarrow> ('d, 'm) fenv \<Rightarrow> bool" where
  "fresh_log groups r h C st \<longleftrightarrow>
     wal_open r h C st \<and> concat (groups (world (f_dev st))) = [] \<and>
     (case f_file st of zf \<Rightarrow>
        extents zf = [] \<and> file_size zf = 0 \<and> wal_seq zf = 0 \<and> append_bytes_since_last_barrier zf = 0 \<and>
        unread zf \<and> reader_offset zf = 0 \<and> reader_offset_index zf = 0 \<and>
        ends_with (hd (linkfiles zf)) (str ''.log''))"

lemma new_writer_holds:
  assumes s: "log_sizes cfg B q" and "SPARSE_BUFFER_SIZE_IN_KB cfg * KiB = of_nat B" and "block_sz be = 4096"
    and "is_wal zf" "is_sparse zf"
  shows "holds B [] (newZonedWritableFile cfg be True zf)"
proof -
  have B: "4096 \<le> B" "B < 2 ^ 31" using s by (simp_all add: log_sizes_def)
  have hd: "header_size zf = 16"
    using assms(4) by (simp add: header_size_def SPARSE_HEADER_SIZE_def SPARSE_WAL_HEADER_SIZE_def)
  have "unat (of_nat B + 4096 :: u64) = B + 4096"
    using B u32_u64_of_nat(4) [of "B + 4096"] by simp
  moreover have "of_nat B + 4096 - 16 - 4096 = (of_nat (B - 16) :: u64)" using B by (simp add: of_nat_diff)
  moreover have "replicate (B + 4096) (0 :: byte) = replicate 16 0 @ replicate (B + 4080) 0"
    by (simp add: replicate_add [symmetric])
  ultimately show ?thesis
    using assms(2-5) hd B unfolding holds_def newZonedWritableFile_def Let_def
    by (intro conjI exI [of _ "replicate 16 0"] exI [of _ "replicate (B + 4080) 0"]) simp_all
qed

lemma fresh_log_writing:
  assumes "log_sizes cfg B q" and "SPARSE_BUFFER_SIZE_IN_KB cfg * KiB = of_nat B" and "block_sz be = 4096"
    and "fresh_log groups r h C st"
  shows "writing be cfg groups r h C B q [] [] (newZonedWritableFile cfg be True (f_file st)) st"
proof -
  have "is_wal (f_file st)" "is_sparse (f_file st)" using assms(4) by (simp_all add: fresh_log_def wal_open_def)
  then show ?thesis
    using new_writer_holds [OF assms(1-3)] assms(4)
    by (simp add: writing_def fresh_log_def written_def filled_def bytes_since_def payloads_def)
qed

lemma numbered_snd: "map snd (numbered ds) = ds"
  by (rule nth_equalityI) (simp_all add: numbered_nth)

lemma written_log_file:
  assumes w: "written groups q ds st" and q: "0 < q" and same: "same_reader zf0 (f_file st)"
    and zf0: "wal zf0 = Some h" "ends_with (hd (linkfiles zf0)) (str ''.log'')" "is_sparse zf0"
    and ds: "\<forall>x \<in> set ds. x \<noteq> []" "length ds < 2 ^ 32" "length (concat ds) < 2 ^ 63"
  shows "log_file h (chunks_of q (numbered ds)) (f_file st)"
    and "log_data (chunks_of q (numbered ds)) = concat ds"
proof -
  show d: "log_data (chunks_of q (numbered ds)) = concat ds"
    by (simp add: log_data_def concat_chunks_of [OF q] numbered_snd)
  have "map (\<lambda>e. of_nat (length (snd e)) :: u64) (numbered ds) = map (of_nat \<circ> length) (map snd (numbered ds))" by simp
  then have "map e_length (extents (f_file st)) = map (\<lambda>e. of_nat (length (snd e))) (numbered ds)"
    using w by (simp add: written_def numbered_snd)
  moreover have "\<forall>e \<in> set (numbered ds). snd e \<noteq> []"
  proof
    fix e assume "e \<in> set (numbered ds)"
    then have "snd e \<in> set (map snd (numbered ds))" by simp
    then show "snd e \<noteq> []" using ds(1) unfolding numbered_snd by blast
  qed
  ultimately show "log_file h (chunks_of q (numbered ds)) (f_file st)"
    using w same zf0 ds(2,3) unfolding log_file_def d concat_chunks_of [OF q]
    by (simp add: written_def same_reader_def)
qed

lemma last_record_length:
  assumes "length (concat ds) = length ds * P" and "b \<noteq> []" "length b \<le> P"
  shows "(length (concat ds @ b) - 1) mod P + 1 = length b"
proof -
  have "length (concat ds @ b) - 1 = length ds * P + (length b - 1)" using assms by (cases b) simp_all
  moreover have "length b - 1 < P" using assms(2,3) by (cases b) simp_all
  ultimately show ?thesis using assms(2) by (cases b) simp_all
qed

text \<open>What a writer that syncs leaves for a reader.\<close>

lemma synced_log:
  assumes law: "log_law be h groups img tail" and s: "log_sizes cfg B q"
    and w: "writing be cfg groups r h C B q ds b w st" and b: "b \<noteq> []" "pad_ok (length b)"
    and C: "zone_fits C B (length (concat ds @ b))" "unat tail * 4096 + C < 2 ^ 44"
    and zf: "unread (f_file st)" "reader_offset (f_file st) = 0" "reader_offset_index (f_file st) = 0"
      "ends_with (hd (linkfiles (f_file st))) (str ''.log'')"
  shows "\<exists>w' st'. DataSync cfg be persist w st = Some (OK, w', st') \<and>
     log_holds cfg be h (world (f_dev st')) (chunks_of q (numbered (ds @ [b]))) \<and>
     reader_at h (chunks_of q (numbered (ds @ [b]))) 0 (f_file st') \<and> is_sparse (f_file st') \<and>
     log_data (chunks_of q (numbered (ds @ [b]))) = concat ds @ b"
proof -
  obtain w' st' where d: "DataSync cfg be persist w st = Some (OK, w', st')" "same_reader (f_file st) (f_file st')"
      "written groups q (ds @ [b]) st'" "boundary groups (length ds) (ds @ [b]) (world (f_dev st'))"
    using DataSync_log [OF law s w b(1) C(1), of persist] by blast
  have o: "wal (f_file st) = Some h" "is_sparse (f_file st)" and f: "filled B q ds st"
    and hb: "length b + 16 \<le> B"
    using w by (simp_all add: writing_def wal_open_def holds_def)
  have si: "0 < q" "4096 \<le> B" using s by (simp_all add: log_sizes_def)
  have full: "\<forall>x \<in> set ds. length x + 16 = B" using f by (simp add: filled_def)
  have rec: "B * (length ds + 1) < C"
    using zone_fits_record [OF C(1), of ds] filled_length [OF f] si(2) by simp
  have "unat tail * 4096 + (length ds + 1) * B < 2 ^ 62"
    using rec C(2) by (simp only: mult.commute [of B]) simp
  then have "laid_out be h groups img tail cfg B q ds b st'"
    using law s full b hb d(3,4) by (simp add: laid_out_def)
  note holds = laid_out_log_holds [OF this]
  have "4096 * (length ds + 1) \<le> B * (length ds + 1)" using si(2) by (rule mult_le_mono1)
  then have n: "length (ds @ [b]) < 2 ^ 32" using rec C(2) by simp
  have "length (concat (ds @ [b])) \<le> length (ds @ [b]) * B"
  proof -
    have "length (concat ds) \<le> length ds * B" using filled_length [OF f] by simp
    then show ?thesis using hb by simp
  qed
  then have len: "length (concat (ds @ [b])) < 2 ^ 63"
    using rec C(2) by (simp add: mult.commute)
  have ne: "\<forall>x \<in> set (ds @ [b]). x \<noteq> []" using full si(2) b(1) by fastforce
  note lf = written_log_file [OF d(3) si(1) d(2) o(1) zf(4) o(2) ne n len]
  have "concat (chunks_of q (numbered (ds @ [b]))) \<noteq> []" unfolding concat_chunks_of [OF si(1)] by simp
  moreover have "unread (f_file st')" "reader_offset_index (f_file st') = 0" "reader_offset (f_file st') = 0"
    "is_sparse (f_file st')"
    using zf(1-3) d(2) o(2) by (simp_all add: same_reader_def unread_def)
  ultimately show ?thesis
    using d(1) holds lf reader_at_start [OF lf(1)] by (intro exI [of _ w'] exI [of _ st']) simp
qed

section \<open>A record cut by a barrier\<close>

lemma write_size_cut:
  assumes "is_wal zf" and "m < 2 ^ 32" and "m \<le> unat capacity"
    and room: "unat (barrier cfg - append_bytes_since_last_barrier zf) = n" "n < m"
  shows "write_size cfg zf capacity (of_nat m) = of_nat n"
proof -
  let ?room = "barrier cfg - append_bytes_since_last_barrier zf"
  have "\<not> (of_nat m :: u64) > capacity" "(of_nat m :: u64) > ?room"
    using assms by (simp_all add: word_less_nat_alt u32_u64_of_nat)
  moreover have "?room = of_nat n" by (simp add: room(1) [symmetric])
  then have "ucast ?room = (of_nat n :: u32)" using u32_u64_of_nat(2) [of n] assms(2) room(2) by simp
  ultimately show ?thesis using assms(1,2) by (simp add: write_size_def Let_def u32_u64_of_nat)
qed

lemma SparseAppend_cut:
  assumes law: "log_law be h groups img tail" and op: "wal_open r h cap st"
    and hdr: "length hdr = 16" and slack: "4096 \<le> length slack"
    and k: "0 < k" "k < length data" "(k + 16) mod 4096 = 0" "length data < 2 ^ 31"
    and bar: "append_bytes_since_last_barrier (f_file st) < barrier cfg"
      "unat (barrier cfg - append_bytes_since_last_barrier (f_file st)) = k + 16"
      "length data - k + 16 \<le> unat (barrier cfg)"
    and cap: "length data + 8192 \<le> cap"
  shows "\<exists>buf' st'. SparseAppend cfg be persist (hdr @ data @ slack) (of_nat (length data)) st = Some (OK, buf', st') \<and>
     concat (groups (world (f_dev st'))) = concat (groups (world (f_dev st))) @
       [payload (wal_seq (f_file st)) (take k data), payload (wal_seq (f_file st) + 1) (take (length data - k) data)] \<and>
     file_size (f_file st') = file_size (f_file st) + of_nat (length data)"
proof -
  let ?n = "length data" and ?s = "wal_seq (f_file st)"
  let ?x = "take k data" and ?y = "take (length data - k) data"
  have lx: "length ?x = k" and ly: "length ?y = ?n - k" using k by simp_all
  have px: "padding (k + 16) = 0" using k(3) by (simp add: padding_def)
  have split1: "hdr @ data @ slack = hdr @ ?x @ (drop k data @ slack)" by simp
  have wo: "is_wal (f_file st)" "active_zone (f_file st) = Some r" using op by (simp_all add: wal_open_def)
  have w1: "write_size cfg (f_file st) (z_capacity (zone_at (f_dev st) r)) (of_nat (?n + 16)) = of_nat (length ?x + 16)"
    unfolding lx using k op bar(2) cap by (intro write_size_cut [OF wo(1)]) (simp_all add: wal_open_def)
  obtain r1 d1 where a1: "be_Append be (payload ?s ?x) h (world (f_dev st)) = (r1, d1)" by force
  have a1': "0 \<le> r1" and g1: "concat (groups d1) = concat (groups (world (f_dev st))) @ [payload ?s ?x]"
    using log_lawD(4) [OF law payload_aligned [of ?s ?x], where d = "world (f_dev st)"]
      log_law_append(1) [OF law payload_aligned [of ?s ?x], where d = "world (f_dev st)"] a1 by simp_all
  have c1: "length (payload ?s ?x) < cap" unfolding length_payload lx px using k(2) cap by simp
  obtain wp1 st1 where s1: "SparseAppend_step cfg be persist (hdr @ data @ slack) (of_nat ?n) st
        = Some (OK, payload ?s ?x @ drop k data @ slack, of_nat (?n - k), st1)"
      "f_file st1 = add_record r ?x wp1 (f_file st)" "world (f_dev st1) = d1" "wal_open r h (cap - (k + 16)) st1"
    using SparseAppend_step_part [OF op hdr _ _ k(4) bar(1) w1 c1 a1 a1', of "drop k data @ slack" persist] k(2)
    unfolding split1 [symmetric] by (auto simp: lx px length_payload)
  have "append_bytes_since_last_barrier (f_file st1) = append_bytes_since_last_barrier (f_file st) + of_nat (k + 16)"
    using s1(2) k(2) by (simp add: add_record_def length_payload px)
  moreover have "of_nat (k + 16) = barrier cfg - append_bytes_since_last_barrier (f_file st)" by (simp add: bar(2) [symmetric])
  ultimately have full: "append_bytes_since_last_barrier (f_file st1) \<ge> barrier cfg" by simp
  have "barrier cfg \<noteq> 0" using bar(1) by auto
  from SparseAppend_step_sync [OF law s1(4) full this, of persist "payload ?s ?x @ drop k data @ slack" "of_nat (?n - k)"]
  obtain st2 where s2: "SparseAppend_step cfg be persist (payload ?s ?x @ drop k data @ slack) (of_nat (?n - k)) st1
        = SparseAppend_step cfg be persist (payload ?s ?x @ drop k data @ slack) (of_nat (?n - k)) st2"
      "wal_open r h (cap - (k + 16)) st2" "f_file st2 = (f_file st1)\<lparr>append_bytes_since_last_barrier := 0\<rparr>"
      "groups (world (f_dev st2)) = groups (world (f_dev st1)) @ [[]]"
    by (elim exE conjE) (rule that)
  define H where "H = EncodeFixed64 (of_nat k) @ EncodeFixed64 ?s"
  have H: "length H = 16" by (simp add: H_def)
  have buf: "payload ?s ?x @ drop k data @ slack = H @ ?y @ (drop (?n - k) data @ slack)"
    using k(2) by (simp add: H_def payload_def wal_record_def px)
  have seq: "wal_seq (f_file st2) = ?s + 1" using s2(3) s1(2) by (simp add: add_record_def)
  have b2: "append_bytes_since_last_barrier (f_file st2) < barrier cfg"
      "length ?y + 16 \<le> unat (barrier cfg - append_bytes_since_last_barrier (f_file st2))"
    using s2(3) \<open>barrier cfg \<noteq> 0\<close> bar(3) ly by (simp_all add: word_neq_0_conv)
  obtain r2 d2 where a2: "be_Append be (payload (?s + 1) ?y) h (world (f_dev st2)) = (r2, d2)" by force
  have a2': "0 \<le> r2" and g2: "concat (groups d2) = concat (groups (world (f_dev st2))) @ [payload (?s + 1) ?y]"
    using log_lawD(4) [OF law payload_aligned [of "?s + 1" ?y], where d = "world (f_dev st2)"]
      log_law_append(1) [OF law payload_aligned [of "?s + 1" ?y], where d = "world (f_dev st2)"] a2 by simp_all
  have c2: "length (payload (?s + 1) ?y) < cap - (k + 16)"
    unfolding length_payload ly using padding_less [of "?n - k + 16"] k(2) cap by simp
  have y: "?y \<noteq> []" "length ?y < 2 ^ 31" and sl: "4096 \<le> length (drop (?n - k) data @ slack)"
    using k ly slack by auto
  from SparseAppend_step_record [OF s2(2) H sl y b2, unfolded seq, OF c2 a2 a2', of persist]
  obtain slack' wp2 st3 where s3: "SparseAppend_step cfg be persist (H @ ?y @ (drop (?n - k) data @ slack)) (of_nat (length ?y)) st2
        = Some (OK, payload (?s + 1) ?y @ slack', 0, st3)"
      "f_file st3 = add_record r ?y wp2 (f_file st2)" "world (f_dev st3) = d2"
    by (elim exE conjE) (rule that)
  have z: "of_nat m \<noteq> (0 :: u32)" if "0 < m" "m < 2 ^ 32" for m
    using that u32_u64_of_nat(3) [of m] by auto
  have nz: "of_nat ?n \<noteq> (0 :: u32)" "of_nat (?n - k) \<noteq> (0 :: u32)" by (rule z; use k in auto)+
  have "SparseAppend_loop cfg be persist (payload ?s ?x @ drop k data @ slack) (of_nat (?n - k)) st1
      = Some (OK, payload (?s + 1) ?y @ slack', st3)"
    using s2(1) s3(1) nz(2) ly unfolding buf by (simp add: SparseAppend_loop.simps)
  then have "SparseAppend_loop cfg be persist (hdr @ data @ slack) (of_nat ?n) st = Some (OK, payload (?s + 1) ?y @ slack', st3)"
    using s1(1) nz(1) by (simp add: SparseAppend_loop.simps [of cfg be persist "hdr @ data @ slack"])
  then have "SparseAppend cfg be persist (hdr @ data @ slack) (of_nat ?n) st = Some (OK, payload (?s + 1) ?y @ slack', st3)"
    using wo(2) by (simp add: SparseAppend_def with_zone_def)
  moreover have "concat (groups (world (f_dev st3))) = concat (groups (world (f_dev st))) @ [payload ?s ?x, payload (?s + 1) ?y]"
    using g1 g2 s1(3) s2(4) s3(3) by simp
  moreover have "file_size (f_file st3) = file_size (f_file st) + of_nat ?n"
    using s1(2) s2(3) s3(2) k(2) by (simp add: add_record_def of_nat_diff)
  ultimately show ?thesis by (intro exI [of _ "payload (?s + 1) ?y @ slack'"] exI [of _ st3]) simp
qed

section \<open>Properties\<close>


text \<open>
  C30. When the rest of a chunk is smaller than the buffer, \<^verbatim>\<open>SparseAppend\<close> cuts the record at the
  barrier. The rest of the data is not moved to the front of the buffer, so the second record does
  not hold it: it repeats the first bytes of the data. The status is OK and the file grows by the
  length of the data, but the data's end is not on the device.
\<close>

theorem wal_cut_repeats_data:
  assumes "log_law be h groups img tail" and "wal_open r h cap st"
    and "length hdr = 16" and "4096 \<le> length slack"
    and "0 < k" "k < length data" "(k + 16) mod 4096 = 0" "length data < 2 ^ 31"
    and "append_bytes_since_last_barrier (f_file st) < barrier cfg"
      "unat (barrier cfg - append_bytes_since_last_barrier (f_file st)) = k + 16"
      "length data - k + 16 \<le> unat (barrier cfg)"
    and "length data + 8192 \<le> cap"
  shows "\<exists>buf' st'. SparseAppend cfg be persist (hdr @ data @ slack) (of_nat (length data)) st = Some (OK, buf', st') \<and>
     concat (groups (world (f_dev st'))) = concat (groups (world (f_dev st))) @
       [payload (wal_seq (f_file st)) (take k data), payload (wal_seq (f_file st) + 1) (take (length data - k) data)] \<and>
     file_size (f_file st') = file_size (f_file st) + of_nat (length data)"
  by (rule SparseAppend_cut [OF assms])

section \<open>A reordering once-log\<close>

text \<open>A once-log in memory that puts the pieces of a group on the device in reverse order.\<close>

definition log_groups :: "bytes list list \<Rightarrow> bytes list list" where
  "log_groups d = (if d = [] then [[]] else d)"

definition log_image :: "bytes list list \<Rightarrow> bytes" where
  "log_image d = concat (concat (map rev (log_groups d)))"

definition once_backend :: "bytes list list backend" where
  "once_backend =
     \<lparr> block_sz = 4096, zone_sz = 65536, nr_zones = 32,
       be_Reset = (\<lambda>start d. ((OK, False, 65536), d)), be_Finish = (\<lambda>start d. (OK, d)), be_Close = (\<lambda>start d. (OK, d)),
       be_Read = (\<lambda>n pos direct d. (RData [], d)), be_Write = (\<lambda>data pos d. (-1, d)),
       be_Append = (\<lambda>data wal d. (int (length data), butlast (log_groups d) @ [last (log_groups d) @ [data]])),
       be_AppendSync = (\<lambda>wal d. (0, log_groups d @ [[]])),
       be_InvalidateCache = (\<lambda>pos size d. (0, d)), szd_New = (\<lambda>a b c d. (0, d)), szd_Delete = (\<lambda>wal d. d),
       szd_RecoverPointers = (\<lambda>wal d. (True, d)), szd_Sync = (\<lambda>wal d. (True, d)), szd_ResetAll = (\<lambda>wal d. (True, d)),
       szd_Read = (\<lambda>wal lba n d. (Some (take n (drop (unat lba * 4096) (log_image d))), d)),
       szd_GetWriteHead = (\<lambda>wal d. of_nat (length (log_image d) div 4096)), szd_GetWriteTail = (\<lambda>wal d. 0) \<rparr>"

lemma once_backend_law: "log_law once_backend 0 log_groups log_image 0"
proof -
  have "list_all2 (\<lambda>p g. mset p = mset g) (map rev gs) gs" for gs :: "bytes list list"
    by (induction gs) simp_all
  then have "\<exists>pgs. log_image d = concat (concat pgs) \<and> list_all2 (\<lambda>p g. mset p = mset g) pgs (log_groups d)" for d
    unfolding log_image_def by blast
  moreover have "take n (drop (unat (of_nat i :: u64) * 4096) x) = take n (drop (i * 4096) x)"
    if "i * 4096 + n < 2 ^ 63" for i n and x :: bytes
    using that unat_of_nat_small [of i, where 'a = 64] by simp
  ultimately show ?thesis
    by (simp add: log_law_def once_backend_def log_groups_def block_shift_def shift_block_size_def)
qed

definition wal_config :: config where
  "wal_config = \<lparr> SPARSE_BUFFER_SIZE_IN_KB = 4, WAL_BARRIER_SIZE_IN_KB = 8 \<rparr>"

definition new_log :: "(bytes list list, unit) fenv" where
  "new_log =
     \<lparr> f_file = (newZoneFile 7)\<lparr>linkfiles := [str ''1.log''], is_wal := True, is_sparse := True, wal := Some 0,
         active_zone := Some (WalZ 0)\<rparr>,
       f_dev = \<lparr> io_zones = [], wal_zones = [\<lparr> z_busy = True, z_start = 0, z_capacity = 16384, z_max_capacity = 16384,
           z_wp = 0, z_lifetime = WLTH_SHORT, z_used_capacity = 0 \<rparr>], meta_zones = [], finish_threshold = 0,
         bytes_written = 0, gc_bytes_written = 0, active_io_zones = 1, open_io_zones = 1, zone_deferred_status = OK,
         migrating = False, max_nr_active_io_zones = 12, max_nr_open_io_zones = 12, write_channel_ptr = 0, world = [] \<rparr>,
       f_meta = () \<rparr>"


theorem wal_cut_repeats_data_witness:
  "\<exists>buf' st'. SparseAppend wal_config once_backend (\<lambda>_. None)
       (replicate 16 0 @ (replicate 4080 1 @ [2]) @ replicate 4096 0) 4081
       (upd_file (\<lambda>zf. zf\<lparr>append_bytes_since_last_barrier := 4096\<rparr>) new_log) = Some (OK, buf', st') \<and>
     concat (log_groups (world (f_dev st'))) = [payload 0 (replicate 4080 1), payload 1 [1]]"
proof -
  let ?st = "upd_file (\<lambda>zf. zf\<lparr>append_bytes_since_last_barrier := 4096\<rparr>) new_log"
  have 1: "wal_open (WalZ 0) 0 16384 ?st" "wal_seq (f_file ?st) = 0" "concat (log_groups (world (f_dev ?st))) = []"
    by (simp_all add: wal_open_def upd_file_def new_log_def newZoneFile_def log_groups_def)
  have 2: "append_bytes_since_last_barrier (f_file ?st) = 4096" "barrier wal_config = 8192"
    by (simp_all add: upd_file_def wal_config_def barrier_def KiB_def)
  show ?thesis
    using wal_cut_repeats_data [OF once_backend_law 1(1), of "replicate 16 0" "replicate 4096 0" 4080
        "replicate 4080 1 @ [2]" wal_config "\<lambda>_. None"] 1(2,3) 2
    by auto
qed

text \<open>
  C36. \<^verbatim>\<open>ResetWALZones\<close> never returns for a log that is not open. It acquires the zone of the first extent
  and then calls \<^verbatim>\<open>OpenWALZone\<close>, which spins until it can acquire the very same zone. Deleting such a log
  hangs in this loop.
\<close>

theorem reset_closed_log_hangs:
  assumes "wal zf = None" and "extents zf = e # es" and "e_zone e = WalZ i"
    and "i < length (wal_zones dev)" and "unat (wal_index (GetZoneNr be (wal_zones dev ! i))) = i"
  shows "ResetWALZones be zf dev = None"
proof (cases "z_busy (wal_zones dev ! i)")
  case True
  then show ?thesis using assms by (simp add: ResetWALZones_def)
next
  case False
  let ?z = "(wal_zones dev ! i)\<lparr>z_busy := True\<rparr>" and ?dev = "put_zone (WalZ i) ((wal_zones dev ! i)\<lparr>z_busy := True\<rparr>) dev"
  have "OpenWALZone be None (WalZ i) ?dev = None"
  proof (cases "take_wal_tokens ?dev")
    case (Some dev1)
    have "wal_zones dev1 = wal_zones ?dev"
      using Some by (auto simp: take_wal_tokens_def WaitForOpenIOZoneToken_def GetActiveIOZoneTokenIfAvailable_def Let_def
          split: if_splits)
    then show ?thesis using Some assms(4,5) by (simp add: OpenWALZone_def)
  qed (simp add: OpenWALZone_def)
  then show ?thesis using False assms by (simp add: ResetWALZones_def)
qed

theorem reset_closed_log_hangs_witness:
  "ResetWALZones (ram_backend 8192) ((newZoneFile 7)\<lparr>extents := [\<lparr> e_start = 32784, e_length = 9, e_zone = WalZ 0 \<rparr>]\<rparr>)
     (two_zone_dev\<lparr>wal_zones := [\<lparr> z_busy = False, z_start = 32768, z_capacity = 4096, z_max_capacity = 8192, z_wp = 36864,
        z_lifetime = WLTH_SHORT, z_used_capacity = 9 \<rparr>]\<rparr>) = None"
  by (rule reset_closed_log_hangs [where e = "\<lparr> e_start = 32784, e_length = 9, e_zone = WalZ 0 \<rparr>" and es = "[]" and i = 0])
    (simp_all add: newZoneFile_def GetZoneNr_def ram_backend_def wal_index_def zone_consts)

end
