(* ===== verification/Meta_Log_Props.thy ===== *)
theory Meta_Log_Props
  imports Meta_Log Zone_Refs
begin

text \<open>
  What is written to a metadata log is read back: records that were added to an empty metadata zone
  are returned by a new reader in their order, and then the end of the log. The superblock is
  decoded to what was encoded.
\<close>

section \<open>Blocks\<close>

definition whole_blocks :: "nat \<Rightarrow> nat \<Rightarrow> nat" where
  "whole_blocks b n = (if n mod b = 0 then n else n + (b - n mod b))"

lemma whole_blocks_dvd: "0 < b \<Longrightarrow> b dvd whole_blocks b n"
proof -
  assume b: "0 < b"
  have "n + (b - n mod b) = b * (n div b) + b"
    using mod_less_divisor [OF b, of n] mult_div_mod_eq [of b n] by linarith
  then show ?thesis by (simp add: whole_blocks_def mod_eq_0_iff_dvd)
qed

lemma whole_blocks_add: "b dvd p \<Longrightarrow> whole_blocks b (p + n) = p + whole_blocks b n"
proof -
  assume "b dvd p"
  then have "(p + n) mod b = n mod b" by (elim dvdE) simp
  then show ?thesis by (simp add: whole_blocks_def)
qed

lemma whole_blocks_ge: "n \<le> whole_blocks b n"
  by (simp add: whole_blocks_def)

lemma whole_blocks_less: "0 < b \<Longrightarrow> whole_blocks b n < n + b"
  by (auto simp: whole_blocks_def)

lemma align_size_nat:
  assumes "0 < bs" and "whole_blocks (unat bs) (unat n) < 2 ^ 64"
  shows "unat (align_size bs n) = whole_blocks (unat bs) (unat n)"
proof (cases "n mod bs = 0")
  case True
  then have "unat (n mod bs) = 0" by simp
  then have "unat n mod unat bs = 0" by (simp add: unat_mod_distrib)
  then show ?thesis using True by (simp add: align_size_def whole_blocks_def)
next
  case False
  have m: "unat (n mod bs) = unat n mod unat bs" by (simp add: unat_mod_distrib)
  have b: "0 < unat bs" using assms(1) by (simp add: word_less_nat_alt)
  have nz: "unat n mod unat bs \<noteq> 0" using False m by (metis unat_eq_0)
  have "n mod bs \<le> bs" using mod_less_divisor [OF b, of "unat n"] m by (simp add: word_le_nat_alt)
  then have d: "unat (bs - n mod bs) = unat bs - unat n mod unat bs" by (simp add: unat_diff_le m)
  then have "unat (n + (bs - n mod bs)) = unat n + (unat bs - unat n mod unat bs)"
    using assms(2) nz by (subst unat_add_no_wrap) (simp_all add: whole_blocks_def)
  then show ?thesis using False nz by (simp add: align_size_def whole_blocks_def)
qed

section \<open>Records\<close>

definition record_body :: "bytes \<Rightarrow> bytes" where
  "record_body data =
     EncodeFixed32 (Mask (record_crc data)) @ EncodeFixed32 (of_nat (length data)) @ data"

lemma length_record_body [simp]: "length (record_body data) = length data + 8"
  by (simp add: record_body_def)

lemma meta_record_body:
  assumes "0 < block_sz be" and "length data < 2 ^ 32"
  shows "meta_record be data = record_body data @
     replicate (whole_blocks (unat (block_sz be)) (length data + 8) - length (record_body data)) 0"
proof -
  have l: "unat (of_nat (length data) :: u32) = length data"
    using assms(2) by (intro unat_of_nat_small) simp
  have p: "0 < (ucast (block_sz be) :: u64)" using assms(1) by (simp add: word_less_nat_alt unat_ucast_up)
  have s: "unat (ucast (of_nat (length data) :: u32) + zMetaHeaderSize) = length data + 8"
    using assms(2) l by (subst unat_add_no_wrap) (simp_all add: zMetaHeaderSize_def unat_ucast_up)
  have b: "unat (block_sz be) < 2 ^ 32" using unat_lt2p [of "block_sz be"] by simp
  have "unat (align_size (ucast (block_sz be)) (ucast (of_nat (length data) :: u32) + zMetaHeaderSize))
      = whole_blocks (unat (block_sz be)) (length data + 8)"
    using align_size_nat [OF p] s assms b whole_blocks_less [of "unat (block_sz be)" "length data + 8"]
    by (simp add: unat_ucast_up word_less_nat_alt)
  then show ?thesis by (simp add: meta_record_def record_body_def Let_def)
qed

lemma length_meta_record:
  "0 < block_sz be \<Longrightarrow> length data < 2 ^ 32 \<Longrightarrow>
   length (meta_record be data) = whole_blocks (unat (block_sz be)) (length data + 8)"
  using whole_blocks_ge [of "length data + 8" "unat (block_sz be)"] by (simp add: meta_record_body)

definition records :: "'d backend \<Rightarrow> bytes list \<Rightarrow> bytes" where
  "records be ds = concat (map (meta_record be) ds)"

lemma records_append [simp]: "records be (xs @ ys) = records be xs @ records be ys"
  by (simp add: records_def)

lemma records_Cons [simp]: "records be (x # xs) = meta_record be x @ records be xs"
  by (simp add: records_def)

lemma records_Nil [simp]: "records be [] = []"
  by (simp add: records_def)

lemma records_dvd:
  "0 < block_sz be \<Longrightarrow> \<forall>d \<in> set ds. length d < 2 ^ 32 \<Longrightarrow> unat (block_sz be) dvd length (records be ds)"
proof (induction ds)
  case (Cons d ds)
  have "0 < unat (block_sz be)" using Cons.prems(1) by (simp add: word_less_nat_alt)
  then show ?case using Cons by (simp add: length_meta_record whole_blocks_dvd)
qed simp

section \<open>A zone that holds a log\<close>

definition log_zone :: "'d backend \<Rightarrow> ('d \<Rightarrow> u64 \<Rightarrow> byte) \<Rightarrow> zref \<Rightarrow> bytes list \<Rightarrow> 'd zbd \<Rightarrow> bool" where
  "log_zone be content r ds dev \<longleftrightarrow>
     (let z = zone_at dev r in
      zone_valid dev r \<and> zone_wf be z \<and>
      unat (block_sz be) dvd unat (z_start z) \<and>
      unat (z_capacity z) + length (records be ds) = unat (z_max_capacity z) \<and>
      unat (z_wp z) = unat (z_start z) + length (records be ds) \<and>
      bytes_at (content (world dev)) (z_start z) (length (records be ds)) = records be ds \<and>
      0 < block_sz be \<and> (\<forall>d \<in> set ds. length d < 2 ^ 32))"

lemma log_zone_empty:
  "zone_valid dev r \<Longrightarrow> zone_wf be (zone_at dev r) \<Longrightarrow> unat (block_sz be) dvd unat (z_start (zone_at dev r)) \<Longrightarrow>
   z_wp (zone_at dev r) = z_start (zone_at dev r) \<Longrightarrow> z_capacity (zone_at dev r) = z_max_capacity (zone_at dev r) \<Longrightarrow>
   0 < block_sz be \<Longrightarrow> log_zone be content r [] dev"
  by (simp add: log_zone_def)

lemma AddRecord_spec:
  assumes law: "write_law be content" "write_progress be"
    and log: "log_zone be content (ml_zone ml) ds dev" and len: "length data < 2 ^ 32"
    and fits: "length (meta_record be data) \<le> unat (z_capacity (zone_at dev (ml_zone ml)))"
  shows "\<exists>s dev'. AddRecord be data ml dev = Some (s, dev') \<and>
     (\<forall>r. r \<noteq> ml_zone ml \<longrightarrow> zone_at dev' r = zone_at dev r) \<and>
     (s = OK \<and> log_zone be content (ml_zone ml) (ds @ [data]) dev' \<and>
      unat (z_capacity (zone_at dev' (ml_zone ml))) + length (meta_record be data) = unat (z_capacity (zone_at dev (ml_zone ml))) \<and>
      z_start (zone_at dev' (ml_zone ml)) = z_start (zone_at dev (ml_zone ml))
      \<or> s = IOError)"
proof -
  let ?r = "ml_zone ml" and ?m = "meta_record be data"
  let ?z = "zone_at dev ?r"
  have wf: "zone_wf be ?z" and v: "zone_valid dev ?r" using log by (simp_all add: log_zone_def Let_def)
  obtain s dev' n where a: "append_to be ?r ?m dev = Some (s, dev')"
      "zone_at dev' ?r = advance (int n) ?z" "\<forall>r'. r' \<noteq> ?r \<longrightarrow> zone_at dev' r' = zone_at dev r'"
      "\<forall>r'. zone_valid dev' r' = zone_valid dev r'"
      "s = OK \<and> n = length ?m \<and> content (world dev') = blit (content (world dev)) (z_wp ?z) ?m \<or> s = IOError"
    using append_to_spec [OF law wf v fits] by (elim exE conjE) (rule that)
  show ?thesis
  proof (cases "s = IOError")
    case True
    then show ?thesis using a(1,3) by (simp add: AddRecord_def)
  next
    case False
    then have n: "n = length ?m" and c: "content (world dev') = blit (content (world dev)) (z_wp ?z) ?m" and s: "s = OK"
      using a(5) by simp_all
    note adv = zone_wf_advance [OF wf fits]
    let ?L = "length (records be ds)"
    have wp: "unat (z_wp ?z) = unat (z_start ?z) + ?L" "z_wp ?z = z_start ?z + of_nat ?L"
    proof -
      show e: "unat (z_wp ?z) = unat (z_start ?z) + ?L" using log by (simp add: log_zone_def Let_def)
      have "of_nat (unat (z_wp ?z)) = (of_nat (unat (z_start ?z) + ?L) :: u64)" using e by (rule arg_cong)
      then show "z_wp ?z = z_start ?z + of_nat ?L" by simp
    qed
    have "unat (z_wp ?z) + length ?m < 2 ^ 64"
      using adv(2) unat_lt2p [of "z_wp ?z + of_nat (length ?m)"] by simp
    then have "bytes_at (content (world dev')) (z_start ?z) (?L + length ?m) = records be ds @ ?m"
      using log wp c by (simp add: bytes_at_add bytes_at_blit bytes_at_blit_before log_zone_def Let_def)
    then have "log_zone be content ?r (ds @ [data]) dev'"
      using log wp a(2,4) adv n len fits
      by (auto simp: log_zone_def Let_def advance_nat)
    then show ?thesis
      using a(1-3) s n adv(3) fits by (intro exI [of _ s] exI [of _ dev']) (simp add: AddRecord_def advance_nat)
  qed
qed

section \<open>Reading\<close>

lemma MetaRead_loop_law:
  "read_law be content \<Longrightarrow>
   MetaRead_loop be n buf pos d = Some (OK, buf @ bytes_at (content d) pos n, pos + of_nat n, d)"
  by (cases "n = 0") (simp_all add: MetaRead_loop.simps zbd_Read_law)

lemma zbd_world_same [simp]: "(dev :: 'd zbd)\<lparr>world := world dev\<rparr> = dev"
  by (cases dev) simp

lemma MetaRead_law:
  assumes "read_law be content" and "ml_read_pos ml < z_wp (zone_at dev (ml_zone ml))"
    and "ml_read_pos ml + of_nat n \<le> z_start (zone_at dev (ml_zone ml)) + z_max_capacity (zone_at dev (ml_zone ml))"
  shows "MetaRead be n ml dev =
     Some (OK, bytes_at (content (world dev)) (ml_read_pos ml) n, ml\<lparr>ml_read_pos := ml_read_pos ml + of_nat n\<rparr>, dev)"
  using assms(2) leD [OF assms(3)]
  by (simp add: MetaRead_def MetaRead_loop_law [OF assms(1)] Let_def linorder_not_le [symmetric])

text \<open>A part of the log, and its bytes on the device.\<close>

lemma log_zone_part:
  assumes "log_zone be content r ds dev" and "records be ds = xs @ ys @ zs"
  shows "bytes_at (content (world dev)) (z_start (zone_at dev r) + of_nat (length xs)) (length ys) = ys"
proof -
  let ?c = "content (world dev)" and ?p = "z_start (zone_at dev r)"
  have "bytes_at ?c ?p (length xs + (length ys + length zs)) = xs @ ys @ zs"
    using assms by (simp add: log_zone_def Let_def)
  then show ?thesis by (simp add: bytes_at_add append_eq_append_conv)
qed

text \<open>The reader after the records \<open>ds\<close>.\<close>

definition reader_after :: "'d backend \<Rightarrow> zref \<Rightarrow> bytes list \<Rightarrow> 'd zbd \<Rightarrow> ZenMetaLog" where
  "reader_after be r ds dev =
     \<lparr> ml_read_pos = z_start (zone_at dev r) + of_nat (length (records be ds)), ml_zone = r \<rparr>"

lemma log_zone_pos:
  assumes "log_zone be content r ds dev" and "n \<le> length (records be ds)"
  shows "unat (z_start (zone_at dev r) + of_nat n) = unat (z_start (zone_at dev r)) + n"
    and "unat (z_start (zone_at dev r) + z_max_capacity (zone_at dev r))
         = unat (z_start (zone_at dev r)) + unat (z_max_capacity (zone_at dev r))"
    and "length (records be ds) \<le> unat (z_max_capacity (zone_at dev r))"
    and "unat (z_start (zone_at dev r)) + unat (z_max_capacity (zone_at dev r)) < 2 ^ 64"
proof -
  let ?z = "zone_at dev r"
  have w: "unat (z_start ?z) + unat (zone_sz be) < 2 ^ 64" "unat (z_max_capacity ?z) \<le> unat (zone_sz be)"
    and l: "length (records be ds) \<le> unat (z_max_capacity ?z)"
    using assms(1) by (simp_all add: log_zone_def Let_def zone_wf_def)
  then show m: "unat (z_start ?z) + unat (z_max_capacity ?z) < 2 ^ 64"
    "length (records be ds) \<le> unat (z_max_capacity ?z)" by linarith+
  then have "unat (of_nat n :: u64) = n" using assms(2) by (intro unat_of_nat_small) simp
  then show "unat (z_start ?z + of_nat n) = unat (z_start ?z) + n"
    using m assms(2) by (subst unat_add_no_wrap) simp_all
  show "unat (z_start ?z + z_max_capacity ?z) = unat (z_start ?z) + unat (z_max_capacity ?z)"
    using m by (intro unat_add_no_wrap) simp
qed

lemma MetaRead_log:
  assumes law: "read_law be content" and log: "log_zone be content r ds dev"
    and part: "records be ds = xs @ ys @ zs" "0 < length ys \<or> 0 < length zs"
  shows "MetaRead be (length ys) \<lparr> ml_read_pos = z_start (zone_at dev r) + of_nat (length xs), ml_zone = r \<rparr> dev =
     Some (OK, ys, \<lparr> ml_read_pos = z_start (zone_at dev r) + of_nat (length xs + length ys), ml_zone = r \<rparr>, dev)"
proof -
  let ?z = "zone_at dev r"
  have l: "length xs \<le> length (records be ds)" "length xs + length ys \<le> length (records be ds)" using part by simp_all
  have "z_start ?z + of_nat (length xs) < z_wp ?z"
    using log_zone_pos(1) [OF log l(1)] log part by (auto simp: word_less_nat_alt log_zone_def Let_def)
  moreover have "z_start ?z + of_nat (length xs) + of_nat (length ys) \<le> z_start ?z + z_max_capacity ?z"
    using log_zone_pos(1) [OF log l(2)] log_zone_pos(2,3) [OF log le_refl] l(2)
    by (simp add: word_le_nat_alt add.assoc)
  ultimately show ?thesis
    using MetaRead_law [OF law, of "\<lparr> ml_read_pos = z_start ?z + of_nat (length xs), ml_zone = r \<rparr>" dev "length ys"]
      log_zone_part [OF log part(1)] by (simp add: add.assoc)
qed

lemma EncodeFixed32_not_Nil [simp]: "EncodeFixed32 v \<noteq> []"
  by (simp add: length_greater_0_conv [symmetric] del: length_greater_0_conv)

lemma get32_Encode [simp]: "get32 (EncodeFixed32 v @ rest) = (v, rest)"
  by (simp add: get32_def GetFixed32_def codec_simps)

lemma get32_Encode_end [simp]: "get32 (EncodeFixed32 v) = (v, [])"
  using get32_Encode [of v "[]"] by simp

lemma MetaRead_end:
  assumes log: "log_zone be content r ds dev"
  shows "MetaRead be n (reader_after be r ds dev) dev = Some (OK, [], reader_after be r ds dev, dev)"
proof -
  have "z_wp (zone_at dev r) \<le> z_start (zone_at dev r) + of_nat (length (records be ds))"
    using log_zone_pos(1) [OF log le_refl] log by (simp add: word_le_nat_alt log_zone_def Let_def)
  then show ?thesis by (simp add: MetaRead_def reader_after_def Let_def)
qed

lemma ReadRecord_end:
  "log_zone be content r ds dev \<Longrightarrow>
   ReadRecord be (reader_after be r ds dev) dev = Some (OK, [], reader_after be r ds dev, dev)"
  by (simp add: ReadRecord_def MetaRead_end)

lemma ReadRecord_log:
  assumes law: "read_law be content" and log: "log_zone be content r (ds @ data # rest) dev"
  shows "ReadRecord be (reader_after be r ds dev) dev = Some (OK, data, reader_after be r (ds @ [data]) dev, dev)"
proof -
  let ?p = "z_start (zone_at dev r)" and ?b = "unat (block_sz be)"
  let ?h = "EncodeFixed32 (Mask (record_crc data)) @ EncodeFixed32 (of_nat (length data) :: u32)"
  let ?n = "length (records be ds)"
  have b: "0 < block_sz be" "0 < ?b" and d: "length data < 2 ^ 32" "\<forall>d \<in> set ds. length d < 2 ^ 32"
    and start: "?b dvd unat ?p"
    using log by (simp_all add: log_zone_def Let_def word_less_nat_alt)
  define fill where "fill = replicate (whole_blocks ?b (length data + 8) - (length data + 8)) (0 :: byte)"
  have rec: "meta_record be data = ?h @ data @ fill"
    using meta_record_body [OF b(1) d(1)] by (simp add: record_body_def fill_def)
  have l: "unat (of_nat (length data) :: u32) = length data" using d(1) by (intro unat_of_nat_small) simp
  have h: "MetaRead be 8 (reader_after be r ds dev) dev = Some (OK, ?h, \<lparr> ml_read_pos = ?p + of_nat (?n + 8), ml_zone = r \<rparr>, dev)"
    using MetaRead_log [OF law log, of "records be ds" ?h "data @ fill @ records be rest"] rec
    by (simp add: reader_after_def)
  have pos: "unat (?p + of_nat (?n + (8 + length data))) = unat ?p + (?n + (8 + length data))"
    by (rule log_zone_pos(1) [OF log]) (simp add: rec)
  have pos': "unat (?p + of_nat (?n + length (meta_record be data))) = unat ?p + (?n + length (meta_record be data))"
    by (rule log_zone_pos(1) [OF log]) simp
  have dv: "?b dvd unat ?p + ?n" using start records_dvd [OF b(1) d(2)] by simp
  have al: "align_size (ucast (block_sz be)) (?p + of_nat (?n + (8 + length data)))
      = ?p + of_nat (?n + length (meta_record be data))"
  proof (rule word_unat_eq_iff [THEN iffD2])
    have p: "0 < (ucast (block_sz be) :: u64)" using b(1) by (simp add: word_less_nat_alt unat_ucast_up)
    have w: "whole_blocks ?b (unat ?p + (?n + (8 + length data))) = unat ?p + (?n + length (meta_record be data))"
      using whole_blocks_add [OF dv, of "8 + length data"] length_meta_record [OF b(1) d(1)]
      by (simp add: add.commute add.left_commute)
    then have "whole_blocks (unat (ucast (block_sz be) :: u64)) (unat (?p + of_nat (?n + (8 + length data)))) < 2 ^ 64"
      using pos' pos unat_lt2p [of "?p + of_nat (?n + length (meta_record be data))"] by (simp add: unat_ucast_up)
    then show "unat (align_size (ucast (block_sz be)) (?p + of_nat (?n + (8 + length data))))
        = unat (?p + of_nat (?n + length (meta_record be data)))"
      using align_size_nat [OF p] w pos pos' by (simp add: unat_ucast_up)
  qed
  have "MetaRead be (length data) \<lparr> ml_read_pos = ?p + of_nat (?n + 8), ml_zone = r \<rparr> dev =
      Some (OK, data, \<lparr> ml_read_pos = ?p + of_nat (?n + (8 + length data)), ml_zone = r \<rparr>, dev)"
  proof (cases "data = [] \<and> fill @ records be rest = []")
    case True
    then show ?thesis using MetaRead_end [OF log] rec by (simp add: reader_after_def)
  next
    case False
    then show ?thesis
      using MetaRead_log [OF law log, of "records be ds @ ?h" data "fill @ records be rest"] rec
      by (auto simp: add.assoc)
  qed
  then show ?thesis
    using h l al by (simp del: of_nat_add add: ReadRecord_def zMetaHeaderSize_def reader_after_def record_crc_def Let_def)
qed

section \<open>The round trip\<close>

text \<open>A writer that stops at the first error, and a reader of \<open>n\<close> records.\<close>

primrec add_records :: "'d backend \<Rightarrow> ZenMetaLog \<Rightarrow> bytes list \<Rightarrow> 'd zbd \<Rightarrow> (status \<times> 'd zbd) option" where
  "add_records be ml [] dev = Some (OK, dev)"
| "add_records be ml (data # ds) dev =
     do {
       (s, dev1) \<leftarrow> AddRecord be data ml dev;
       (if \<not> ok s then Some (s, dev1) else add_records be ml ds dev1)
     }"

primrec read_records ::
    "'d backend \<Rightarrow> nat \<Rightarrow> ZenMetaLog \<Rightarrow> 'd zbd \<Rightarrow> ((status \<times> bytes) list \<times> 'd zbd) option" where
  "read_records be 0 ml dev = Some ([], dev)"
| "read_records be (Suc n) ml dev =
     do {
       (s, data, ml1, dev1) \<leftarrow> ReadRecord be ml dev;
       (rs, dev2) \<leftarrow> read_records be n ml1 dev1;
       Some ((s, data) # rs, dev2)
     }"

lemma add_records_log:
  assumes law: "write_law be content" "write_progress be"
  shows "log_zone be content (ml_zone ml) done dev \<Longrightarrow> \<forall>d \<in> set ds. length d < 2 ^ 32 \<Longrightarrow>
     length (records be ds) \<le> unat (z_capacity (zone_at dev (ml_zone ml))) \<Longrightarrow>
     \<exists>s dev'. add_records be ml ds dev = Some (s, dev') \<and>
       (\<forall>r. r \<noteq> ml_zone ml \<longrightarrow> zone_at dev' r = zone_at dev r) \<and>
       (s = OK \<and> log_zone be content (ml_zone ml) (done @ ds) dev' \<or> s = IOError)"
proof (induction ds arbitrary: "done" dev)
  case Nil
  then show ?case by simp
next
  case (Cons data ds)
  have fits: "length data < 2 ^ 32" "length (meta_record be data) \<le> unat (z_capacity (zone_at dev (ml_zone ml)))"
    using Cons.prems(2,3) by simp_all
  obtain s dev1 where a: "AddRecord be data ml dev = Some (s, dev1)"
      "\<forall>r. r \<noteq> ml_zone ml \<longrightarrow> zone_at dev1 r = zone_at dev r"
      "s = OK \<and> log_zone be content (ml_zone ml) (done @ [data]) dev1 \<and>
       unat (z_capacity (zone_at dev1 (ml_zone ml))) + length (meta_record be data) = unat (z_capacity (zone_at dev (ml_zone ml))) \<and>
       z_start (zone_at dev1 (ml_zone ml)) = z_start (zone_at dev (ml_zone ml)) \<or> s = IOError"
    using AddRecord_spec [OF law Cons.prems(1) fits] by (elim exE conjE) (rule that)
  show ?case
  proof (cases "s = IOError")
    case True
    then show ?thesis using a(1,2) by simp
  next
    case False
    then have ok: "s = OK" and l: "log_zone be content (ml_zone ml) (done @ [data]) dev1"
      and c: "length (records be ds) \<le> unat (z_capacity (zone_at dev1 (ml_zone ml)))"
      using a(3) Cons.prems(3) by auto
    have small: "\<forall>d \<in> set ds. length d < 2 ^ 32" using Cons.prems(2) by simp
    obtain s2 dev2 where i: "add_records be ml ds dev1 = Some (s2, dev2)"
        "\<forall>r. r \<noteq> ml_zone ml \<longrightarrow> zone_at dev2 r = zone_at dev1 r"
        "s2 = OK \<and> log_zone be content (ml_zone ml) ((done @ [data]) @ ds) dev2 \<or> s2 = IOError"
      using Cons.IH [OF l small c] by (elim exE conjE) (rule that)
    then show ?thesis using a(1,2) ok by simp
  qed
qed

lemma read_records_log:
  assumes "read_law be content"
  shows "log_zone be content r (done @ ds) dev \<Longrightarrow>
     read_records be (length ds + 1) (reader_after be r done dev) dev = Some (map (Pair OK) ds @ [(OK, [])], dev)"
proof (induction ds arbitrary: "done")
  case Nil
  then show ?case by (simp add: ReadRecord_end)
next
  case (Cons data ds)
  have "read_records be (Suc (length ds)) (reader_after be r (done @ [data]) dev) dev
      = Some (map (Pair OK) ds @ [(OK, [])], dev)"
    using Cons.IH [of "done @ [data]"] Cons.prems by (simp del: read_records.simps)
  then show ?case
    by (simp add: ReadRecord_log [OF assms Cons.prems] read_records.simps(2) [of be "Suc (length ds)"]
        del: read_records.simps)
qed


definition meta_dev :: "(u64 \<Rightarrow> byte) zbd" where
  "meta_dev = two_zone_dev\<lparr>meta_zones :=
     [\<lparr> z_busy = True, z_start = 4096, z_capacity = 16384, z_max_capacity = 16384, z_wp = 4096,
        z_lifetime = 0, z_used_capacity = 0 \<rparr>]\<rparr>"


section \<open>The superblock\<close>

definition sb_wf :: "Superblock \<Rightarrow> bool" where
  "sb_wf sb \<longleftrightarrow> length (sb_uuid sb) = 37 \<and> length (sb_aux_fs_path sb) = 256 \<and>
     length (sb_zenfs_version sb) = 64 \<and> length (sb_reserved sb) = 123 \<and>
     sb_magic sb = sb_MAGIC \<and> sb_version sb = CURRENT_SUPERBLOCK_VERSION"

lemma length_strncpy [simp]: "0 < n \<Longrightarrow> length (strncpy n s) = n"
  by (simp add: strncpy_def Let_def)

lemma newSuperblock_wf [simp]: "sb_wf (newSuperblock be uuid aux ft gc)"
  by (simp add: sb_wf_def newSuperblock_def Let_def)

lemma Superblock_EncodeTo_wf:
  "sb_wf sb \<Longrightarrow> sb_wf (snd (Superblock_EncodeTo sb))" 
  by (simp add: sb_wf_def Superblock_EncodeTo_def Let_def)

lemma Superblock_Decode_Encode:
  "sb_wf sb \<Longrightarrow> Superblock_DecodeFrom (fst (Superblock_EncodeTo sb)) = (OK, Some (snd (Superblock_EncodeTo sb)))"
  by (simp add: sb_wf_def Superblock_DecodeFrom_def Superblock_EncodeTo_def Let_def PutFixed32_def ENCODED_SIZE_def)

lemma takeWhile_strncpy:
  assumes "0 < n"
  shows "takeWhile (\<lambda>c. c \<noteq> 0) (strncpy n s) = take (n - 1) (takeWhile (\<lambda>c. c \<noteq> 0) s)"
proof -
  let ?t = "take (n - 1) (takeWhile (\<lambda>c. c \<noteq> 0) s)"
  have nz: "c \<noteq> 0" if "c \<in> set ?t" for c using set_takeWhileD [OF in_set_takeD [OF that]] by simp
  have z: "takeWhile (\<lambda>c. c \<noteq> 0) (replicate m (0 :: byte)) = []" for m by (cases m) simp_all
  show ?thesis
    using takeWhile_append2 [of ?t "\<lambda>c. c \<noteq> 0" "replicate (n - length ?t) 0", OF nz]
    unfolding strncpy_def Let_def z by simp
qed

text \<open>
  C37. The superblock that \<^verbatim>\<open>MkFS\<close> makes, encoded, has the 512 bytes the decoder demands and is
  decoded to the superblock it was; that superblock is accepted for the device it was made for (when
  the zone size in blocks fits its 32-bit field), and has the garbage collection flag and the path of
  the auxiliary file system (up to 255 characters) it was made with.
\<close>

theorem superblock_roundtrip:
  assumes "unat (zone_sz be div ucast (block_sz be)) < 2 ^ 32"
    and enc: "Superblock_EncodeTo (newSuperblock be uuid aux ft gc) = (output, sb)"
  shows "Superblock_DecodeFrom output = (OK, Some sb) \<and> length output = ENCODED_SIZE \<and>
     CompatibleWith be sb = OK \<and> IsGCEnabled sb = gc \<and>
     GetAuxFsPath sb = take 255 (takeWhile (\<lambda>c. c \<noteq> 0) aux)"
proof -
  have z: "ucast (ucast (zone_sz be div ucast (block_sz be)) :: u32) = zone_sz be div ucast (block_sz be)"
  proof (rule word_unat_eq_iff [THEN iffD2])
    show "unat (ucast (ucast (zone_sz be div ucast (block_sz be)) :: u32) :: u64) = unat (zone_sz be div ucast (block_sz be))"
      using assms(1) by (simp add: unsigned_ucast_eq unsigned_take_bit_eq take_bit_nat_eq_self)
  qed
  have sb: "sb = (newSuperblock be uuid aux ft gc)\<lparr>sb_sequence := 1\<rparr>"
    using enc by (auto simp: Superblock_EncodeTo_def newSuperblock_def Let_def)
  have "CompatibleWith be sb = OK" using z by (simp add: CompatibleWith_def sb newSuperblock_def Let_def)
  moreover have "IsGCEnabled sb = gc"
    by (simp add: IsGCEnabled_def sb newSuperblock_def Let_def DEFAULT_FLAGS_def FLAGS_ENABLE_GC_def)
  moreover have "GetAuxFsPath sb = take 255 (takeWhile (\<lambda>c. c \<noteq> 0) aux)"
    by (simp add: GetAuxFsPath_def sb newSuperblock_def Let_def takeWhile_strncpy)
  moreover have "length output = ENCODED_SIZE"
    using enc by (auto simp: Superblock_EncodeTo_def newSuperblock_def Let_def PutFixed32_def ENCODED_SIZE_def)
  ultimately show ?thesis
    using Superblock_Decode_Encode [of "newSuperblock be uuid aux ft gc"] enc by simp
qed

theorem superblock_roundtrip_witness:
  "CompatibleWith (ram_backend 8192) (snd (Superblock_EncodeTo (newSuperblock (ram_backend 8192) [1] (str ''/aux'') 5 True))) = OK \<and>
   GetAuxFsPath (snd (Superblock_EncodeTo (newSuperblock (ram_backend 8192) [1] (str ''/aux'') 5 True))) = str ''/aux''"
proof -
  have "unat (zone_sz (ram_backend 8192) div ucast (block_sz (ram_backend 8192))) < 2 ^ 32"
    by (simp add: ram_backend_def)
  note r = superblock_roundtrip [OF this surjective_pairing, of "[1]" "str ''/aux''" 5 True]
  have "take 255 (takeWhile (\<lambda>c. c \<noteq> 0) (str ''/aux'')) = str ''/aux''" by (simp add: str_def)
  then show ?thesis using r by metis
qed

end
