(* ===== verification/Paths.thy ===== *)
theory Paths
  imports Zwal_Prelude
begin

text \<open>
  File names (\<^verbatim>\<open>ZenFS::FormatPathLexically\<close> and the path computations of \<^verbatim>\<open>fs_zenfs.cc\<close>) with the
  operations of \<^verbatim>\<open>std::filesystem::path\<close> they use, on POSIX strings.
\<close>

section \<open>Paths\<close>

definition slash :: byte where "slash = 0x2f"
definition dot :: bytes where "dot = [0x2e]"
definition dotdot :: bytes where "dotdot = [0x2e, 0x2e]"

definition is_absolute :: "bytes \<Rightarrow> bool" where
  "is_absolute p \<longleftrightarrow> p \<noteq> [] \<and> hd p = slash"

definition has_filename :: "bytes \<Rightarrow> bool" where
  "has_filename p \<longleftrightarrow> p \<noteq> [] \<and> last p \<noteq> slash"

text \<open>The file names of a path, in order; separators may be repeated.\<close>

fun names_acc :: "bytes \<Rightarrow> bytes \<Rightarrow> bytes list" where
  "names_acc cur [] = (if cur = [] then [] else [cur])"
| "names_acc cur (c # p) =
     (if c = slash then (if cur = [] then names_acc [] p else cur # names_acc [] p)
      else names_acc (cur @ [c]) p)"

definition names :: "bytes \<Rightarrow> bytes list" where
  "names p = names_acc [] p"

fun join :: "bytes list \<Rightarrow> bytes" where
  "join [] = []"
| "join [n] = n"
| "join (n # m # ns) = n @ slash # join (m # ns)"

text \<open>
  \<^verbatim>\<open>lexically_normal\<close>. A dot disappears; a dot-dot removes the name before it, or disappears at the
  root. The stack has the last name first.
\<close>

definition normal_step :: "bool \<Rightarrow> bytes \<Rightarrow> bytes list \<Rightarrow> bytes list" where
  "normal_step root n stack =
     (if n = dot then stack
      else if n = dotdot then
        (case stack of
           [] \<Rightarrow> (if root then [] else [dotdot])
         | m # ms \<Rightarrow> (if m = dotdot then dotdot # stack else ms))
      else n # stack)"

definition normal_names :: "bool \<Rightarrow> bytes list \<Rightarrow> bytes list" where
  "normal_names root ns = rev (fold (normal_step root) ns [])"

text \<open>A separator stays at the end when there was one, or when the last name disappeared.\<close>

definition normal_trailing :: "bytes \<Rightarrow> bool" where
  "normal_trailing p \<longleftrightarrow>
     \<not> has_filename p \<or> (names p \<noteq> [] \<and> (last (names p) = dot \<or> last (names p) = dotdot))"

definition lexically_normal :: "bytes \<Rightarrow> bytes" where
  "lexically_normal p =
     (if p = [] then []
      else
        (let root = is_absolute p;
             ns = normal_names root (names p);
             tail = (if ns \<noteq> [] \<and> normal_trailing p \<and> last ns \<noteq> dotdot then [slash] else []);
             q = (if root then [slash] else []) @ join ns @ tail
         in if q = [] then dot else q))"

text \<open>\<^verbatim>\<open>operator/\<close>\<close>

definition path_append :: "bytes \<Rightarrow> bytes \<Rightarrow> bytes" where
  "path_append a b =
     (if is_absolute b then b else if has_filename a then a @ slash # b else a @ b)"

text \<open>\<^verbatim>\<open>parent_path\<close>: without the last element and the separators before it.\<close>

definition strip_slashes :: "bytes \<Rightarrow> bytes" where
  "strip_slashes p = rev (dropWhile (\<lambda>c. c = slash) (rev p))"

definition parent_path :: "bytes \<Rightarrow> bytes" where
  "parent_path p =
     (if names p = [] then p
      else
        (let q = strip_slashes (rev (dropWhile (\<lambda>c. c \<noteq> slash) (rev p)))
         in if q = [] \<and> is_absolute p then [slash] else q))"

definition FormatPathLexically :: "bytes \<Rightarrow> bytes" where
  "FormatPathLexically filepath = path_append [slash] (lexically_normal filepath)"

text \<open>The two lambdas of \<^verbatim>\<open>GetZenFSChildrenNoLock\<close>.\<close>

definition with_separator :: "bytes \<Rightarrow> bytes" where
  "with_separator p = lexically_normal (path_append p [])"

definition starts_with :: "bytes \<Rightarrow> bytes \<Rightarrow> bool" where
  "starts_with s needle \<longleftrightarrow> take (length needle) s = needle"

section \<open>Normal forms\<close>

text \<open>The names of a path have no separator in them and are not empty.\<close>

definition name_ok :: "bytes \<Rightarrow> bool" where
  "name_ok n \<longleftrightarrow> n \<noteq> [] \<and> slash \<notin> set n"

lemma names_acc_ok: "slash \<notin> set cur \<Longrightarrow> n \<in> set (names_acc cur p) \<Longrightarrow> name_ok n"
proof (induction p arbitrary: cur)
  case Nil
  then show ?case by (simp add: name_ok_def split: if_splits)
next
  case (Cons c p)
  consider "c \<noteq> slash" | "c = slash" "cur = []" | "c = slash" "cur \<noteq> []" by blast
  then show ?case
  proof cases
    case 1
    then show ?thesis using Cons.prems Cons.IH [of "cur @ [c]"] by simp
  next
    case 2
    then show ?thesis using Cons.prems Cons.IH [of "[]"] by simp
  next
    case 3
    then show ?thesis using Cons.prems Cons.IH [of "[]"] by (auto simp: name_ok_def)
  qed
qed

lemma names_ok: "\<forall>n \<in> set (names p). name_ok n"
  unfolding names_def using names_acc_ok [of "[]"] by simp

lemma names_acc_name: "slash \<notin> set n \<Longrightarrow> names_acc cur (n @ p) = names_acc (cur @ n) p"
  by (induction n arbitrary: cur) auto

lemma names_name_slash: "name_ok n \<Longrightarrow> names (n @ slash # p) = n # names p"
  using names_acc_name [of n "[]" "slash # p"] by (simp add: names_def name_ok_def)

lemma names_name: "name_ok n \<Longrightarrow> names n = [n]"
  using names_acc_name [of n "[]" "[]"] by (simp add: names_def name_ok_def)

lemma names_Nil [simp]: "names [] = []"
  by (simp add: names_def)

lemma names_join: "\<forall>n \<in> set ns. name_ok n \<Longrightarrow> names (join ns) = ns"
  by (induction ns rule: join.induct) (simp_all add: names_name names_name_slash)

lemma names_join_slash: "\<forall>n \<in> set ns. name_ok n \<Longrightarrow> ns \<noteq> [] \<Longrightarrow> names (join ns @ [slash]) = ns"
  by (induction ns rule: join.induct) (simp_all add: names_name_slash)

lemma names_slash: "names (slash # p) = names p"
  by (simp add: names_def)

text \<open>Under the root, normal names contain neither dots nor dot-dots, and are left alone.\<close>

definition normal_ns :: "bytes list \<Rightarrow> bool" where
  "normal_ns ns \<longleftrightarrow> (\<forall>n \<in> set ns. name_ok n \<and> n \<noteq> dot \<and> n \<noteq> dotdot)"

lemma normal_step_ok: "normal_ns stack \<Longrightarrow> name_ok n \<Longrightarrow> normal_ns (normal_step True n stack)"
  by (cases stack) (simp_all add: normal_step_def normal_ns_def)

lemma normal_names_ok: "\<forall>n \<in> set ns. name_ok n \<Longrightarrow> normal_ns (normal_names True ns)"
proof -
  have "normal_ns stack \<Longrightarrow> \<forall>n \<in> set ns. name_ok n \<Longrightarrow> normal_ns (fold (normal_step True) ns stack)" for stack
    by (induction ns arbitrary: stack) (auto intro: normal_step_ok)
  from this [of "[]"] show "\<forall>n \<in> set ns. name_ok n \<Longrightarrow> normal_ns (normal_names True ns)"
    by (simp add: normal_names_def normal_ns_def)
qed

lemma normal_names_id: "normal_ns ns \<Longrightarrow> normal_names root ns = ns"
proof -
  have "normal_ns ns \<Longrightarrow> fold (normal_step root) ns stack = rev ns @ stack" for stack
    by (induction ns arbitrary: stack) (auto simp: normal_ns_def normal_step_def)
  from this [of "[]"] show "normal_ns ns \<Longrightarrow> normal_names root ns = ns"
    by (simp add: normal_names_def)
qed

lemma join_last: "ns \<noteq> [] \<Longrightarrow> \<forall>n \<in> set ns. name_ok n \<Longrightarrow> join ns \<noteq> [] \<and> last (join ns) \<noteq> slash"
  by (induction ns rule: join.induct) (auto simp: name_ok_def dest: last_in_set)

lemma normal_of_normal:
  assumes ns: "normal_ns ns" and t: "t = [] \<or> ns \<noteq> [] \<and> t = [slash]"
  shows "lexically_normal (slash # join ns @ t) = slash # join ns @ t"
proof -
  let ?p = "slash # join ns @ t"
  have ok: "\<forall>n \<in> set ns. name_ok n" using ns by (simp add: normal_ns_def)
  have names: "names ?p = ns"
    using t names_join [OF ok] names_join_slash [OF ok] by (auto simp: names_slash)
  have "normal_trailing ?p \<longleftrightarrow> t = [slash] \<or> ns = []"
  proof -
    have "ns \<noteq> [] \<Longrightarrow> last ns \<noteq> dot \<and> last ns \<noteq> dotdot"
      using ns by (auto simp: normal_ns_def)
    then show ?thesis
      using t join_last [OF _ ok] by (auto simp: normal_trailing_def has_filename_def names)
  qed
  moreover have "ns \<noteq> [] \<Longrightarrow> last ns \<noteq> dotdot" using ns by (auto simp: normal_ns_def)
  ultimately show ?thesis
    using t by (auto simp: lexically_normal_def is_absolute_def names normal_names_id [OF ns] Let_def)
qed

lemma FormatPathLexically_abs:
  assumes "is_absolute p"
  shows "is_absolute (FormatPathLexically p)" "FormatPathLexically (FormatPathLexically p) = FormatPathLexically p"
proof -
  define ns where "ns = normal_names True (names p)"
  define t where "t = (if ns \<noteq> [] \<and> normal_trailing p \<and> last ns \<noteq> dotdot then [slash] else [])"
  have "lexically_normal p = slash # join ns @ t"
    using assms by (auto simp: lexically_normal_def is_absolute_def ns_def t_def Let_def)
  moreover have "lexically_normal (slash # join ns @ t) = slash # join ns @ t"
    by (rule normal_of_normal) (auto simp: ns_def t_def names_ok normal_names_ok)
  ultimately show "is_absolute (FormatPathLexically p)"
    "FormatPathLexically (FormatPathLexically p) = FormatPathLexically p"
    by (simp_all add: FormatPathLexically_def path_append_def is_absolute_def)
qed

lemma is_absolute_append: "is_absolute d \<Longrightarrow> is_absolute (path_append d c)"
  by (auto simp: path_append_def is_absolute_def hd_append)

section \<open>Properties\<close>

text \<open>
  C27. The code formats a name again at every layer it passes through. For absolute names, which
  RocksDB uses, formatting once or several times is the same: the result is absolute, and formatting
  it again changes nothing. (A relative name that starts with a dot-dot is the exception.)
\<close>

theorem FormatPathLexically_idem:
  "(is_absolute p \<longrightarrow>
      is_absolute (FormatPathLexically p) \<and>
      FormatPathLexically (FormatPathLexically p) = FormatPathLexically p) \<and>
   FormatPathLexically (FormatPathLexically (dotdot @ slash # [97]))
     \<noteq> FormatPathLexically (dotdot @ slash # [97])"
proof -
  have "is_absolute (FormatPathLexically p) \<and> FormatPathLexically (FormatPathLexically p) = FormatPathLexically p"
    if "is_absolute p"
    using FormatPathLexically_abs [OF that] by simp
  moreover have "FormatPathLexically (FormatPathLexically (dotdot @ slash # [97]))
      \<noteq> FormatPathLexically (dotdot @ slash # [97])"
    by code_simp
  ultimately show ?thesis by simp
qed

theorem FormatPathLexically_idem_witness:
  "is_absolute (str ''/db//x/../000004.log'') \<and>
   FormatPathLexically (str ''/db//x/../000004.log'') = str ''/db/000004.log'' \<and>
   FormatPathLexically (FormatPathLexically (str ''/db//x/../000004.log'')) = str ''/db/000004.log''"
proof -
  have "is_absolute (str ''/db//x/../000004.log'')" by code_simp
  moreover have "FormatPathLexically (str ''/db//x/../000004.log'') = str ''/db/000004.log''" by code_simp
  ultimately show ?thesis using FormatPathLexically_idem [of "str ''/db//x/../000004.log''"] by simp
qed

end
