(* ===== verification/Name_Map.thy ===== *)
theory Name_Map
  imports Zwal_Prelude "HOL-Library.List_Lexorder"
begin

text \<open>
  \<^verbatim>\<open>std::map\<close> with string keys, as \<^verbatim>\<open>fs_zenfs.cc\<close> uses it for its table of files: an association
  list in increasing order of the keys, which is the order of iteration. The laws a table promises
  are a locale; what the file system does with a table is proved from them.
\<close>

section \<open>Operations\<close>

type_synonym 'v name_map = "(bytes \<times> 'v) list"

definition mfind :: "bytes \<Rightarrow> 'v name_map \<Rightarrow> 'v option" where
  "mfind k m = map_of m k"

text \<open>\<^verbatim>\<open>insert\<close> leaves an existing entry alone.\<close>

fun minsert :: "bytes \<Rightarrow> 'v \<Rightarrow> 'v name_map \<Rightarrow> 'v name_map" where
  "minsert k v [] = [(k, v)]"
| "minsert k v (e # m) =
     (if k = fst e then e # m else if k < fst e then (k, v) # e # m else e # minsert k v m)"

definition merase :: "bytes \<Rightarrow> 'v name_map \<Rightarrow> 'v name_map" where
  "merase k m = filter (\<lambda>e. fst e \<noteq> k) m"

definition map_inv :: "'v name_map \<Rightarrow> bool" where
  "map_inv m \<longleftrightarrow> sorted_wrt (<) (map fst m)"

section \<open>The contract of a table\<close>

locale table =
  fixes find :: "bytes \<Rightarrow> 't \<Rightarrow> 'v option"
    and insert :: "bytes \<Rightarrow> 'v \<Rightarrow> 't \<Rightarrow> 't"
    and erase :: "bytes \<Rightarrow> 't \<Rightarrow> 't"
    and inv :: "'t \<Rightarrow> bool"
  assumes find_insert: "inv t \<Longrightarrow> find k' (insert k v t) = (if k' = k \<and> find k t = None then Some v else find k' t)"
    and find_erase: "inv t \<Longrightarrow> find k' (erase k t) = (if k' = k then None else find k' t)"
    and inv_insert: "inv t \<Longrightarrow> inv (insert k v t)"
    and inv_erase: "inv t \<Longrightarrow> inv (erase k t)"
begin

text \<open>Moving an entry, and inserting one object under several names.\<close>

lemma find_move:
  assumes "inv t" and "k' \<noteq> k" and "find k' t = None"
  shows "find j (insert k' v (erase k t)) = (if j = k' then Some v else if j = k then None else find j t)"
  using assms by (simp add: find_insert find_erase inv_erase)

lemma inv_insert_all: "inv t \<Longrightarrow> inv (fold (\<lambda>k. insert k v) ks t)"
  by (induction ks arbitrary: t) (simp_all add: inv_insert)

lemma find_insert_all:
  "inv t \<Longrightarrow> find j (fold (\<lambda>k. insert k v) ks t) = (if find j t = None \<and> j \<in> set ks then Some v else find j t)"
  by (induction ks arbitrary: t) (auto simp: find_insert inv_insert)

lemma inv_erase_all: "inv t \<Longrightarrow> inv (fold erase ks t)"
  by (induction ks arbitrary: t) (simp_all add: inv_erase)

lemma find_erase_all: "inv t \<Longrightarrow> find j (fold erase ks t) = (if j \<in> set ks then None else find j t)"
  by (induction ks arbitrary: t) (auto simp: find_erase inv_erase)

lemma erase_insert_find:
  "inv t \<Longrightarrow> find k t = None \<Longrightarrow> find j (erase k (insert k v t)) = find j t"
  by (simp add: find_erase inv_insert find_insert)

lemma insert_erase_find:
  "inv t \<Longrightarrow> find k t = Some v \<Longrightarrow> find j (insert k v (erase k t)) = find j t"
  by (simp add: find_erase find_insert inv_erase)

end

section \<open>Sorted lists keep the contract\<close>

lemma mfind_minsert: "mfind k' (minsert k v m) = (if k' = k \<and> mfind k m = None then Some v else mfind k' m)"
  if "map_inv m"
  using that
proof (induction m)
  case (Cons e m)
  then have tail: "map_inv m" and lt: "\<forall>x \<in> set m. fst e < fst x" by (auto simp: map_inv_def)
  have none: "mfind k m = None" if "k < fst e"
    using lt that by (fastforce simp: mfind_def map_of_eq_None_iff)
  show ?case
    using Cons.IH [OF tail] none by (cases e) (auto simp: mfind_def)
qed (simp add: mfind_def)

lemma minsert_keys: "fst ` set (minsert k v m) = Set.insert k (fst ` set m)"
  by (induction m) (auto simp: image_iff)

lemma map_inv_minsert: "map_inv m \<Longrightarrow> map_inv (minsert k v m)"
proof (induction m)
  case (Cons e m)
  then have tail: "map_inv m" and lt: "\<forall>x \<in> fst ` set m. fst e < x" by (auto simp: map_inv_def)
  have "\<forall>x \<in> fst ` set (minsert k v m). fst e < x" if "fst e < k"
    using lt that by (simp add: minsert_keys)
  then show ?case
    using Cons.IH [OF tail] Cons.prems lt by (force simp: map_inv_def not_less)
qed (simp add: map_inv_def)

lemma map_inv_merase: "map_inv m \<Longrightarrow> map_inv (merase k m)"
  by (induction m) (auto simp: map_inv_def merase_def)

lemma mfind_merase: "mfind k' (merase k m) = (if k' = k then None else mfind k' m)"
  by (induction m) (auto simp: mfind_def merase_def)

interpretation names: table mfind minsert merase map_inv
  by unfold_locales (simp_all add: mfind_minsert mfind_merase map_inv_minsert map_inv_merase)

lemma mfind_set: "map_inv m \<Longrightarrow> mfind k m = Some v \<longleftrightarrow> (k, v) \<in> set m"
proof (induction m)
  case (Cons e m)
  then have "map_inv m" and "\<forall>x \<in> set m. fst e < fst x" by (auto simp: map_inv_def)
  then show ?case using Cons.IH by (cases e) (force simp: mfind_def)
qed (simp add: mfind_def)

lemma map_inv_Nil [simp]: "map_inv []"
  by (simp add: map_inv_def)

lemma mfind_Nil [simp]: "mfind k [] = None"
  by (simp add: mfind_def)

end
