(* ===== verification/Zenfs.thy ===== *)
theory Zenfs
  imports Meta_Log Writable Paths Name_Map
begin

text \<open>
  The file system (\<^verbatim>\<open>class ZenFS\<close> of \<^verbatim>\<open>fs_zenfs.h\<close> and \<^verbatim>\<open>fs_zenfs.cc\<close>): the table of files, persisting
  metadata, creating, deleting, renaming and linking files.

  File objects are shared (\<^verbatim>\<open>std::shared_ptr\<close>): they live in a store, the table maps names to their
  addresses, and \<open>handles\<close> counts the open files that refer to them. An object nothing refers to is
  destroyed. The file system for everything that is not a file of the zoned device (\<^verbatim>\<open>target()\<close>) is a
  record of functions over its own state.
\<close>

section \<open>State\<close>

record 'x aux_fs =
  aux_FileExists :: "bytes \<Rightarrow> 'x \<Rightarrow> status"
  aux_DeleteFile :: "bytes \<Rightarrow> 'x \<Rightarrow> status \<times> 'x"
  aux_RenameFile :: "bytes \<Rightarrow> bytes \<Rightarrow> 'x \<Rightarrow> status \<times> 'x"
  aux_LinkFile :: "bytes \<Rightarrow> bytes \<Rightarrow> 'x \<Rightarrow> status \<times> 'x"
  aux_GetChildren :: "bytes \<Rightarrow> 'x \<Rightarrow> status \<times> bytes list"
  aux_IsDirectory :: "bytes \<Rightarrow> 'x \<Rightarrow> status \<times> bool"
  aux_DeleteDir :: "bytes \<Rightarrow> 'x \<Rightarrow> status \<times> 'x"
  aux_CreateDirIfMissing :: "bytes \<Rightarrow> 'x \<Rightarrow> status \<times> 'x"
  aux_GetFileSize :: "bytes \<Rightarrow> 'x \<Rightarrow> status \<times> u64"
  aux_GetFileModificationTime :: "bytes \<Rightarrow> 'x \<Rightarrow> status \<times> u64"
  aux_NumFileLinks :: "bytes \<Rightarrow> 'x \<Rightarrow> status \<times> u64"
  aux_AreFilesSame :: "bytes \<Rightarrow> bytes \<Rightarrow> 'x \<Rightarrow> status \<times> bool"

text \<open>\<open>clock\<close> is what \<^verbatim>\<open>time(0)\<close> returns.\<close>

record ('d, 'x) zenfs =
  fs_dev :: "'d zbd"
  files :: "nat name_map"
  objs :: "nat \<rightharpoonup> ZoneFile"
  next_obj :: nat
  handles :: "nat \<Rightarrow> nat"
  next_file_id :: u64
  meta_log :: "ZenMetaLog option"
  superblock :: "Superblock option"
  run_gc_worker :: bool
  aux :: 'x
  clock :: u64

definition obj :: "('d, 'x) zenfs \<Rightarrow> nat \<Rightarrow> ZoneFile" where
  "obj fs a = the (objs fs a)"

definition upd_obj :: "nat \<Rightarrow> (ZoneFile \<Rightarrow> ZoneFile) \<Rightarrow> ('d, 'x) zenfs \<Rightarrow> ('d, 'x) zenfs" where
  "upd_obj a f fs = fs\<lparr>objs := (objs fs)(a \<mapsto> f (obj fs a))\<rparr>"

definition kCompleteFilesSnapshot :: u32 where "kCompleteFilesSnapshot = 1"
definition kFileUpdate :: u32 where "kFileUpdate = 2"
definition kFileDeletion :: u32 where "kFileDeletion = 3"
definition kEndRecord :: u32 where "kEndRecord = 4"
definition kFileReplace :: u32 where "kFileReplace = 5"

lemmas ZenFSTag_defs =
  kCompleteFilesSnapshot_def kFileUpdate_def kFileDeletion_def kEndRecord_def kFileReplace_def

text \<open>A reference to an object goes out of scope.\<close>

definition referenced :: "nat \<Rightarrow> ('d, 'x) zenfs \<Rightarrow> bool" where
  "referenced a fs \<longleftrightarrow> a \<in> snd ` set (files fs) \<or> handles fs a > 0"

definition release :: "'d backend \<Rightarrow> nat \<Rightarrow> ('d, 'x) zenfs \<Rightarrow> ('d, 'x) zenfs" where
  "release be a fs =
     (case objs fs a of
        None \<Rightarrow> fs
      | Some zf \<Rightarrow>
          if referenced a fs then fs
          else fs\<lparr>fs_dev := delete_ZoneFile be zf (fs_dev fs), objs := (objs fs)(a := None)\<rparr>)"

section \<open>Persisting metadata\<close>

fun EncodeSnapshot_files :: "('d, 'x) zenfs \<Rightarrow> nat name_map \<Rightarrow> bytes \<Rightarrow> bytes" where
  "EncodeSnapshot_files fs [] out = out"
| "EncodeSnapshot_files fs ((n, a) # m) out =
     EncodeSnapshot_files fs m (PutLengthPrefixedSlice out (ZoneFile_EncodeSnapshotTo [] (obj fs a)))"

definition EncodeSnapshotTo :: "('d, 'x) zenfs \<Rightarrow> bytes" where
  "EncodeSnapshotTo fs =
     PutLengthPrefixedSlice (PutFixed32 [] kCompleteFilesSnapshot) (EncodeSnapshot_files fs (files fs) [])"

definition WriteSnapshotLocked ::
    "'d backend \<Rightarrow> ZenMetaLog \<Rightarrow> ('d, 'x) zenfs \<Rightarrow> (status \<times> ('d, 'x) zenfs) option" where
  "WriteSnapshotLocked be ml fs =
     do {
       (s, dev) \<leftarrow> AddRecord be (EncodeSnapshotTo fs) ml (fs_dev fs);
       let fs1 = fs\<lparr>fs_dev := dev\<rparr>;
       Some (s, if ok s then fold (\<lambda>(n, a). upd_obj a MetadataSynced) (files fs1) fs1 else fs1)
     }"

definition WriteEndRecord ::
    "'d backend \<Rightarrow> ZenMetaLog \<Rightarrow> ('d, 'x) zenfs \<Rightarrow> (status \<times> ('d, 'x) zenfs) option" where
  "WriteEndRecord be ml fs =
     map_option (\<lambda>(s, dev). (s, fs\<lparr>fs_dev := dev\<rparr>)) (AddRecord be (PutFixed32 [] kEndRecord) ml (fs_dev fs))"

text \<open>The old log gets an end record and its zone is finished, as far as there is room.\<close>

definition end_old_log ::
    "'d backend \<Rightarrow> ZenMetaLog \<Rightarrow> ('d, 'x) zenfs \<Rightarrow> ('d, 'x) zenfs option" where
  "end_old_log be ml fs =
     (let r = ml_zone ml in
      do {
        fs1 \<leftarrow> (if z_capacity (zone_at (fs_dev fs) r) \<noteq> 0
                 then map_option snd (WriteEndRecord be ml fs) else Some fs);
        Some (let dev = fs_dev fs1; z = zone_at dev r in
              if z_capacity z \<noteq> 0
              then (case Zone_Finish be z (world dev) of
                      (s, z1, d) \<Rightarrow> fs1\<lparr>fs_dev := (put_zone r z1 dev)\<lparr>world := d\<rparr>\<rparr>)
              else fs1)
      })"

definition reset_zone :: "'d backend \<Rightarrow> zref \<Rightarrow> 'd zbd \<Rightarrow> status \<times> 'd zbd" where
  "reset_zone be r dev =
     (case Zone_Reset be (zone_at dev r) (world dev) of
        (s, z, d) \<Rightarrow> (s, (put_zone r z dev)\<lparr>world := d\<rparr>))"

definition RollMetaZoneLocked ::
    "'d backend \<Rightarrow> ('d, 'x) zenfs \<Rightarrow> (status \<times> ('d, 'x) zenfs) option" where
  "RollMetaZoneLocked be fs =
     (case AllocateMetaZone be (fs_dev fs) of
        (s, zone, dev1) \<Rightarrow>
          if \<not> ok s then Some (s, fs\<lparr>fs_dev := dev1\<rparr>)
          else case zone of
            None \<Rightarrow> Some (NoSpace, fs\<lparr>fs_dev := dev1\<rparr>)
          | Some r \<Rightarrow>
              do {
                old \<leftarrow> meta_log fs;
                let new = newZenMetaLog r dev1;
                fs2 \<leftarrow> end_old_log be old (fs\<lparr>fs_dev := dev1, meta_log := Some new\<rparr>);
                sb \<leftarrow> superblock fs2;
                let (super_string, sb1) = Superblock_EncodeTo sb;
                (s2, dev3) \<leftarrow> AddRecord be super_string new (fs_dev fs2);
                let fs3 = fs2\<lparr>superblock := Some sb1, fs_dev := dev3\<rparr>;
                (if \<not> ok s2 then Some (IOError, fs3\<lparr>fs_dev := delete_ZenMetaLog old (fs_dev fs3)\<rparr>)
                 else
                   do {
                     (s3, fs4) \<leftarrow> WriteSnapshotLocked be new fs3;
                     let dev5 = (if ok s3 then snd (reset_zone be (ml_zone old) (fs_dev fs4)) else fs_dev fs4);
                     Some (s3, fs4\<lparr>fs_dev := delete_ZenMetaLog old dev5\<rparr>)
                   })
              })"

text \<open>Comparing with \<^verbatim>\<open>NoSpace\<close> compares the codes, so every I/O error makes the log roll.\<close>

definition PersistSnapshot ::
    "'d backend \<Rightarrow> ZenMetaLog \<Rightarrow> ('d, 'x) zenfs \<Rightarrow> (status \<times> ('d, 'x) zenfs) option" where
  "PersistSnapshot be ml fs =
     do {
       (s, fs1) \<leftarrow> WriteSnapshotLocked be ml fs;
       (if status_eq s NoSpace then RollMetaZoneLocked be fs1 else Some (s, fs1))
     }"

definition PersistRecord ::
    "'d backend \<Rightarrow> bytes \<Rightarrow> ('d, 'x) zenfs \<Rightarrow> (status \<times> ('d, 'x) zenfs) option" where
  "PersistRecord be rec fs =
     do {
       ml \<leftarrow> meta_log fs;
       (s, dev) \<leftarrow> AddRecord be rec ml (fs_dev fs);
       let fs1 = fs\<lparr>fs_dev := dev\<rparr>;
       (if status_eq s NoSpace then RollMetaZoneLocked be fs1 else Some (s, fs1))
     }"

definition update_record :: "bool \<Rightarrow> ZoneFile \<Rightarrow> bytes" where
  "update_record replace zf =
     PutLengthPrefixedSlice (PutFixed32 [] (if replace then kFileReplace else kFileUpdate)) (EncodeUpdateTo [] zf)"

definition SyncFileMetadataNoLock ::
    "'d backend \<Rightarrow> nat \<Rightarrow> bool \<Rightarrow> ('d, 'x) zenfs \<Rightarrow> (status \<times> ('d, 'x) zenfs) option" where
  "SyncFileMetadataNoLock be a replace fs =
     (if is_deleted (obj fs a) then Some (OK, fs)
      else
        do {
          let fs1 = (if replace then fs else upd_obj a (\<lambda>zf. zf\<lparr>m_time := clock fs\<rparr>) fs);
          (s, fs2) \<leftarrow> PersistRecord be (update_record replace (obj fs1 a)) fs1;
          Some (s, if ok s then upd_obj a MetadataSynced fs2 else fs2)
        })"

definition SyncFileMetadata ::
    "'d backend \<Rightarrow> nat \<Rightarrow> bool \<Rightarrow> ('d, 'x) zenfs \<Rightarrow> (status \<times> ('d, 'x) zenfs) option" where
  "SyncFileMetadata be a replace fs = SyncFileMetadataNoLock be a replace fs"

text \<open>
  \<^verbatim>\<open>ZenFSMetadataWriter::Persist\<close> on the object at \<open>a\<close>: the state a file operation works on is put
  back into the file system and taken out again.
\<close>

definition enter :: "nat \<Rightarrow> ('d, 'x) zenfs \<Rightarrow> ('d, ('d, 'x) zenfs) fenv" where
  "enter a fs = \<lparr> f_file = obj fs a, f_dev = fs_dev fs, f_meta = fs \<rparr>"

definition leave :: "nat \<Rightarrow> ('d, ('d, 'x) zenfs) fenv \<Rightarrow> ('d, 'x) zenfs" where
  "leave a st = (f_meta st)\<lparr>fs_dev := f_dev st, objs := (objs (f_meta st))(a \<mapsto> f_file st)\<rparr>"

definition Persist :: "'d backend \<Rightarrow> nat \<Rightarrow> ('d, ('d, 'x) zenfs) persist" where
  "Persist be a st =
     map_option (\<lambda>(s, fs). (s, enter a fs)) (SyncFileMetadata be a False (leave a st))"

text \<open>\<^verbatim>\<open>old_extents[i]\<close> and \<^verbatim>\<open>new_extents[i]\<close> side by side: what moved gives its old space back.\<close>

definition SyncFileExtents ::
    "'d backend \<Rightarrow> nat \<Rightarrow> ZoneExtent list \<Rightarrow> ('d, 'x) zenfs \<Rightarrow> (status \<times> ('d, 'x) zenfs) option" where
  "SyncFileExtents be a new_extents fs =
     (let old_extents = extents (obj fs a) in
      do {
        (s, fs1) \<leftarrow> SyncFileMetadata be a True
                     (upd_obj a (\<lambda>zf. MetadataUnsynced (ReplaceExtentList new_extents zf)) fs);
        (if \<not> ok s then Some (s, fs1)
         else if length old_extents < length new_extents then None
         else Some (OK, fs1\<lparr>fs_dev :=
                fold (\<lambda>(old, new) dev. if e_start old \<noteq> e_start new
                                       then add_used (e_zone old) (- e_length old) dev else dev)
                  (zip old_extents new_extents) (fs_dev fs1)\<rparr>))
      })"

section \<open>Looking up and deleting files\<close>

definition GetFileNoLock :: "bytes \<Rightarrow> ('d, 'x) zenfs \<Rightarrow> nat option" where
  "GetFileNoLock fname fs = mfind (FormatPathLexically fname) (files fs)"

definition GetFile :: "bytes \<Rightarrow> ('d, 'x) zenfs \<Rightarrow> nat option" where
  "GetFile fname fs = GetFileNoLock fname fs"

definition ToAuxPath :: "bytes \<Rightarrow> ('d, 'x) zenfs \<Rightarrow> bytes option" where
  "ToAuxPath path fs = map_option (\<lambda>sb. GetAuxFsPath sb @ path) (superblock fs)"

text \<open>An operation of the auxiliary file system that changes its state.\<close>

definition on_aux :: "('x \<Rightarrow> status \<times> 'x) \<Rightarrow> ('d, 'x) zenfs \<Rightarrow> status \<times> ('d, 'x) zenfs" where
  "on_aux f fs = (case f (aux fs) of (s, x) \<Rightarrow> (s, fs\<lparr>aux := x\<rparr>))"

definition EncodeFileDeletionTo :: "ZoneFile \<Rightarrow> bytes \<Rightarrow> bytes \<Rightarrow> bytes" where
  "EncodeFileDeletionTo zf output linkf =
     (let file_string = PutLengthPrefixedSlice (PutFixed64 [] (file_id zf)) linkf
      in PutLengthPrefixedSlice (PutFixed32 output kFileDeletion) file_string)"

text \<open>What happens to an object once its last name is gone.\<close>

definition drop_object ::
    "'d backend \<Rightarrow> bytes \<Rightarrow> nat \<Rightarrow> ('d, 'x) zenfs \<Rightarrow> ('d, 'x) zenfs option" where
  "drop_object be fname a fs =
     (let fs1 = upd_obj a (\<lambda>zf. zf\<lparr>is_deleted := True\<rparr>) fs in
      do {
        fs2 \<leftarrow> (if ends_with fname (str ''.log'')
                 then do {
                   (s, zf, dev) \<leftarrow> ResetWALZones be (obj fs1 a) (fs_dev fs1);
                   Some (upd_obj a (\<lambda>_. zf) (fs1\<lparr>fs_dev := dev\<rparr>))
                 }
                 else Some fs1);
        Some (release be a fs2)
      })"

definition DeleteFileNoLock ::
    "'d backend \<Rightarrow> 'x aux_fs \<Rightarrow> bytes \<Rightarrow> ('d, 'x) zenfs \<Rightarrow> (status \<times> ('d, 'x) zenfs) option" where
  "DeleteFileNoLock be ax fname0 fs =
     (let fname = FormatPathLexically fname0 in
      case GetFileNoLock fname fs of
        None \<Rightarrow> do { p \<leftarrow> ToAuxPath fname fs; Some (on_aux (aux_DeleteFile ax p) fs) }
      | Some a \<Rightarrow>
          (let fs1 = fs\<lparr>files := merase fname (files fs)\<rparr> in
           case RemoveLinkName fname (obj fs1 a) of
             (s, zf1) \<Rightarrow>
               if \<not> ok s then Some (s, release be a fs1)
               else
                 do {
                   (s2, fs3) \<leftarrow> PersistRecord be (EncodeFileDeletionTo zf1 [] fname) (upd_obj a (\<lambda>_. zf1) fs1);
                   (if \<not> ok s2
                    then Some (s2, upd_obj a (AddLinkName fname) (fs3\<lparr>files := minsert fname a (files fs3)\<rparr>))
                    else if GetNrLinks (obj fs3 a) > 0 then Some (s2, release be a fs3)
                    else do { fs4 \<leftarrow> drop_object be fname a fs3; Some (s2, fs4) })
                 }))"

definition reset_unused ::
    "'d backend \<Rightarrow> ('d, 'x) zenfs \<Rightarrow> status \<times> ('d, 'x) zenfs" where
  "reset_unused be fs =
     (case ResetUnusedIOZones be (fs_dev fs) of (s, dev) \<Rightarrow> (s, fs\<lparr>fs_dev := dev\<rparr>))"

definition DeleteFile ::
    "'d backend \<Rightarrow> 'x aux_fs \<Rightarrow> bytes \<Rightarrow> ('d, 'x) zenfs \<Rightarrow> (status \<times> ('d, 'x) zenfs) option" where
  "DeleteFile be ax fname fs =
     do {
       (s, fs1) \<leftarrow> DeleteFileNoLock be ax fname fs;
       Some (if ok s then reset_unused be fs1 else (s, fs1))
     }"

section \<open>Opening files\<close>

text \<open>An open file refers to its object until it is closed and destroyed.\<close>

definition hold_handle :: "nat \<Rightarrow> ('d, 'x) zenfs \<Rightarrow> ('d, 'x) zenfs" where
  "hold_handle a fs = fs\<lparr>handles := (handles fs)(a := handles fs a + 1)\<rparr>"

definition drop_handle :: "'d backend \<Rightarrow> nat \<Rightarrow> ('d, 'x) zenfs \<Rightarrow> ('d, 'x) zenfs" where
  "drop_handle be a fs = release be a (fs\<lparr>handles := (handles fs)(a := handles fs a - 1)\<rparr>)"

definition new_file :: "bytes \<Rightarrow> bool \<Rightarrow> ('d, 'x) zenfs \<Rightarrow> nat \<times> ('d, 'x) zenfs" where
  "new_file fname use_direct_writes fs =
     (let a = next_obj fs;
          zf0 = AddLinkName fname ((newZoneFile (next_file_id fs))\<lparr>m_time := clock fs\<rparr>);
          zf = (if ends_with fname (str ''.log'')
                then (SetIOType kWAL zf0)\<lparr>is_sparse := \<not> use_direct_writes\<rparr>
                else SetIOType kUnknown zf0)
      in (a, fs\<lparr>next_obj := a + 1, next_file_id := next_file_id fs + 1, objs := (objs fs)(a \<mapsto> zf)\<rparr>))"

definition create_file ::
    "config \<Rightarrow> 'd backend \<Rightarrow> bytes \<Rightarrow> bool \<Rightarrow> ('d, 'x) zenfs \<Rightarrow>
     (status \<times> (nat \<times> ZonedWritableFile) option \<times> ('d, 'x) zenfs) option" where
  "create_file cfg be fname use_direct_writes fs =
     (case new_file fname use_direct_writes fs of
        (a, fs1) \<Rightarrow>
          do {
            (s, fs2) \<leftarrow> SyncFileMetadataNoLock be a False fs1;
            (if \<not> ok s then Some (s, None, release be a fs2)
             else
               do {
                 zf \<leftarrow> AcquireWRLock (obj fs2 a);
                 let fs3 = upd_obj a (\<lambda>_. zf) (fs2\<lparr>files := minsert fname a (files fs2)\<rparr>);
                 Some (s, Some (a, newZonedWritableFile cfg be (\<not> use_direct_writes) zf), hold_handle a fs3)
               })
          })"

definition OpenWritableFile ::
    "config \<Rightarrow> 'd backend \<Rightarrow> 'x aux_fs \<Rightarrow> bytes \<Rightarrow> bool \<Rightarrow> bool \<Rightarrow> ('d, 'x) zenfs \<Rightarrow>
     (status \<times> (nat \<times> ZonedWritableFile) option \<times> ('d, 'x) zenfs) option" where
  "OpenWritableFile cfg be ax filename use_direct_writes reopen fs =
     (let fname = FormatPathLexically filename in
      case GetFileNoLock fname fs of
        None \<Rightarrow> create_file cfg be fname use_direct_writes fs
      | Some a \<Rightarrow>
          if reopen then
            do {
              zf \<leftarrow> AcquireWRLock (obj fs a);
              Some (OK, Some (a, newZonedWritableFile cfg be (\<not> use_direct_writes) zf),
                    hold_handle a (upd_obj a (\<lambda>_. zf) fs))
            }
          else
            do {
              (s, fs1) \<leftarrow> DeleteFileNoLock be ax fname fs;
              (if \<not> ok s then Some (s, None, fs1)
               else
                 do {
                   (s2, res, fs2) \<leftarrow> create_file cfg be fname use_direct_writes fs1;
                   (if \<not> ok s2 then Some (s2, res, fs2)
                    else case reset_unused be fs2 of (s3, fs3) \<Rightarrow> Some (s3, res, fs3))
                 })
            })"

definition NewWritableFile ::
    "config \<Rightarrow> 'd backend \<Rightarrow> 'x aux_fs \<Rightarrow> bytes \<Rightarrow> bool \<Rightarrow> ('d, 'x) zenfs \<Rightarrow>
     (status \<times> (nat \<times> ZonedWritableFile) option \<times> ('d, 'x) zenfs) option" where
  "NewWritableFile cfg be ax filename use_direct_writes fs =
     OpenWritableFile cfg be ax (FormatPathLexically filename) use_direct_writes False fs"

definition ReopenWritableFile ::
    "config \<Rightarrow> 'd backend \<Rightarrow> 'x aux_fs \<Rightarrow> bytes \<Rightarrow> bool \<Rightarrow> ('d, 'x) zenfs \<Rightarrow>
     (status \<times> (nat \<times> ZonedWritableFile) option \<times> ('d, 'x) zenfs) option" where
  "ReopenWritableFile cfg be ax filename use_direct_writes fs =
     OpenWritableFile cfg be ax (FormatPathLexically filename) use_direct_writes True fs"

definition ReuseWritableFile ::
    "config \<Rightarrow> 'd backend \<Rightarrow> 'x aux_fs \<Rightarrow> bytes \<Rightarrow> bytes \<Rightarrow> bool \<Rightarrow> ('d, 'x) zenfs \<Rightarrow>
     (status \<times> (nat \<times> ZonedWritableFile) option \<times> ('d, 'x) zenfs) option" where
  "ReuseWritableFile cfg be ax filename old_filename use_direct_writes fs =
     (let fname = FormatPathLexically filename; old_fname = FormatPathLexically old_filename in
      if GetFile old_fname fs = None then Some (NotFound, None, fs)
      else
        do {
          (s, fs1) \<leftarrow> DeleteFile be ax old_fname fs;
          (if \<not> ok s then Some (s, None, fs1)
           else OpenWritableFile cfg be ax fname use_direct_writes False fs1)
        })"

text \<open>Closing: the destructor of the open file runs, and the reference is dropped.\<close>

definition CloseHandle ::
    "config \<Rightarrow> 'd backend \<Rightarrow> nat \<Rightarrow> ZonedWritableFile \<Rightarrow> ('d, 'x) zenfs \<Rightarrow> ('d, 'x) zenfs option" where
  "CloseHandle cfg be a w fs =
     map_option (\<lambda>st. drop_handle be a (leave a st))
       (delete_ZonedWritableFile cfg be (Persist be a) w (enter a fs))"

text \<open>\<open>None\<close> as the second component stands for a file of the auxiliary file system.\<close>

definition NewSequentialFile ::
    "bytes \<Rightarrow> bool \<Rightarrow> ('d, 'x) zenfs \<Rightarrow> status \<times> (nat \<times> ZonedSequentialFile) option \<times> ('d, 'x) zenfs" where
  "NewSequentialFile filename use_direct_reads fs =
     (case GetFile (FormatPathLexically filename) fs of
        None \<Rightarrow> (OK, None, fs)
      | Some a \<Rightarrow> (OK, Some (a, newZonedSequentialFile use_direct_reads (obj fs a)), hold_handle a fs))"

section \<open>Attributes\<close>

definition FileExists :: "'x aux_fs \<Rightarrow> bytes \<Rightarrow> ('d, 'x) zenfs \<Rightarrow> status option" where
  "FileExists ax filename fs =
     (let fname = FormatPathLexically filename in
      if GetFile fname fs = None
      then do { p \<leftarrow> ToAuxPath fname fs; Some (aux_FileExists ax p (aux fs)) }
      else Some OK)"

definition ZenFS_GetFileSize :: "'x aux_fs \<Rightarrow> bytes \<Rightarrow> ('d, 'x) zenfs \<Rightarrow> (status \<times> u64) option" where
  "ZenFS_GetFileSize ax filename fs =
     (let f = FormatPathLexically filename in
      case mfind f (files fs) of
        Some a \<Rightarrow> Some (OK, file_size (obj fs a))
      | None \<Rightarrow> do { p \<leftarrow> ToAuxPath f fs; Some (aux_GetFileSize ax p (aux fs)) })"

definition ZenFS_GetFileModificationTime ::
    "'x aux_fs \<Rightarrow> bytes \<Rightarrow> ('d, 'x) zenfs \<Rightarrow> (status \<times> u64) option" where
  "ZenFS_GetFileModificationTime ax filename fs =
     (let f = FormatPathLexically filename in
      case mfind f (files fs) of
        Some a \<Rightarrow> Some (OK, m_time (obj fs a))
      | None \<Rightarrow> do { p \<leftarrow> ToAuxPath f fs; Some (aux_GetFileModificationTime ax p (aux fs)) })"

definition NumFileLinks :: "'x aux_fs \<Rightarrow> bytes \<Rightarrow> ('d, 'x) zenfs \<Rightarrow> (status \<times> u64) option" where
  "NumFileLinks ax file fs =
     (let fname = FormatPathLexically file in
      case GetFileNoLock fname fs of
        Some a \<Rightarrow> Some (OK, ucast (GetNrLinks (obj fs a)))
      | None \<Rightarrow> do { p \<leftarrow> ToAuxPath fname fs; Some (aux_NumFileLinks ax p (aux fs)) })"

text \<open>The auxiliary file system is asked about the names as they are, without its path in front.\<close>

definition AreFilesSame :: "'x aux_fs \<Rightarrow> bytes \<Rightarrow> bytes \<Rightarrow> ('d, 'x) zenfs \<Rightarrow> status \<times> bool" where
  "AreFilesSame ax file linkf fs =
     (let fname = FormatPathLexically file; link = FormatPathLexically linkf in
      case (GetFileNoLock fname fs, GetFileNoLock link fs) of
        (Some a, Some b) \<Rightarrow> (OK, file_id (obj fs a) = file_id (obj fs b))
      | _ \<Rightarrow> aux_AreFilesSame ax fname link (aux fs))"

definition GetWriteLifeTimeHints :: "('d, 'x) zenfs \<Rightarrow> u32 name_map" where
  "GetWriteLifeTimeHints fs = map (\<lambda>(n, a). (n, zf_lifetime (obj fs a))) (files fs)"

section \<open>Links and renaming\<close>

definition LinkFile ::
    "'d backend \<Rightarrow> 'x aux_fs \<Rightarrow> bytes \<Rightarrow> bytes \<Rightarrow> ('d, 'x) zenfs \<Rightarrow> (status \<times> ('d, 'x) zenfs) option" where
  "LinkFile be ax file link fs =
     (let fname = FormatPathLexically file; lname = FormatPathLexically link in
      if GetFileNoLock lname fs \<noteq> None then Some (InvalidArgument, fs)
      else case GetFileNoLock fname fs of
        Some a \<Rightarrow>
          do {
            (s, fs2) \<leftarrow> SyncFileMetadataNoLock be a False
                         (upd_obj a (AddLinkName lname) (fs\<lparr>files := minsert lname a (files fs)\<rparr>));
            (if \<not> ok s then
               (case RemoveLinkName lname (obj fs2 a) of
                  (s', zf) \<Rightarrow>
                    if \<not> ok s' then Some (s', fs2)
                    else Some (s', upd_obj a (\<lambda>_. zf) (fs2\<lparr>files := merase lname (files fs2)\<rparr>)))
             else Some (s, fs2))
          }
      | None \<Rightarrow>
          do {
            p \<leftarrow> ToAuxPath fname fs;
            q \<leftarrow> ToAuxPath lname fs;
            Some (on_aux (aux_LinkFile ax p q) fs)
          })"

text \<open>Renaming a file of the zoned device, after a file with the new name is gone.\<close>

definition rename_entry ::
    "'d backend \<Rightarrow> bytes \<Rightarrow> bytes \<Rightarrow> nat \<Rightarrow> ('d, 'x) zenfs \<Rightarrow> (status \<times> ('d, 'x) zenfs) option" where
  "rename_entry be source_path dest_path a fs =
     (case RenameLink source_path dest_path (obj fs a) of
        (s, zf) \<Rightarrow>
          if \<not> ok s then Some (s, fs)
          else
            do {
              (s2, fs2) \<leftarrow> SyncFileMetadataNoLock be a False
                 (upd_obj a (\<lambda>_. zf)
                   (fs\<lparr>files := minsert dest_path a (merase source_path (files fs))\<rparr>));
              (if \<not> ok s2 then
                 (case RenameLink dest_path source_path (obj fs2 a) of
                    (s3, zf3) \<Rightarrow>
                      let fs3 = fs2\<lparr>files := merase dest_path (files fs2)\<rparr> in
                      if \<not> ok s3 then Some (s3, fs3)
                      else Some (s3, upd_obj a (\<lambda>_. zf3)
                                   (fs3\<lparr>files := minsert source_path a (files fs3)\<rparr>)))
               else Some (s2, fs2))
            })"

text \<open>\<^verbatim>\<open>source_file\<close> and \<^verbatim>\<open>existing_dest_file\<close> keep their objects alive until the end.\<close>

definition rename_zenfs_file ::
    "'d backend \<Rightarrow> 'x aux_fs \<Rightarrow> bytes \<Rightarrow> bytes \<Rightarrow> nat \<Rightarrow> ('d, 'x) zenfs \<Rightarrow>
     (status \<times> ('d, 'x) zenfs) option" where
  "rename_zenfs_file be ax source_path dest_path a fs =
     (case GetFileNoLock dest_path fs of
        None \<Rightarrow>
          do {
            (s, fs1) \<leftarrow> rename_entry be source_path dest_path a (hold_handle a fs);
            Some (s, drop_handle be a fs1)
          }
      | Some b \<Rightarrow>
          do {
            (s, fs1) \<leftarrow> DeleteFileNoLock be ax dest_path (hold_handle b (hold_handle a fs));
            (s2, fs2) \<leftarrow> (if \<not> ok s then Some (s, fs1)
                         else rename_entry be source_path dest_path a fs1);
            Some (s2, drop_handle be a (drop_handle be b fs2))
          })"

end
