(* ===== verification/Zenfs_Dir.thy ===== *)
theory Zenfs_Dir
  imports Zenfs
begin

text \<open>
  Directories (\<^verbatim>\<open>class ZenFS\<close>): they exist in the auxiliary file system only. Listing, recursive
  deletion, and renaming, which for a directory renames the files below it one by one.

  Renaming and recursive deletion call themselves on what lies below. The routines between two such
  calls take the call as an argument; the depth of the calls is bounded by a number, and exceeding
  the bound is \<open>None\<close>.
\<close>

section \<open>Listing\<close>

definition GetZenFSChildrenNoLock :: "bytes \<Rightarrow> bool \<Rightarrow> ('d, 'x) zenfs \<Rightarrow> bytes list" where
  "GetZenFSChildrenNoLock dir include_grandchildren fs =
     (let dir_sep = with_separator dir in
      concat (map
        (\<lambda>(path, a).
           (let file_dir = with_separator (parent_path path) in
            if starts_with file_dir dir_sep \<and> (include_grandchildren \<or> length file_dir = length dir_sep)
            then [drop (length dir_sep) path] else []))
        (files fs)))"

definition GetChildrenNoLock ::
    "'x aux_fs \<Rightarrow> bytes \<Rightarrow> ('d, 'x) zenfs \<Rightarrow> (status \<times> bytes list) option" where
  "GetChildrenNoLock ax dir_path fs =
     (let dir = FormatPathLexically dir_path in
      do {
        p \<leftarrow> ToAuxPath dir fs;
        (case aux_GetChildren ax p (aux fs) of
           (s, auxfiles) \<Rightarrow>
             if \<not> ok s then Some (if IsNotFound s then OK else s, [])
             else Some (s, filter (\<lambda>f. f \<noteq> dot \<and> f \<noteq> dotdot) auxfiles @ GetZenFSChildrenNoLock dir False fs))
      })"

definition GetChildren ::
    "'x aux_fs \<Rightarrow> bytes \<Rightarrow> ('d, 'x) zenfs \<Rightarrow> (status \<times> bytes list) option" where
  "GetChildren ax dir fs = GetChildrenNoLock ax dir fs"

definition IsDirectoryNoLock :: "'x aux_fs \<Rightarrow> bytes \<Rightarrow> ('d, 'x) zenfs \<Rightarrow> (status \<times> bool) option" where
  "IsDirectoryNoLock ax path fs =
     (if GetFileNoLock path fs \<noteq> None then Some (OK, False)
      else do { p \<leftarrow> ToAuxPath path fs; Some (aux_IsDirectory ax p (aux fs)) })"

section \<open>Deleting\<close>

definition DeleteDir ::
    "'x aux_fs \<Rightarrow> bytes \<Rightarrow> ('d, 'x) zenfs \<Rightarrow> (status \<times> ('d, 'x) zenfs) option" where
  "DeleteDir ax d fs =
     do {
       (s, children) \<leftarrow> GetChildren ax d fs;
       (if children \<noteq> [] then Some (IOError, fs)
        else do { p \<leftarrow> ToAuxPath d fs; Some (on_aux (aux_DeleteDir ax p) fs) })
     }"

fun DeleteDir_children ::
    "(bytes \<Rightarrow> ('d, 'x) zenfs \<Rightarrow> (status \<times> ('d, 'x) zenfs) option) \<Rightarrow> 'd backend \<Rightarrow> 'x aux_fs \<Rightarrow>
     bytes \<Rightarrow> bytes list \<Rightarrow> ('d, 'x) zenfs \<Rightarrow> (status \<times> ('d, 'x) zenfs) option" where
  "DeleteDir_children del be ax d [] fs = Some (OK, fs)"
| "DeleteDir_children del be ax d (child # cs) fs =
     (let f = path_append d child in
      do {
        (s, is_dir) \<leftarrow> IsDirectoryNoLock ax f fs;
        (if \<not> ok s then Some (s, fs)
         else
           do {
             (s1, fs1) \<leftarrow> (if is_dir then del f fs else DeleteFileNoLock be ax f fs);
             (if \<not> ok s1 then Some (s1, fs1) else DeleteDir_children del be ax d cs fs1)
           })
      })"

primrec DeleteDirRecursiveNoLock ::
    "'d backend \<Rightarrow> 'x aux_fs \<Rightarrow> nat \<Rightarrow> bytes \<Rightarrow> ('d, 'x) zenfs \<Rightarrow> (status \<times> ('d, 'x) zenfs) option" where
  "DeleteDirRecursiveNoLock be ax 0 = (\<lambda>dir fs. None)"
| "DeleteDirRecursiveNoLock be ax (Suc n) =
     (\<lambda>dir fs.
        let d = FormatPathLexically dir in
        do {
          (s, children) \<leftarrow> GetChildrenNoLock ax d fs;
          (if \<not> ok s then Some (s, fs)
           else
             do {
               (s1, fs1) \<leftarrow> DeleteDir_children (DeleteDirRecursiveNoLock be ax n) be ax d children fs;
               (if \<not> ok s1 then Some (s1, fs1)
                else do { p \<leftarrow> ToAuxPath d fs1; Some (on_aux (aux_DeleteDir ax p) fs1) })
             })
        })"

definition DeleteDirRecursive ::
    "'d backend \<Rightarrow> 'x aux_fs \<Rightarrow> nat \<Rightarrow> bytes \<Rightarrow> ('d, 'x) zenfs \<Rightarrow> (status \<times> ('d, 'x) zenfs) option" where
  "DeleteDirRecursive be ax depth d fs =
     do {
       (s, fs1) \<leftarrow> DeleteDirRecursiveNoLock be ax depth d fs;
       Some (if ok s then reset_unused be fs1 else (s, fs1))
     }"

section \<open>Renaming\<close>

type_synonym ('d, 'x) renaming = "bytes \<Rightarrow> bytes \<Rightarrow> ('d, 'x) zenfs \<Rightarrow> (status \<times> ('d, 'x) zenfs) option"

definition RenameChildNoLock ::
    "('d, 'x) renaming \<Rightarrow> bytes \<Rightarrow> bytes \<Rightarrow> bytes \<Rightarrow> ('d, 'x) zenfs \<Rightarrow> (status \<times> ('d, 'x) zenfs) option" where
  "RenameChildNoLock ren source_dir dest_dir child fs =
     ren (path_append source_dir child) (path_append dest_dir child) fs"

fun Rollback_children ::
    "('d, 'x) renaming \<Rightarrow> bytes \<Rightarrow> bytes \<Rightarrow> bytes list \<Rightarrow> ('d, 'x) zenfs \<Rightarrow>
     (status \<times> ('d, 'x) zenfs) option" where
  "Rollback_children ren source_path dest_path [] fs = Some (OK, fs)"
| "Rollback_children ren source_path dest_path (c # cs) fs =
     do {
       (s, fs1) \<leftarrow> RenameChildNoLock ren dest_path source_path c fs;
       (if \<not> ok s then Some (Corruption, fs1)
        else Rollback_children ren source_path dest_path cs fs1)
     }"

definition RollbackAuxDirRenameNoLock ::
    "('d, 'x) renaming \<Rightarrow> 'x aux_fs \<Rightarrow> bytes \<Rightarrow> bytes \<Rightarrow> bytes list \<Rightarrow> ('d, 'x) zenfs \<Rightarrow>
     (status \<times> ('d, 'x) zenfs) option" where
  "RollbackAuxDirRenameNoLock ren ax source_path dest_path renamed fs =
     do {
       (s, fs1) \<leftarrow> Rollback_children ren source_path dest_path renamed fs;
       (if \<not> ok s then Some (s, fs1)
        else
          do {
            p \<leftarrow> ToAuxPath dest_path fs1;
            q \<leftarrow> ToAuxPath source_path fs1;
            (case on_aux (aux_RenameFile ax p q) fs1 of
               (s2, fs2) \<Rightarrow> Some (if \<not> ok s2 then Corruption else s2, fs2))
          })
     }"

text \<open>The children still to rename, and those renamed already.\<close>

fun RenameChildren ::
    "('d, 'x) renaming \<Rightarrow> 'x aux_fs \<Rightarrow> bytes \<Rightarrow> bytes \<Rightarrow> bytes list \<Rightarrow> bytes list \<Rightarrow> ('d, 'x) zenfs \<Rightarrow>
     (status \<times> ('d, 'x) zenfs) option" where
  "RenameChildren ren ax source_path dest_path [] renamed fs = Some (OK, fs)"
| "RenameChildren ren ax source_path dest_path (c # cs) renamed fs =
     do {
       (s, fs1) \<leftarrow> RenameChildNoLock ren source_path dest_path c fs;
       (if \<not> ok s then
          do {
            (s2, fs2) \<leftarrow> RollbackAuxDirRenameNoLock ren ax source_path dest_path renamed fs1;
            Some (if \<not> ok s2 then s2 else s, fs2)
          }
        else RenameChildren ren ax source_path dest_path cs (renamed @ [c]) fs1)
     }"

definition RenameAuxPathNoLock ::
    "('d, 'x) renaming \<Rightarrow> 'x aux_fs \<Rightarrow> bytes \<Rightarrow> bytes \<Rightarrow> ('d, 'x) zenfs \<Rightarrow>
     (status \<times> ('d, 'x) zenfs) option" where
  "RenameAuxPathNoLock ren ax source_path dest_path fs =
     do {
       p \<leftarrow> ToAuxPath source_path fs;
       q \<leftarrow> ToAuxPath dest_path fs;
       (case on_aux (aux_RenameFile ax p q) fs of
          (s, fs1) \<Rightarrow>
            if \<not> ok s then Some (s, fs1)
            else RenameChildren ren ax source_path dest_path
                   (GetZenFSChildrenNoLock source_path True fs1) [] fs1)
     }"

definition RenameFile_step ::
    "('d, 'x) renaming \<Rightarrow> 'd backend \<Rightarrow> 'x aux_fs \<Rightarrow> ('d, 'x) renaming" where
  "RenameFile_step ren be ax src_path dst_path fs =
     (let source_path = FormatPathLexically src_path; dest_path = FormatPathLexically dst_path in
      case GetFileNoLock source_path fs of
        Some a \<Rightarrow> rename_zenfs_file be ax source_path dest_path a fs
      | None \<Rightarrow> RenameAuxPathNoLock ren ax source_path dest_path fs)"

primrec RenameFileNoLock :: "'d backend \<Rightarrow> 'x aux_fs \<Rightarrow> nat \<Rightarrow> ('d, 'x) renaming" where
  "RenameFileNoLock be ax 0 = RenameFile_step (\<lambda>src dst fs. None) be ax"
| "RenameFileNoLock be ax (Suc n) = RenameFile_step (RenameFileNoLock be ax n) be ax"

definition RenameFile ::
    "'d backend \<Rightarrow> 'x aux_fs \<Rightarrow> nat \<Rightarrow> bytes \<Rightarrow> bytes \<Rightarrow> ('d, 'x) zenfs \<Rightarrow>
     (status \<times> ('d, 'x) zenfs) option" where
  "RenameFile be ax depth source_path dest_path fs =
     do {
       (s, fs1) \<leftarrow> RenameFileNoLock be ax depth source_path dest_path fs;
       Some (if ok s then reset_unused be fs1 else (s, fs1))
     }"

end
