(* ===== verification/File_Frame.thy ===== *)
theory File_Frame
  imports Writable
begin

text \<open>
  What the routines of a file leave alone. A file's operations work on the file, the device and the
  metadata writer (\<^verbatim>\<open>class MetadataWriter\<close>); they never touch the names, the identity and the deletion
  mark of the file. An invariant that only depends on these and that the writer keeps is kept by
  every operation, so the contract of the writer is a locale and the routines are gone through once.
\<close>

definition file_key :: "ZoneFile \<Rightarrow> bytes list \<times> bool \<times> u64" where
  "file_key zf = (linkfiles zf, is_deleted zf, file_id zf)"

lemma file_key_updates [simp]:
  "file_key (zf\<lparr>active_zone := x1\<rparr>) = file_key zf" "file_key (zf\<lparr>extent_start := x2\<rparr>) = file_key zf"
  "file_key (zf\<lparr>extent_filepos := x3\<rparr>) = file_key zf" "file_key (zf\<lparr>extents := x4\<rparr>) = file_key zf"
  "file_key (zf\<lparr>wal := x5\<rparr>) = file_key zf" "file_key (zf\<lparr>wal_seq := x6\<rparr>) = file_key zf"
  "file_key (zf\<lparr>append_bytes_since_last_barrier := x7\<rparr>) = file_key zf"
  "file_key (zf\<lparr>file_size := x8\<rparr>) = file_key zf" "file_key (zf\<lparr>open_for_wr := x9\<rparr>) = file_key zf"
  "file_key (zf\<lparr>m_time := x10\<rparr>) = file_key zf" "file_key (zf\<lparr>nr_synced_extents := x11\<rparr>) = file_key zf"
  by (simp_all add: file_key_def)

lemma file_key_PushExtent [simp]: "file_key (fst (PushExtent zf dev)) = file_key zf"
  by (simp add: PushExtent_def Let_def split: option.splits)

lemma file_key_ReleaseWRLock [simp]: "file_key (ReleaseWRLock zf) = file_key zf"
  by (simp add: ReleaseWRLock_def)

locale metadata_writer =
  fixes persist :: "('d, 'm) persist" and inv :: "('d, 'm) fenv \<Rightarrow> bool"
  assumes persist_inv: "inv st \<Longrightarrow> persist st = Some (s, st') \<Longrightarrow> inv st'"
    and dev_inv: "inv st \<Longrightarrow> inv (st\<lparr>f_dev := dev\<rparr>)"
    and file_inv: "inv st \<Longrightarrow> file_key zf = file_key (f_file st) \<Longrightarrow> inv (st\<lparr>f_file := zf\<rparr>)"
begin

lemma upd_dev_inv: "inv st \<Longrightarrow> inv (upd_dev f st)"
  by (simp add: upd_dev_def dev_inv)

lemma upd_file_inv: "inv st \<Longrightarrow> file_key (f (f_file st)) = file_key (f_file st) \<Longrightarrow> inv (upd_file f st)"
  by (simp add: upd_file_def file_inv)

lemma both_inv: "inv st \<Longrightarrow> file_key zf = file_key (f_file st) \<Longrightarrow> inv (st\<lparr>f_file := zf, f_dev := dev\<rparr>)"
  using dev_inv [OF file_inv, of st zf dev] by simp

lemmas parts = upd_dev_inv upd_file_inv dev_inv file_inv both_inv

lemma ReleaseActiveZone_inv: "inv st \<Longrightarrow> inv (ReleaseActiveZone st)"
  by (auto simp: ReleaseActiveZone_def parts split: option.splits)

lemma WALSync_inv: "inv st \<Longrightarrow> inv (snd (WALSync be st))"
  by (auto simp: WALSync_def Let_def parts split: option.splits prod.splits)

lemma CloseActiveZone_inv: "inv st \<Longrightarrow> CloseActiveZone be st = (s, st') \<Longrightarrow> inv st'"
  by (auto simp: CloseActiveZone_def Let_def parts ReleaseActiveZone_inv split: option.splits prod.splits if_splits)

lemma AllocateNewZone_inv: "inv st \<Longrightarrow> AllocateNewZone be persist st = Some (s, st') \<Longrightarrow> inv st'"
  by (auto simp: AllocateNewZone_def Let_def parts elim!: persist_inv [rotated]
      split: option.splits prod.splits if_splits)

lemma with_zone_inv: "inv st \<Longrightarrow> with_zone be persist st = Some (s, st') \<Longrightarrow> inv st'"
  by (auto simp: with_zone_def intro: AllocateNewZone_inv split: if_splits)

lemma CloseWR_inv:
  assumes "inv st" and "CloseWR be persist st = Some (s, st')"
  shows "inv st'"
proof -
  obtain s1 st1 where p: "persist (upd_file (\<lambda>zf. zf\<lparr>extent_start := NO_EXTENT\<rparr>) st) = Some (s1, st1)"
      and r: "if ok s1 then CloseActiveZone be (upd_file ReleaseWRLock st1) = (s, st') else st' = st1"
    using assms(2) by (auto simp: CloseWR_def split: option.splits prod.splits if_splits)
  have "inv st1" by (rule persist_inv [OF upd_file_inv [OF assms(1)] p]) simp
  then have "inv (upd_file ReleaseWRLock st1)" by (simp add: upd_file_inv)
  then show ?thesis using r \<open>inv st1\<close> by (auto intro: CloseActiveZone_inv split: if_splits)
qed

lemma record_extent_inv: "inv st \<Longrightarrow> inv (record_extent r a n st)"
  by (simp add: record_extent_def Let_def parts)

lemma next_zone_inv:
  assumes "inv st" and "next_zone be persist hdr wr buf left r st = Some (s, b, l, st')"
  shows "inv st'"
proof -
  obtain s1 st1 where c: "CloseActiveZone be st = (s1, st1)" by force
  then have i: "inv st1" using assms(1) by (rule CloseActiveZone_inv [rotated])
  show ?thesis
    using assms c i by (auto simp: next_zone_def bind_eq_Some_conv intro: AllocateNewZone_inv split: if_splits)
qed

lemma sparse_barrier_inv: "inv st \<Longrightarrow> sparse_barrier cfg be st = (s, st') \<Longrightarrow> inv st'"
  using WALSync_inv [of st be]
  by (cases "WALSync be st") (auto simp: sparse_barrier_def intro: upd_file_inv split: if_splits)

lemma sparse_write_inv: "inv st \<Longrightarrow> sparse_write be r data n st = Some (s, st') \<Longrightarrow> inv st'"
  by (auto simp: sparse_write_def bind_eq_Some_conv Let_def parts case_prod_beta split: if_splits)

lemma SparseAppend_step_inv:
  assumes "inv st" and "SparseAppend_step cfg be persist buf left st = Some (s, b, l, st')"
  shows "inv st'"
proof -
  obtain s0 st0 where b: "sparse_barrier cfg be st = (s0, st0)" by force
  then have i: "inv st0" using assms(1) by (rule sparse_barrier_inv [rotated])
  show ?thesis
  proof (cases "ok s0")
    case False
    then show ?thesis using assms(2) b i by (simp add: SparseAppend_step_def)
  next
    case True
    obtain r data n s1 st1 where w:
      "sparse_write be r data n (upd_file (\<lambda>zf. zf\<lparr>wal_seq := wal_seq zf + 1\<rparr>) st0) = Some (s1, st1)"
      "st' = st1 \<or> (\<exists>h wr buf' left' a m. next_zone be persist h wr buf' left' r (record_extent r a m st1) = Some (s, b, l, st'))"
      using assms(2) b True
      by (auto simp: SparseAppend_step_def bind_eq_Some_conv Let_def split: if_splits) blast+
    have "inv st1" by (rule sparse_write_inv [OF upd_file_inv [OF i] w(1)]) simp
    then show ?thesis using w(2) by (auto intro: next_zone_inv record_extent_inv)
  qed
qed

lemma SparseAppend_loop_inv:
  "inv st \<Longrightarrow> SparseAppend_loop cfg be persist buf left st = Some (s, b, st') \<Longrightarrow> inv st'"
proof -
  have "persist = persist \<longrightarrow> inv st \<longrightarrow> inv (snd (snd y))"
    if "SparseAppend_loop cfg be persist buf left st = Some y" for y
    by (rule SparseAppend_loop.raw_induct [OF _ that,
          where P = "\<lambda>cfg be p buf left st y. p = persist \<longrightarrow> inv st \<longrightarrow> inv (snd (snd y))"])
      (auto simp: bind_eq_Some_conv split: if_splits dest: SparseAppend_step_inv)
  then show "inv st \<Longrightarrow> SparseAppend_loop cfg be persist buf left st = Some (s, b, st') \<Longrightarrow> inv st'"
    by fastforce
qed

lemma SparseAppend_inv: "inv st \<Longrightarrow> SparseAppend cfg be persist buf n st = Some (s, b, st') \<Longrightarrow> inv st'"
  by (auto simp: SparseAppend_def bind_eq_Some_conv split: if_splits dest: with_zone_inv SparseAppend_loop_inv)

lemma BufferedAppend_step_inv:
  assumes "inv st" and "BufferedAppend_step cfg be persist buf left st = Some (s, b, l, st')"
  shows "inv st'"
proof -
  have tail: "inv st'"
    if "inv st1" and "(if s1 \<noteq> OK then Some (s1, buf1, left, st1)
        else next_zone be persist 0 wr buf1 left' r (record_extent r a n st1)) = Some (s, b, l, st')"
    for s1 st1 buf1 wr r a n left'
    using that by (auto intro: next_zone_inv record_extent_inv split: if_splits)
  show ?thesis
    using assms(2)
    by (cases "is_wal (f_file st)")
      (clarsimp simp: BufferedAppend_step_def bind_eq_Some_conv Let_def, erule tail [rotated],
        clarsimp simp: case_prod_beta parts assms(1))+
qed

lemma BufferedAppend_loop_inv:
  "inv st \<Longrightarrow> BufferedAppend_loop cfg be persist buf left st = Some (s, b, st') \<Longrightarrow> inv st'"
proof -
  have "persist = persist \<longrightarrow> inv st \<longrightarrow> inv (snd (snd y))"
    if "BufferedAppend_loop cfg be persist buf left st = Some y" for y
    by (rule BufferedAppend_loop.raw_induct [OF _ that,
          where P = "\<lambda>cfg be p buf left st y. p = persist \<longrightarrow> inv st \<longrightarrow> inv (snd (snd y))"])
      (auto simp: bind_eq_Some_conv split: if_splits dest: BufferedAppend_step_inv)
  then show "inv st \<Longrightarrow> BufferedAppend_loop cfg be persist buf left st = Some (s, b, st') \<Longrightarrow> inv st'"
    by fastforce
qed

lemma BufferedAppend_inv: "inv st \<Longrightarrow> BufferedAppend cfg be persist buf n st = Some (s, b, st') \<Longrightarrow> inv st'"
  by (auto simp: BufferedAppend_def bind_eq_Some_conv split: if_splits dest: with_zone_inv BufferedAppend_loop_inv)

lemma Append_full_inv:
  assumes "inv st" and "Append_full be persist st = Some (s, st')"
  shows "inv st'"
proof -
  obtain zf dev where p: "PushExtent (f_file st) (f_dev st) = (zf, dev)" by force
  then have "file_key zf = file_key (f_file st)" using file_key_PushExtent [of "f_file st" "f_dev st"] by simp
  then have i: "inv (st\<lparr>f_file := zf, f_dev := dev\<rparr>)" by (rule both_inv [OF assms(1)])
  obtain s1 st1 where c: "CloseActiveZone be (st\<lparr>f_file := zf, f_dev := dev\<rparr>) = (s1, st1)" by force
  then have "inv st1" using i by (rule CloseActiveZone_inv [rotated])
  then show ?thesis
    using assms p c by (auto simp: Append_full_def bind_eq_Some_conv intro: AllocateNewZone_inv split: if_splits)
qed

lemma Append_step_inv:
  assumes "inv st" and "Append_step be persist data left offset st = Some (s, l, off, st')"
  shows "inv st'"
proof -
  obtain s1 st1 where f: "Append_full be persist st = Some (s1, st1)"
    using assms(2) by (auto simp: Append_step_def bind_eq_Some_conv)
  then have i: "inv st1" using assms(1) by (rule Append_full_inv [rotated])
  then have put: "inv (st1\<lparr>f_dev := dev\<rparr>)" "inv (upd_file (\<lambda>zf. zf\<lparr>file_size := g zf\<rparr>) (st1\<lparr>f_dev := dev\<rparr>))" for dev g
    by (simp_all add: parts)
  show ?thesis
    using assms(2) f i
    by (auto simp: Append_step_def bind_eq_Some_conv Let_def put split: if_splits)
qed

lemma Append_loop_inv:
  "inv st \<Longrightarrow> Append_loop be persist data left off st = Some (s, st') \<Longrightarrow> inv st'"
proof -
  have "persist = persist \<longrightarrow> inv st \<longrightarrow> inv (snd y)"
    if "Append_loop be persist data left off st = Some y" for y
    by (rule Append_loop.raw_induct [OF _ that,
          where P = "\<lambda>be p data left off st y. p = persist \<longrightarrow> inv st \<longrightarrow> inv (snd y)"])
      (auto simp: bind_eq_Some_conv split: if_splits dest: Append_step_inv)
  then show "inv st \<Longrightarrow> Append_loop be persist data left off st = Some (s, st') \<Longrightarrow> inv st'"
    by fastforce
qed

lemma ZoneFile_Append_inv: "inv st \<Longrightarrow> ZoneFile_Append be persist data st = Some (s, st') \<Longrightarrow> inv st'"
  by (auto simp: ZoneFile_Append_def bind_eq_Some_conv split: if_splits dest: with_zone_inv Append_loop_inv)

text \<open>The file object.\<close>

lemma FlushBuffer_inv: "inv st \<Longrightarrow> FlushBuffer cfg be persist w st = Some (s, w', st') \<Longrightarrow> inv st'"
  by (auto simp: FlushBuffer_def bind_eq_Some_conv Let_def split: if_splits dest: SparseAppend_inv BufferedAppend_inv)

lemma BufferedWrite_step_inv:
  "inv st \<Longrightarrow> BufferedWrite_step cfg be persist data left w st = Some (s, d, l, w', st') \<Longrightarrow> inv st'"
  by (auto simp: BufferedWrite_step_def bind_eq_Some_conv Let_def split: if_splits dest: FlushBuffer_inv)

lemma BufferedWrite_loop_inv:
  "inv st \<Longrightarrow> BufferedWrite_loop cfg be persist data left w st = Some (s, w', st') \<Longrightarrow> inv st'"
proof -
  have "persist = persist \<longrightarrow> inv st \<longrightarrow> inv (snd (snd y))"
    if "BufferedWrite_loop cfg be persist data left w st = Some y" for y
    by (rule BufferedWrite_loop.raw_induct [OF _ that,
          where P = "\<lambda>cfg be p data left w st y. p = persist \<longrightarrow> inv st \<longrightarrow> inv (snd (snd y))"])
      (auto simp: bind_eq_Some_conv split: if_splits dest: BufferedWrite_step_inv)
  then show "inv st \<Longrightarrow> BufferedWrite_loop cfg be persist data left w st = Some (s, w', st') \<Longrightarrow> inv st'"
    by fastforce
qed

lemma ZonedWritableFile_Append_inv:
  "inv st \<Longrightarrow> ZonedWritableFile_Append cfg be persist data w st = Some (s, w', st') \<Longrightarrow> inv st'"
  by (auto simp: ZonedWritableFile_Append_def BufferedWrite_def bind_eq_Some_conv split: if_splits
      dest: BufferedWrite_loop_inv ZoneFile_Append_inv)

lemma DataSync_inv:
  assumes "inv st" and "DataSync cfg be persist w st = Some (s, w', st')"
  shows "inv st'"
proof -
  define st0 where "st0 = (if is_wal (f_file st) then snd (WALSync be st) else st)"
  have i: "inv st0" using assms(1) by (simp add: st0_def WALSync_inv)
  show ?thesis
  proof (cases "w_buffered w")
    case True
    then show ?thesis
      using assms(2) i unfolding DataSync_def Let_def st0_def [symmetric]
      by (auto simp: bind_eq_Some_conv split: if_splits dest: FlushBuffer_inv persist_inv)
  next
    case False
    obtain zf dev where p: "PushExtent (f_file st0) (f_dev st0) = (zf, dev)" by force
    then have "file_key zf = file_key (f_file st0)" using file_key_PushExtent [of "f_file st0" "f_dev st0"] by simp
    then show ?thesis
      using assms(2) False i p unfolding DataSync_def Let_def st0_def [symmetric] by (auto simp: both_inv)
  qed
qed

lemma Fsync_inv: "inv st \<Longrightarrow> Fsync cfg be persist w st = Some (s, w', st') \<Longrightarrow> inv st'"
  by (auto simp: Fsync_def bind_eq_Some_conv split: if_splits dest: DataSync_inv persist_inv)

lemma CloseInternal_inv: "inv st \<Longrightarrow> CloseInternal cfg be persist w st = Some (s, w', st') \<Longrightarrow> inv st'"
  by (auto simp: CloseInternal_def bind_eq_Some_conv split: if_splits dest: DataSync_inv CloseWR_inv)

lemma delete_ZonedWritableFile_inv:
  "inv st \<Longrightarrow> delete_ZonedWritableFile cfg be persist w st = Some st' \<Longrightarrow> inv st'"
  by (auto simp: delete_ZonedWritableFile_def bind_eq_Some_conv parts split: if_splits dest: CloseInternal_inv)

end

end
