(* ===== verification/Zenfs_Names.thy ===== *)
theory Zenfs_Names
  imports Zenfs_Dir File_Frame
begin

text \<open>
  The name space of the file system. The table of files and the link names in the file objects
  describe the same thing twice; every operation of \<^verbatim>\<open>class ZenFS\<close> keeps them in agreement, keeps
  exactly the objects alive that something refers to, and keeps file ids unique. The operations act on
  the table as an abstract directory prescribes.
\<close>

section \<open>What persisting leaves alone\<close>

definition same_names :: "('d, 'x) zenfs \<Rightarrow> ('d, 'x) zenfs \<Rightarrow> bool" where
  "same_names fs fs' \<longleftrightarrow>
     files fs' = files fs \<and> next_obj fs' = next_obj fs \<and> handles fs' = handles fs \<and>
     next_file_id fs' = next_file_id fs \<and>
     (\<forall>b. map_option file_key (objs fs' b) = map_option file_key (objs fs b))"

definition live :: "('d, 'x) zenfs \<Rightarrow> bool" where
  "live fs \<longleftrightarrow> (\<forall>a \<in> snd ` set (files fs). objs fs a \<noteq> None)"

lemma same_names_refl [simp]: "same_names fs fs"
  by (simp add: same_names_def)

lemma same_names_trans: "same_names a b \<Longrightarrow> same_names b c \<Longrightarrow> same_names a c"
  by (simp add: same_names_def)

lemma same_names_None: "same_names fs fs' \<Longrightarrow> objs fs' a = None \<longleftrightarrow> objs fs a = None"
  by (metis option.map_disc_iff same_names_def)

lemma same_names_live: "same_names fs fs' \<Longrightarrow> live fs' = live fs"
  using same_names_None [of fs fs'] by (auto simp: live_def same_names_def)

lemma same_names_obj:
  assumes "same_names fs fs'" and "objs fs a = Some zf"
  obtains zf' where "objs fs' a = Some zf'" "file_key zf' = file_key zf" "obj fs' a = zf'"
  using assms by (metis obj_def option.map_disc_iff option.map_sel option.sel option.exhaust_sel option.distinct(1) same_names_def)

lemma same_names_fields [simp]:
  "same_names fs (fs'\<lparr>fs_dev := v1\<rparr>) = same_names fs fs'" "same_names fs (fs'\<lparr>meta_log := v2\<rparr>) = same_names fs fs'"
  "same_names fs (fs'\<lparr>superblock := v3\<rparr>) = same_names fs fs'" "same_names fs (fs'\<lparr>aux := v4\<rparr>) = same_names fs fs'"
  "same_names (fs\<lparr>fs_dev := v1\<rparr>) fs' = same_names fs fs'" "same_names (fs\<lparr>meta_log := v2\<rparr>) fs' = same_names fs fs'"
  "same_names (fs\<lparr>superblock := v3\<rparr>) fs' = same_names fs fs'" "same_names (fs\<lparr>aux := v4\<rparr>) fs' = same_names fs fs'"
  by (simp_all add: same_names_def)

lemma same_names_upd_obj:
  "objs fs a \<noteq> None \<Longrightarrow> file_key (f (obj fs a)) = file_key (obj fs a) \<Longrightarrow> same_names fs (upd_obj a f fs)"
  by (auto simp: same_names_def upd_obj_def obj_def)

lemma same_names_synced:
  "\<forall>a \<in> snd ` set m. objs fs a \<noteq> None \<Longrightarrow> same_names fs (fold (\<lambda>(n, a). upd_obj a MetadataSynced) m fs)"
proof (induction m arbitrary: fs)
  case (Cons e m)
  have s: "same_names fs (upd_obj (snd e) MetadataSynced fs)"
    using Cons.prems by (intro same_names_upd_obj) (simp_all add: MetadataSynced_def)
  then have "same_names (upd_obj (snd e) MetadataSynced fs)
      (fold (\<lambda>(n, a). upd_obj a MetadataSynced) m (upd_obj (snd e) MetadataSynced fs))"
    using Cons.prems same_names_None [OF s] by (intro Cons.IH) auto
  then show ?case using same_names_trans [OF s] by (cases e) simp
qed simp

lemma WriteSnapshotLocked_same:
  assumes "live fs" and "WriteSnapshotLocked be ml fs = Some (s, fs')"
  shows "same_names fs fs'"
proof -
  obtain dev where "fs' = fold (\<lambda>(n, a). upd_obj a MetadataSynced) (files fs) (fs\<lparr>fs_dev := dev\<rparr>) \<or> fs' = fs\<lparr>fs_dev := dev\<rparr>"
    using assms(2) by (auto simp: WriteSnapshotLocked_def bind_eq_Some_conv Let_def split: if_splits)
  moreover have "same_names (fs\<lparr>fs_dev := dev\<rparr>) (fold (\<lambda>(n, a). upd_obj a MetadataSynced) (files fs) (fs\<lparr>fs_dev := dev\<rparr>))"
    using assms(1) by (intro same_names_synced) (simp add: live_def)
  ultimately show ?thesis by auto
qed

lemma end_old_log_same: "end_old_log be ml fs = Some fs' \<Longrightarrow> same_names fs fs'"
  by (auto simp: end_old_log_def WriteEndRecord_def bind_eq_Some_conv Let_def split: if_splits prod.splits)

lemma RollMetaZoneLocked_same:
  assumes "live fs" and "RollMetaZoneLocked be fs = Some (s, fs')"
  shows "same_names fs fs'"
proof (rule ccontr)
  assume no: "\<not> same_names fs fs'"
  obtain s1 zone dev1 where a: "AllocateMetaZone be (fs_dev fs) = (s1, zone, dev1)" by (metis prod_cases3)
  with assms(2) no obtain r where r: "ok s1" "zone = Some r"
    by (auto simp: RollMetaZoneLocked_def split: if_splits option.splits)
  obtain old fs2 where e: "end_old_log be old (fs\<lparr>fs_dev := dev1, meta_log := Some (newZenMetaLog r dev1)\<rparr>) = Some fs2"
      "meta_log fs = Some old"
    using assms(2) a r by (auto simp: RollMetaZoneLocked_def bind_eq_Some_conv Let_def)
  have s2: "same_names fs fs2" using end_old_log_same [OF e(1)] by simp
  obtain sb s3 dev3 where d: "superblock fs2 = Some sb"
      "AddRecord be (fst (Superblock_EncodeTo sb)) (newZenMetaLog r dev1) (fs_dev fs2) = Some (s3, dev3)"
    using assms(2) a r e by (auto simp: RollMetaZoneLocked_def bind_eq_Some_conv Let_def case_prod_beta)
  define fs3 where "fs3 = fs2\<lparr>superblock := Some (snd (Superblock_EncodeTo sb)), fs_dev := dev3\<rparr>"
  have s3: "same_names fs fs3" using s2 by (simp add: fs3_def)
  with assms(2) a r e d no obtain fs4 dev5 where w: "WriteSnapshotLocked be (newZenMetaLog r dev1) fs3 = Some (s, fs4)"
      "fs' = fs4\<lparr>fs_dev := dev5\<rparr>"
    by (auto simp: RollMetaZoneLocked_def bind_eq_Some_conv Let_def case_prod_beta fs3_def split: if_splits)
  have "same_names fs3 fs4" using w(1) same_names_live [OF s3] assms(1) by (auto intro: WriteSnapshotLocked_same)
  then show False using no w(2) same_names_trans [OF s3] by simp
qed

lemma PersistRecord_same:
  assumes "live fs" and "PersistRecord be rec fs = Some (s, fs')"
  shows "same_names fs fs'"
proof -
  obtain dev where p: "RollMetaZoneLocked be (fs\<lparr>fs_dev := dev\<rparr>) = Some (s, fs') \<or> fs' = fs\<lparr>fs_dev := dev\<rparr>"
    using assms(2) by (auto simp: PersistRecord_def bind_eq_Some_conv Let_def split: if_splits)
  have "live (fs\<lparr>fs_dev := dev\<rparr>)" using assms(1) by (simp add: live_def)
  then show ?thesis using p RollMetaZoneLocked_same [of "fs\<lparr>fs_dev := dev\<rparr>" be s fs'] by auto
qed

lemma SyncFileMetadataNoLock_same:
  assumes l: "live fs" and a: "objs fs a \<noteq> None" and run: "SyncFileMetadataNoLock be a replace fs = Some (s, fs')"
  shows "same_names fs fs'"
proof (cases "is_deleted (obj fs a)")
  case True
  then show ?thesis using run by (simp add: SyncFileMetadataNoLock_def)
next
  case False
  define fs1 where "fs1 = (if replace then fs else upd_obj a (\<lambda>zf. zf\<lparr>m_time := clock fs\<rparr>) fs)"
  have s1: "same_names fs fs1" using a by (auto simp: fs1_def intro: same_names_upd_obj)
  obtain fs2 where p: "PersistRecord be (update_record replace (obj fs1 a)) fs1 = Some (s, fs2)"
      "fs' = (if ok s then upd_obj a MetadataSynced fs2 else fs2)"
    using run False by (auto simp: SyncFileMetadataNoLock_def fs1_def bind_eq_Some_conv Let_def)
  have s2: "same_names fs fs2"
    using PersistRecord_same [OF _ p(1)] same_names_live [OF s1] l same_names_trans [OF s1] by simp
  then have "same_names fs2 (upd_obj a MetadataSynced fs2)"
    using a same_names_None [OF s2] by (intro same_names_upd_obj) (auto simp: MetadataSynced_def)
  then show ?thesis using p(2) s2 same_names_trans [OF s2] by simp
qed

section \<open>File operations\<close>

text \<open>The file system's metadata writer, on the object at \<open>a\<close>, keeps the names.\<close>

lemma leave_enter: "objs fs a \<noteq> None \<Longrightarrow> leave a (enter a fs) = fs"
  by (auto simp: leave_def enter_def obj_def fun_upd_idem)

definition names_kept :: "nat \<Rightarrow> ('d, 'x) zenfs \<Rightarrow> ('d, ('d, 'x) zenfs) fenv \<Rightarrow> bool" where
  "names_kept a fs st \<longleftrightarrow> objs fs a \<noteq> None \<and> live fs \<and> same_names fs (leave a st)"

interpretation zenfs_writer: metadata_writer "Persist be a" "names_kept a fs" for be a fs
proof
  fix st s st'
  assume k: "names_kept a fs st" and run: "Persist be a st = Some (s, st')"
  then obtain fs' where f: "SyncFileMetadataNoLock be a False (leave a st) = Some (s, fs')" "st' = enter a fs'"
    by (auto simp: Persist_def SyncFileMetadata_def)
  have "same_names (leave a st) fs'"
    using k same_names_live [of fs "leave a st"] by (intro SyncFileMetadataNoLock_same [OF _ _ f(1)])
      (auto simp: names_kept_def leave_def)
  then have "same_names fs fs'" using k same_names_trans by (auto simp: names_kept_def)
  moreover have "objs fs' a \<noteq> None" using same_names_None [OF \<open>same_names fs fs'\<close>] k by (simp add: names_kept_def)
  ultimately show "names_kept a fs st'" using k f(2) by (simp add: names_kept_def leave_enter)
next
  fix st dev
  assume "names_kept a fs st"
  then show "names_kept a fs (st\<lparr>f_dev := dev\<rparr>)"
    by (simp add: names_kept_def leave_def same_names_def)
next
  fix st zf
  assume "names_kept a fs st" and "file_key zf = file_key (f_file st)"
  moreover from this have "map_option file_key (((objs (f_meta st))(a \<mapsto> zf)) b)
      = map_option file_key (((objs (f_meta st))(a \<mapsto> f_file st)) b)" for b by simp
  ultimately show "names_kept a fs (st\<lparr>f_file := zf\<rparr>)"
    by (simp add: names_kept_def leave_def same_names_def del: fun_upd_apply)
qed

lemma names_kept_enter: "objs fs a \<noteq> None \<Longrightarrow> live fs \<Longrightarrow> names_kept a fs (enter a fs)"
  by (simp add: names_kept_def leave_enter)

section \<open>The invariant\<close>

definition links_of :: "('d, 'x) zenfs \<Rightarrow> nat \<Rightarrow> bytes list" where
  "links_of fs a = (case objs fs a of None \<Rightarrow> [] | Some zf \<Rightarrow> linkfiles zf)"

text \<open>Of an object: its address and id were handed out, its names are formatted and differ, and it is marked deleted when it has none.\<close>

definition object_ok :: "('d, 'x) zenfs \<Rightarrow> nat \<Rightarrow> ZoneFile \<Rightarrow> bool" where
  "object_ok fs a zf \<longleftrightarrow>
     a < next_obj fs \<and> file_id zf < next_file_id fs \<and>
     distinct (linkfiles zf) \<and> length (linkfiles zf) < 2 ^ 32 \<and>
     (\<forall>n \<in> set (linkfiles zf). FormatPathLexically n = n) \<and>
     is_deleted zf = (linkfiles zf = [])"

definition unique_ids :: "('d, 'x) zenfs \<Rightarrow> bool" where
  "unique_ids fs \<longleftrightarrow>
     (\<forall>a b za zb. objs fs a = Some za \<longrightarrow> objs fs b = Some zb \<longrightarrow> file_id za = file_id zb \<longrightarrow> a = b)"

text \<open>The table and the link names agree, and open files have objects.\<close>

definition ns_core :: "('d, 'x) zenfs \<Rightarrow> bool" where
  "ns_core fs \<longleftrightarrow>
     map_inv (files fs) \<and>
     (\<forall>n a. mfind n (files fs) = Some a \<longleftrightarrow> n \<in> set (links_of fs a)) \<and>
     (\<forall>a zf. objs fs a = Some zf \<longrightarrow> object_ok fs a zf) \<and> unique_ids fs \<and>
     (\<forall>a. handles fs a > 0 \<longrightarrow> objs fs a \<noteq> None)"

definition held :: "('d, 'x) zenfs \<Rightarrow> nat \<Rightarrow> bool" where
  "held fs a \<longleftrightarrow> objs fs a = None \<or> links_of fs a \<noteq> [] \<or> handles fs a > 0"

text \<open>And no object is kept that nothing refers to.\<close>

definition ns_inv :: "('d, 'x) zenfs \<Rightarrow> bool" where
  "ns_inv fs \<longleftrightarrow> ns_core fs \<and> (\<forall>a. held fs a)"

definition directory :: "('d, 'x) zenfs \<Rightarrow> bytes \<rightharpoonup> nat" where
  "directory fs n = mfind n (files fs)"

lemma object_ok_key:
  "file_key zf' = file_key zf \<Longrightarrow> next_obj fs' = next_obj fs \<Longrightarrow> next_file_id fs' = next_file_id fs \<Longrightarrow>
   object_ok fs' a zf' = object_ok fs a zf"
  by (simp add: object_ok_def file_key_def)

lemma links_of_same: "same_names fs fs' \<Longrightarrow> links_of fs' a = links_of fs a"
  by (cases "objs fs a"; cases "objs fs' a") (auto simp: same_names_def links_of_def file_key_def dest!: spec [of _ a])

lemma key_ofE:
  assumes "same_names fs fs'" and "objs fs' a = Some zf'"
  obtains zf where "objs fs a = Some zf" "file_key zf' = file_key zf"
  using assms by (cases "objs fs a") (auto simp: same_names_def dest!: spec [of _ a])

lemma ns_core_same:
  assumes s: "same_names fs fs'" and c: "ns_core fs"
  shows "ns_core fs'"
proof -
  have "object_ok fs' a zf'" if o: "objs fs' a = Some zf'" for a zf'
  proof -
    obtain zf where "objs fs a = Some zf" "file_key zf' = file_key zf" using o by (rule key_ofE [OF s])
    then show ?thesis using c s object_ok_key [of zf' zf fs' fs a] by (simp add: ns_core_def same_names_def)
  qed
  moreover have "unique_ids fs'"
    unfolding unique_ids_def
  proof (intro allI impI)
    fix a b za zb assume o: "objs fs' a = Some za" "objs fs' b = Some zb" and i: "file_id za = file_id zb"
    obtain ya where a: "objs fs a = Some ya" "file_key za = file_key ya" using o(1) by (rule key_ofE [OF s])
    obtain yb where b: "objs fs b = Some yb" "file_key zb = file_key yb" using o(2) by (rule key_ofE [OF s])
    then show "a = b" using a i c by (simp add: ns_core_def unique_ids_def file_key_def)
  qed
  ultimately show ?thesis
    using s c same_names_None [OF s] by (simp add: ns_core_def links_of_same [OF s] same_names_def)
qed

lemma held_same: "same_names fs fs' \<Longrightarrow> held fs' a = held fs a"
  by (simp add: held_def links_of_same same_names_None) (simp add: same_names_def)

lemma ns_inv_same: "same_names fs fs' \<Longrightarrow> ns_inv fs \<Longrightarrow> ns_inv fs'"
  by (simp add: ns_inv_def ns_core_same held_same)

lemma directory_same: "same_names fs fs' \<Longrightarrow> directory fs' = directory fs"
  by (auto simp: directory_def same_names_def)

lemma ns_core_find: "ns_core fs \<Longrightarrow> mfind n (files fs) = Some a \<longleftrightarrow> n \<in> set (links_of fs a)"
  by (simp add: ns_core_def)

lemma ns_core_entry: "ns_core fs \<Longrightarrow> a \<in> snd ` set (files fs) \<longleftrightarrow> links_of fs a \<noteq> []"
proof -
  assume c: "ns_core fs"
  then have "map_inv (files fs)" by (simp add: ns_core_def)
  then have "a \<in> snd ` set (files fs) \<longleftrightarrow> (\<exists>n. mfind n (files fs) = Some a)"
    by (force simp: mfind_set image_iff)
  also have "\<dots> \<longleftrightarrow> links_of fs a \<noteq> []" using ns_core_find [OF c] by (metis last_in_set list.set(1) empty_iff)
  finally show ?thesis .
qed

lemma links_of_None: "objs fs a = None \<Longrightarrow> links_of fs a = []"
  by (simp add: links_of_def)

lemma ns_core_live: "ns_core fs \<Longrightarrow> live fs"
  by (metis live_def ns_core_entry links_of_None)

lemma referenced_iff: "ns_core fs \<Longrightarrow> referenced a fs \<longleftrightarrow> links_of fs a \<noteq> [] \<or> handles fs a > 0"
  by (simp add: referenced_def ns_core_entry)

end
