(* ===== verification/Zenfs_Ops.thy ===== *)
theory Zenfs_Ops
  imports Zenfs_Names
begin

text \<open>
  The operations of the file system on the name space: what each does to the directory, on success
  and on failure, and that every state they can reach satisfies the invariant of the name space.
\<close>

section \<open>Objects come and go\<close>

lemma directory_fields [simp]:
  "directory (fs\<lparr>handles := h\<rparr>) = directory fs" "directory (fs\<lparr>fs_dev := dev\<rparr>) = directory fs"
  "directory (fs\<lparr>aux := x\<rparr>) = directory fs" "directory (fs\<lparr>objs := m\<rparr>) = directory fs"
  "directory (upd_obj a f fs) = directory fs"
  by (auto simp: directory_def upd_obj_def)

lemma obj_fields [simp]: "obj (fs\<lparr>files := m\<rparr>) = obj fs" "obj (fs\<lparr>fs_dev := dev\<rparr>) = obj fs"
  by (auto simp: obj_def)

lemma links_of_fields [simp]:
  "links_of (fs\<lparr>handles := h\<rparr>) = links_of fs" "links_of (fs\<lparr>fs_dev := dev\<rparr>) = links_of fs"
  "links_of (fs\<lparr>aux := x\<rparr>) = links_of fs" "links_of (fs\<lparr>files := m\<rparr>) = links_of fs"
  by (auto simp: links_of_def)

lemma delete_object_core:
  assumes c: "ns_core fs" and l: "links_of fs a = []" and h: "handles fs a = 0"
  shows "ns_core (fs\<lparr>fs_dev := dev, objs := (objs fs)(a := None)\<rparr>)"
proof -
  let ?fs = "fs\<lparr>fs_dev := dev, objs := (objs fs)(a := None)\<rparr>"
  have "links_of ?fs b = links_of fs b" for b using l by (simp add: links_of_def)
  then show ?thesis
    using c h by (auto simp: ns_core_def unique_ids_def object_ok_def)
qed

lemma release_inv:
  assumes c: "ns_core fs" and o: "\<And>b. b \<noteq> a \<Longrightarrow> held fs b"
  shows "ns_inv (release be a fs)"
proof (cases "objs fs a = None \<or> referenced a fs")
  case True
  then have "release be a fs = fs" by (auto simp: release_def split: option.splits)
  moreover have "held fs a" using True referenced_iff [OF c] by (auto simp: held_def)
  then have "held fs b" for b using o by (cases "b = a") simp_all
  ultimately show ?thesis using c by (simp add: ns_inv_def)
next
  case False
  then have l: "links_of fs a = []" "handles fs a = 0" using referenced_iff [OF c, of a] by simp_all
  have r: "release be a fs = fs\<lparr>fs_dev := delete_ZoneFile be (obj fs a) (fs_dev fs), objs := (objs fs)(a := None)\<rparr>"
    using False by (auto simp: release_def obj_def)
  have "held (release be a fs) b" for b
    using o [of b] by (cases "b = a") (simp_all add: r held_def links_of_def)
  then show ?thesis using delete_object_core [OF c l] by (simp add: ns_inv_def r)
qed

lemma release_dir [simp]: "directory (release be a fs) = directory fs" "handles (release be a fs) = handles fs"
  "next_file_id (release be a fs) = next_file_id fs"
  by (auto simp: directory_def release_def split: option.splits)

lemma release_keeps: "referenced b fs \<Longrightarrow> objs (release be a fs) b = objs fs b"
  by (auto simp: release_def split: option.splits)

lemma hold_handle_inv: "ns_inv fs \<Longrightarrow> objs fs a \<noteq> None \<Longrightarrow> ns_inv (hold_handle a fs)"
  by (auto simp: ns_inv_def ns_core_def hold_handle_def held_def links_of_def unique_ids_def object_ok_def)

lemma hold_handle_dir [simp]: "directory (hold_handle a fs) = directory fs"
  by (simp add: hold_handle_def)

lemma drop_handle_inv:
  assumes "ns_inv fs"
  shows "ns_inv (drop_handle be a fs)"
proof -
  let ?fs = "fs\<lparr>handles := (handles fs)(a := handles fs a - 1)\<rparr>"
  have "ns_core ?fs"
    using assms by (auto simp: ns_inv_def ns_core_def unique_ids_def object_ok_def)
  moreover have "held ?fs b" if "b \<noteq> a" for b
    using assms that by (simp add: ns_inv_def held_def)
  ultimately show ?thesis unfolding drop_handle_def by (rule release_inv)
qed

lemma drop_handle_dir [simp]: "directory (drop_handle be a fs) = directory fs"
  by (simp add: drop_handle_def)

section \<open>Changing the names of one object\<close>

text \<open>
  All operations on names are of one form: the object at \<open>a\<close> and the table change together, and then
  metadata is persisted, which changes neither.
\<close>

definition relinked :: "('d, 'x) zenfs \<Rightarrow> nat \<Rightarrow> bytes list \<Rightarrow> bool \<Rightarrow> nat name_map \<Rightarrow> ('d, 'x) zenfs \<Rightarrow> bool" where
  "relinked fs a links deleted m fs' \<longleftrightarrow>
     files fs' = m \<and> next_obj fs' = next_obj fs \<and> handles fs' = handles fs \<and> next_file_id fs' = next_file_id fs \<and>
     (\<forall>b. b \<noteq> a \<longrightarrow> map_option file_key (objs fs' b) = map_option file_key (objs fs b)) \<and>
     map_option file_key (objs fs' a) = Some (links, deleted, file_id (obj fs a))"

lemma relinked_upd:
  "linkfiles zf = links \<Longrightarrow> is_deleted zf = deleted \<Longrightarrow> file_id zf = file_id (obj fs a) \<Longrightarrow>
   relinked fs a links deleted m (upd_obj a (\<lambda>_. zf) (fs\<lparr>files := m\<rparr>))"
  by (simp add: relinked_def upd_obj_def file_key_def)

lemma relinked_same: "relinked fs a l d m fs1 \<Longrightarrow> same_names fs1 fs2 \<Longrightarrow> relinked fs a l d m fs2"
  by (simp add: relinked_def same_names_def)

lemma relinked_obj:
  assumes "relinked fs a l d m fs'"
  shows "objs fs' a = Some (obj fs' a)" "linkfiles (obj fs' a) = l" "is_deleted (obj fs' a) = d"
    "file_id (obj fs' a) = file_id (obj fs a)"
  using assms by (auto simp: relinked_def obj_def file_key_def)

lemma relinked_again:
  "relinked fs a l d m fs1 \<Longrightarrow> relinked fs1 a l' d' m' fs2 \<Longrightarrow> relinked fs a l' d' m' fs2"
  using relinked_obj(4) [of fs a l d m fs1] by (simp add: relinked_def)

lemma relinked_upd_again:
  assumes r: "relinked fs a l d m fs1"
    and z: "linkfiles (f (obj fs1 a)) = l'" "is_deleted (f (obj fs1 a)) = d'" "file_id (f (obj fs1 a)) = file_id (obj fs1 a)"
  shows "relinked fs a l' d' m' (upd_obj a f (fs1\<lparr>files := m'\<rparr>))"
proof -
  have "upd_obj a f (fs1\<lparr>files := m'\<rparr>) = upd_obj a (\<lambda>_. f (obj fs1 a)) (fs1\<lparr>files := m'\<rparr>)"
    by (simp add: upd_obj_def obj_def)
  then show ?thesis using relinked_again [OF r relinked_upd [OF z]] by simp
qed

lemma relinked_live:
  assumes "relinked fs a l d m fs'" and "live fs" and "snd ` set m \<subseteq> insert a (snd ` set (files fs))"
  shows "live fs'"
  unfolding live_def
proof
  fix b assume "b \<in> snd ` set (files fs')"
  then have "b = a \<or> b \<in> snd ` set (files fs)" using assms(1,3) by (auto simp: relinked_def)
  moreover have "objs fs' b \<noteq> None" if "b \<noteq> a" "objs fs b \<noteq> None"
    using that assms(1) by (metis option.map_disc_iff relinked_def)
  ultimately show "objs fs' b \<noteq> None"
    using assms(2) relinked_obj(1) [OF assms(1)] by (auto simp: live_def)
qed

lemma relinked_links: "relinked fs a l d m fs' \<Longrightarrow> links_of fs' b = (if b = a then l else links_of fs b)"
proof (cases "b = a")
  case False
  assume "relinked fs a l d m fs'"
  then have "map_option file_key (objs fs' b) = map_option file_key (objs fs b)" using False by (simp add: relinked_def)
  then show ?thesis using False by (cases "objs fs b"; cases "objs fs' b") (auto simp: links_of_def file_key_def)
qed (auto simp: links_of_def relinked_def file_key_def)

lemma relinked_None: "relinked fs a l d m fs' \<Longrightarrow> b \<noteq> a \<Longrightarrow> objs fs' b = None \<longleftrightarrow> objs fs b = None"
  by (metis option.map_disc_iff relinked_def)

lemma relinked_held:
  assumes "relinked fs a l d m fs'" and "held fs b" and "b \<noteq> a \<or> l \<noteq> []"
  shows "held fs' b"
  using assms(2,3) relinked_None [OF assms(1), of b] assms(1)
  by (cases "b = a") (auto simp: held_def relinked_links [OF assms(1)] relinked_def)

lemma relinked_keyE:
  assumes "relinked fs a l d m fs'" and "objs fs' b = Some w"
  obtains "b = a" "file_key w = (l, d, file_id (obj fs a))"
    | y where "b \<noteq> a" "objs fs b = Some y" "file_key w = file_key y"
proof (cases "b = a")
  case False
  then have "map_option file_key (objs fs b) = Some (file_key w)" using assms by (metis option.map(2) relinked_def)
  then show ?thesis using False that(2) by auto
qed (use assms that(1) in \<open>simp add: relinked_def\<close>)

lemma relinked_core:
  assumes c: "ns_core fs" and a: "objs fs a \<noteq> None" and r: "relinked fs a l (l = []) m fs'"
    and m: "map_inv m"
    and find: "\<And>n b. mfind n m = Some b \<longleftrightarrow> (if b = a then n \<in> set l else directory fs n = Some b)"
    and l: "distinct l" "length l < 2 ^ 32" "\<And>n. n \<in> set l \<Longrightarrow> FormatPathLexically n = n"
  shows "ns_core fs'"
proof -
  have old: "objs fs a = Some (obj fs a)" using a by (auto simp: obj_def)
  have o: "object_ok fs b w" if "objs fs b = Some w" for b w using c that by (simp add: ns_core_def)
  have n: "next_obj fs' = next_obj fs" "next_file_id fs' = next_file_id fs" using r by (simp_all add: relinked_def)
  have "object_ok fs' b w" if w: "objs fs' b = Some w" for b w
    using r w
  proof (cases rule: relinked_keyE)
    case 1
    then show ?thesis using o [OF old] l n by (simp add: object_ok_def file_key_def)
  next
    case (2 y)
    then show ?thesis using o [OF 2(2)] object_ok_key [OF 2(3) n, of b] by simp
  qed
  moreover have "unique_ids fs'"
    unfolding unique_ids_def
  proof (intro allI impI)
    have ids: "\<exists>y. objs fs b = Some y \<and> file_id y = file_id w" if w: "objs fs' b = Some w" for b w
      using r w by (cases rule: relinked_keyE) (use old in \<open>auto simp: file_key_def\<close>)
    fix b1 b2 w1 w2 assume "objs fs' b1 = Some w1" "objs fs' b2 = Some w2" "file_id w1 = file_id w2"
    then show "b1 = b2" using ids [of b1 w1] ids [of b2 w2] c by (auto simp: ns_core_def unique_ids_def)
  qed
  moreover have "objs fs' b \<noteq> None" if "handles fs' b > 0" for b
    using that c relinked_None [OF r, of b] relinked_obj(1) [OF r] r
    by (cases "b = a") (auto simp: ns_core_def relinked_def)
  moreover have "mfind n (files fs') = Some b \<longleftrightarrow> n \<in> set (links_of fs' b)" for n b
    using find [of n b] ns_core_find [OF c, of n b] r
    by (auto simp: relinked_links [OF r] relinked_def directory_def)
  ultimately show ?thesis using m r by (simp add: ns_core_def relinked_def)
qed

lemma relinked_inv:
  assumes "ns_inv fs" and "objs fs a \<noteq> None" and "relinked fs a l (l = []) m fs'" and "map_inv m"
    and "\<And>n b. mfind n m = Some b \<longleftrightarrow> (if b = a then n \<in> set l else directory fs n = Some b)"
    and "distinct l" "length l < 2 ^ 32" "\<And>n. n \<in> set l \<Longrightarrow> FormatPathLexically n = n" "l \<noteq> []"
  shows "ns_inv fs'"
  using assms relinked_core [of fs a l m fs'] relinked_held [OF assms(3)] by (simp add: ns_inv_def)

lemma relinked_directory: "relinked fs a l d m fs' \<Longrightarrow> directory fs' = (\<lambda>n. mfind n m)"
  by (simp add: relinked_def directory_def fun_eq_iff)

text \<open>What is known of an object that has a name.\<close>

lemma named_object:
  assumes c: "ns_core fs" and n: "directory fs n = Some a"
  shows "objs fs a = Some (obj fs a)" "n \<in> set (linkfiles (obj fs a))" "distinct (linkfiles (obj fs a))"
    "length (linkfiles (obj fs a)) < 2 ^ 32" "\<not> is_deleted (obj fs a)"
    "\<And>k. k \<in> set (linkfiles (obj fs a)) \<Longrightarrow> FormatPathLexically k = k"
    "\<And>k. k \<in> set (linkfiles (obj fs a)) \<longleftrightarrow> directory fs k = Some a"
proof -
  have l: "n \<in> set (links_of fs a)" using ns_core_find [OF c] n by (simp add: directory_def)
  then show o: "objs fs a = Some (obj fs a)" by (cases "objs fs a") (auto simp: links_of_def obj_def)
  then have e: "links_of fs a = linkfiles (obj fs a)" by (simp add: links_of_def)
  then show m: "n \<in> set (linkfiles (obj fs a))" using l by simp
  have "object_ok fs a (obj fs a)" using c o by (simp add: ns_core_def)
  then show "distinct (linkfiles (obj fs a))" "length (linkfiles (obj fs a)) < 2 ^ 32" "\<not> is_deleted (obj fs a)"
    "\<And>k. k \<in> set (linkfiles (obj fs a)) \<Longrightarrow> FormatPathLexically k = k"
    using m by (auto simp: object_ok_def)
  show "\<And>k. k \<in> set (linkfiles (obj fs a)) \<longleftrightarrow> directory fs k = Some a"
    using ns_core_find [OF c] e by (simp add: directory_def)
qed

section \<open>Deleting\<close>

lemma on_aux_same: "on_aux f fs = (s, fs') \<Longrightarrow> same_names fs fs'"
  by (auto simp: on_aux_def split: prod.splits)

lemma merase_sub: "snd ` set (merase k m) \<subseteq> snd ` set m"
  by (auto simp: merase_def)

lemma minsert_sub: "snd ` set (minsert k v m) \<subseteq> insert v (snd ` set m)"
  by (induction m) auto

lemma file_key_ResetWALZones:
  "ResetWALZones be zf dev = Some (s, zf', dev') \<Longrightarrow> file_key zf' = file_key zf"
  by (auto simp: ResetWALZones_def bind_eq_Some_conv Let_def file_key_def split: list.splits option.splits prod.splits if_splits bool.splits)

lemma upd_obj_same_relinked:
  assumes r: "relinked fs a l d m fs1" and k: "file_key zf = file_key (obj fs1 a)"
  shows "relinked fs a l d m (upd_obj a (\<lambda>_. zf) (fs1\<lparr>fs_dev := dev\<rparr>))"
  using r k relinked_obj [OF r] by (simp add: relinked_def upd_obj_def file_key_def)

lemma drop_object_inv:
  assumes r: "relinked fs a [] False m fs3" and inv: "ns_inv fs" and a: "objs fs a \<noteq> None"
    and m: "map_inv m" and find: "\<And>n b. mfind n m = Some b \<longleftrightarrow> b \<noteq> a \<and> directory fs n = Some b"
    and run: "drop_object be fname a fs3 = Some fs'"
  shows "ns_inv fs' \<and> handles fs' = handles fs \<and> next_file_id fs' = next_file_id fs \<and> directory fs' = (\<lambda>n. mfind n m)"
proof -
  let ?fs = "upd_obj a (\<lambda>zf. zf\<lparr>is_deleted := True\<rparr>) fs3"
  have files: "fs3\<lparr>files := m\<rparr> = fs3" using r by (simp add: relinked_def)
  have r1: "relinked fs a [] True m ?fs"
    using relinked_upd_again [OF r, of "\<lambda>zf. zf\<lparr>is_deleted := True\<rparr>" "[]" True m] relinked_obj [OF r] files by simp
  obtain fs2 where r2: "relinked fs a [] ([] = ([] :: bytes list)) m fs2" and rel: "fs' = release be a fs2"
    using run r1 by (auto simp: drop_object_def Let_def bind_eq_Some_conv split: if_splits
        dest!: file_key_ResetWALZones intro!: upd_obj_same_relinked [OF r1])
  have "ns_core fs2"
    using inv a m find by (intro relinked_core [OF _ _ r2]) (auto simp: ns_inv_def)
  moreover have "held fs2 b" if "b \<noteq> a" for b
    using inv that by (intro relinked_held [OF r2]) (auto simp: ns_inv_def)
  ultimately have "ns_inv fs'" unfolding rel by (rule release_inv)
  then show ?thesis using r2 relinked_directory [OF r2] by (simp add: rel relinked_def)
qed

text \<open>A file is gone from the directory, or everything is as before.\<close>

lemma DeleteFileNoLock_spec:
  assumes inv: "ns_inv fs" and abs: "is_absolute fname0"
    and run: "DeleteFileNoLock be ax fname0 fs = Some (s, fs')"
  defines "fname \<equiv> FormatPathLexically fname0"
  shows "ns_inv fs' \<and> handles fs' = handles fs \<and> next_file_id fs' = next_file_id fs \<and>
     directory fs' = (if directory fs fname \<noteq> None \<and> ok s then (directory fs)(fname := None) else directory fs)"
proof (cases "directory fs fname")
  case None
  then have "GetFileNoLock fname fs = None"
    using FormatPathLexically_abs(2) [OF abs] by (simp add: GetFileNoLock_def directory_def fname_def)
  then have "same_names fs fs'"
    using run by (auto simp: DeleteFileNoLock_def fname_def [symmetric] bind_eq_Some_conv dest: on_aux_same)
  then show ?thesis using None ns_inv_same [OF _ inv] directory_same by (auto simp: same_names_def)
next
  case (Some a)
  then have g: "GetFileNoLock fname fs = Some a"
    using FormatPathLexically_abs(2) [OF abs] by (simp add: GetFileNoLock_def directory_def fname_def)
  have core: "ns_core fs" using inv by (simp add: ns_inv_def)
  note o = named_object [OF core Some]
  define l where "l = linkfiles (obj fs a)"
  define m where "m = merase fname (files fs)"
  define zf1 where "zf1 = (obj fs a)\<lparr>linkfiles := remove1 fname l\<rparr>"
  have fm: "map_inv (files fs)" using core by (simp add: ns_core_def)
  have m: "map_inv m" "mfind n m = (if n = fname then None else directory fs n)" for n
    using fm by (simp_all add: m_def directory_def map_inv_merase mfind_merase)
  have find: "mfind n m = Some b \<longleftrightarrow> (if b = a then n \<in> set (remove1 fname l) else directory fs n = Some b)" for n b
    using o(3,7) Some by (auto simp: m(2) l_def)
  let ?X = "upd_obj a (\<lambda>_. zf1) (fs\<lparr>files := m\<rparr>)"
  have rX: "relinked fs a (remove1 fname l) False m ?X"
    using o(5) by (intro relinked_upd) (simp_all add: zf1_def)
  have lX: "live ?X"
    using relinked_live [OF rX ns_core_live [OF core]] merase_sub [of fname "files fs"] by (auto simp: m_def)
  have eq: "DeleteFileNoLock be ax fname0 fs =
      PersistRecord be (EncodeFileDeletionTo zf1 [] fname) ?X \<bind> (\<lambda>(s2, fs3).
        if \<not> ok s2 then Some (s2, upd_obj a (AddLinkName fname) (fs3\<lparr>files := minsert fname a (files fs3)\<rparr>))
        else if GetNrLinks (obj fs3 a) > 0 then Some (s2, release be a fs3)
        else drop_object be fname a fs3 \<bind> (\<lambda>fs4. Some (s2, fs4)))"
    using g o(2) by (simp add: DeleteFileNoLock_def fname_def [symmetric] Let_def RemoveLinkName_def zf1_def l_def m_def)
  obtain y where y: "PersistRecord be (EncodeFileDeletionTo zf1 [] fname) ?X = Some y"
    using run unfolding eq bind_eq_Some_conv by (elim exE conjE) (rule that)
  obtain s2 fs3 where p: "PersistRecord be (EncodeFileDeletionTo zf1 [] fname) ?X = Some (s2, fs3)"
    using y by (cases y) simp
  have rest: "if ok s2 then s = s2 \<and> (if GetNrLinks (obj fs3 a) > 0 then fs' = release be a fs3
                                       else drop_object be fname a fs3 = Some fs')
               else s = s2 \<and> fs' = upd_obj a (AddLinkName fname) (fs3\<lparr>files := minsert fname a (files fs3)\<rparr>)"
    using run unfolding eq p by (auto simp: bind_eq_Some_conv split: if_splits)
  have r3: "relinked fs a (remove1 fname l) False m fs3"
    using relinked_same [OF rX PersistRecord_same [OF lX p]] .
  note o3 = relinked_obj [OF r3]
  have len: "length (remove1 fname l) < 2 ^ 32" using o(4) by (auto simp: l_def length_remove1)
  show ?thesis
  proof (cases "ok s2")
    case False
    define l4 where "l4 = remove1 fname l @ [fname]"
    define m4 where "m4 = minsert fname a m"
    have r4: "relinked fs a l4 (l4 = []) m4 fs'"
      using rest False relinked_upd_again [OF r3, of "AddLinkName fname" l4 False m4] o3 r3
      by (simp add: AddLinkName_def relinked_def l4_def m4_def)
    have l4: "n \<in> set l4 \<longleftrightarrow> directory fs n = Some a" for n
      using o(3,7) Some by (auto simp: l4_def l_def)
    have m4: "mfind n m4 = directory fs n" for n using m Some by (auto simp: m4_def mfind_minsert)
    have "ns_inv fs'"
    proof (rule relinked_inv [OF inv _ r4])
      show "length l4 < 2 ^ 32" using o(2,4) by (simp add: l4_def l_def length_remove1)
      show "distinct l4" using o(3) by (simp add: l4_def l_def)
    qed (use l4 m4 o(1,6,7) m(1) in \<open>auto simp: m4_def map_inv_minsert l4_def l_def\<close>)
    then show ?thesis using False rest r4 relinked_directory [OF r4] m4 by (simp add: relinked_def)
  next
    case True
    have d: "(\<lambda>n. mfind n m) = (directory fs)(fname := None)" by (auto simp: m(2))
    show ?thesis
    proof (cases "remove1 fname l = []")
      case empty: True
      then have "drop_object be fname a fs3 = Some fs'" using rest True o3 by (simp add: GetNrLinks_def)
      then show ?thesis
        using drop_object_inv [OF r3 [unfolded empty] inv _ m(1) _ \<open>drop_object be fname a fs3 = Some fs'\<close>] find o(1) empty d Some True rest
        by auto
    next
      case more: False
      then have "GetNrLinks (obj fs3 a) > 0"
        using o3 len by (simp add: GetNrLinks_def word_less_nat_alt unat_of_nat_small)
      then have fs': "fs' = release be a fs3" using rest True by simp
      have r3': "relinked fs a (remove1 fname l) (remove1 fname l = []) m fs3" using r3 more by simp
      have "FormatPathLexically n = n" if "n \<in> set (remove1 fname l)" for n
        using o(3,6) that by (auto simp: l_def)
      then have "ns_inv fs3"
        using relinked_inv [OF inv _ r3' m(1) find _ len] o(1,3) more by (simp add: l_def)
      then have "ns_inv fs'" unfolding fs' by (intro release_inv) (auto simp: ns_inv_def)
      then show ?thesis
        using r3 relinked_directory [OF r3] d Some True rest
        by (simp add: fs' relinked_def)
    qed
  qed
qed

lemma GetFileNoLock_abs: "is_absolute p \<Longrightarrow> GetFileNoLock (FormatPathLexically p) fs = directory fs (FormatPathLexically p)"
  by (simp add: GetFileNoLock_def directory_def FormatPathLexically_abs)

section \<open>Renaming\<close>

text \<open>
  The new name is free. When the metadata cannot be written the old name is put back, and the status
  is that of putting it back.
\<close>

definition renamed_fs :: "bytes \<Rightarrow> bytes \<Rightarrow> nat \<Rightarrow> ('d, 'x) zenfs \<Rightarrow> ('d, 'x) zenfs" where
  "renamed_fs src dst a fs =
     upd_obj a (\<lambda>zf. zf\<lparr>linkfiles := remove1 src (linkfiles zf) @ [dst]\<rparr>)
       (fs\<lparr>files := minsert dst a (merase src (files fs))\<rparr>)"

lemma rename_entry_outcome:
  assumes inv: "ns_inv fs" and a: "objs fs a \<noteq> None" and dest: "directory fs dst = None" "FormatPathLexically dst = dst"
    and run: "rename_entry be src dst a fs = Some (s, fs')"
  shows "ns_inv fs' \<and> handles fs' = handles fs \<and> next_file_id fs' = next_file_id fs \<and>
     (if directory fs src = Some a
      then s = OK \<and> (\<exists>s2 fs2. SyncFileMetadataNoLock be a False (renamed_fs src dst a fs) = Some (s2, fs2) \<and>
             directory fs' = (if ok s2 then (directory fs)(src := None, dst \<mapsto> a) else directory fs))
      else s = IOError \<and> directory fs' = directory fs)"
proof -
  have core: "ns_core fs" using inv by (simp add: ns_inv_def)
  have fm: "map_inv (files fs)" using core by (simp add: ns_core_def)
  have oa: "objs fs a = Some (obj fs a)" using a by (auto simp: obj_def)
  define l where "l = linkfiles (obj fs a)"
  have dir: "n \<in> set l \<longleftrightarrow> directory fs n = Some a" for n
    using ns_core_find [OF core, of n a] oa by (simp add: l_def links_of_def directory_def)
  show ?thesis
  proof (cases "src \<in> set l")
    case False
    then have "s = IOError \<and> fs' = fs" using run by (auto simp: rename_entry_def RenameLink_def l_def [symmetric])
    then show ?thesis using inv False dir by simp
  next
    case True
    then have src: "directory fs src = Some a" by (simp add: dir)
    note o = named_object [OF core src]
    have ne: "src \<noteq> dst" "dst \<notin> set l" using src dest(1) dir by auto
    define l' where "l' = remove1 src l @ [dst]"
    define zf where "zf = (obj fs a)\<lparr>linkfiles := l'\<rparr>"
    define m where "m = minsert dst a (merase src (files fs))"
    let ?X = "upd_obj a (\<lambda>_. zf) (fs\<lparr>files := m\<rparr>)"
    have X: "?X = renamed_fs src dst a fs" by (simp add: renamed_fs_def upd_obj_def zf_def l'_def l_def m_def)
    have rX: "relinked fs a l' False m ?X" using o(5) by (intro relinked_upd) (simp_all add: zf_def)
    have lX: "live ?X"
    proof (rule relinked_live [OF rX ns_core_live [OF core]])
      show "snd ` set m \<subseteq> insert a (snd ` set (files fs))"
        using merase_sub [of src "files fs"] minsert_sub [of dst a "merase src (files fs)"] by (force simp: m_def)
    qed
    have eq: "rename_entry be src dst a fs =
        SyncFileMetadataNoLock be a False ?X \<bind> (\<lambda>(s2, fs2).
          if \<not> ok s2 then
            (case RenameLink dst src (obj fs2 a) of (s3, zf3) \<Rightarrow>
               let fs3 = fs2\<lparr>files := merase dst (files fs2)\<rparr> in
               if \<not> ok s3 then Some (s3, fs3)
               else Some (s3, upd_obj a (\<lambda>_. zf3) (fs3\<lparr>files := minsert src a (files fs3)\<rparr>)))
          else Some (s2, fs2))"
      using True by (simp add: rename_entry_def RenameLink_def l_def l'_def zf_def m_def)
    obtain y where y: "SyncFileMetadataNoLock be a False ?X = Some y"
      using run unfolding eq bind_eq_Some_conv by (elim exE conjE) (rule that)
    obtain s2 fs2 where p: "SyncFileMetadataNoLock be a False ?X = Some (s2, fs2)"
      using y by (cases y) simp
    note rest = run [unfolded eq p]
    have r2: "relinked fs a l' False m fs2"
      using relinked_same [OF rX SyncFileMetadataNoLock_same [OF lX _ p]] by (simp add: upd_obj_def)
    note o2 = relinked_obj [OF r2]
    have m: "map_inv m" "mfind n m = (if n = dst then Some a else if n = src then None else directory fs n)" for n
      using fm dest(1) ne by (auto simp: m_def directory_def map_inv_minsert map_inv_merase mfind_minsert mfind_merase)
    show ?thesis
    proof (cases "ok s2")
      case ok: True
      have "ns_inv fs2"
      proof (rule relinked_inv [OF inv a])
        show "relinked fs a l' (l' = []) m fs2" using r2 by (simp add: l'_def)
        show "mfind n m = Some b \<longleftrightarrow> (if b = a then n \<in> set l' else directory fs n = Some b)" for n b
          using o(3) dir src dest(1) by (auto simp: m(2) l'_def l_def)
        show "length l' < 2 ^ 32" using o(2,4) by (simp add: l'_def l_def length_remove1)
        show "distinct l'" using o(3) ne(2) by (auto simp: l'_def l_def)
        show "FormatPathLexically n = n" if "n \<in> set l'" for n
          using that o(3,6) dest(2) by (auto simp: l'_def l_def)
      qed (simp_all add: m(1) l'_def)
      moreover have "directory fs2 = (directory fs)(src := None, dst \<mapsto> a)"
        using relinked_directory [OF r2] m(2) ne by auto
      ultimately show ?thesis using rest ok src r2 p [unfolded X] by (auto simp: relinked_def)
    next
      case failed: False
      define l3 where "l3 = remove1 dst l' @ [src]"
      define m3 where "m3 = minsert src a (merase dst m)"
      have "s = OK \<and> fs' = upd_obj a (\<lambda>zf. zf\<lparr>linkfiles := l3\<rparr>) (fs2\<lparr>files := m3\<rparr>)"
        using rest failed o2 r2 by (simp add: RenameLink_def l3_def l'_def m3_def Let_def relinked_def upd_obj_def obj_def)
      then have s: "s = OK" and r3: "relinked fs a l3 False m3 fs'"
        using relinked_upd_again [OF r2, of "\<lambda>zf. zf\<lparr>linkfiles := l3\<rparr>" l3 False m3] o2 by simp_all
      have l3: "l3 = remove1 src l @ [src]" using ne by (simp add: l3_def l'_def remove1_append notin_set_remove1)
      have m3: "map_inv m3" "mfind n m3 = directory fs n" for n
        using m(1) m(2) src dest(1) by (auto simp: m3_def map_inv_minsert map_inv_merase mfind_minsert mfind_merase)
      have "ns_inv fs'"
      proof (rule relinked_inv [OF inv a])
        show "relinked fs a l3 (l3 = []) m3 fs'" using r3 by (simp add: l3)
        show "mfind n m3 = Some b \<longleftrightarrow> (if b = a then n \<in> set l3 else directory fs n = Some b)" for n b
          using o(3) dir src by (auto simp: m3(2) l3 l_def)
        show "length l3 < 2 ^ 32" using o(2,4) by (simp add: l3 l_def length_remove1)
        show "distinct l3" using o(3) by (simp add: l3 l_def)
        show "FormatPathLexically n = n" if "n \<in> set l3" for n
          using that o(2,3,6) by (auto simp: l3 l_def)
      qed (simp_all add: m3(1) l3)
      then show ?thesis using s src r3 relinked_directory [OF r3] m3(2) failed p [unfolded X] by (auto simp: relinked_def)
    qed
  qed
qed

lemma rename_entry_spec:
  assumes "ns_inv fs" and "objs fs a \<noteq> None" and "directory fs dst = None" "FormatPathLexically dst = dst"
    and "rename_entry be src dst a fs = Some (s, fs')"
  shows "ns_inv fs' \<and> handles fs' = handles fs \<and> next_file_id fs' = next_file_id fs \<and>
     (if directory fs src = Some a
      then s = OK \<and> (directory fs' = (directory fs)(src := None, dst \<mapsto> a) \<or> directory fs' = directory fs)
      else s = IOError \<and> directory fs' = directory fs)"
  using rename_entry_outcome [OF assms] by (auto split: if_splits)

lemma drop_handle_sel [simp]:
  "handles (drop_handle be a fs) = (handles fs)(a := handles fs a - 1)" "next_file_id (drop_handle be a fs) = next_file_id fs"
  by (simp_all add: drop_handle_def)

lemma hold_handle_sel [simp]:
  "handles (hold_handle a fs) = (handles fs)(a := handles fs a + 1)" "next_file_id (hold_handle a fs) = next_file_id fs"
  "objs (hold_handle a fs) = objs fs"
  by (simp_all add: hold_handle_def)

text \<open>Renaming a file onto itself deletes it: the name that is to be renamed is gone then.\<close>

lemma rename_zenfs_file_spec:
  assumes inv: "ns_inv fs" and abs: "is_absolute dst0" and src: "directory fs src = Some a"
    and run: "rename_zenfs_file be ax src (FormatPathLexically dst0) a fs = Some (s, fs')"
  defines "dst \<equiv> FormatPathLexically dst0"
  shows "ns_inv fs' \<and> handles fs' = handles fs \<and> next_file_id fs' = next_file_id fs \<and>
     (s = OK \<and> src \<noteq> dst \<and>
        (directory fs' = (directory fs)(src := None, dst \<mapsto> a) \<or> directory fs' = (directory fs)(dst := None))
      \<or> s \<noteq> OK \<and> (directory fs' = directory fs \<or> src = dst \<and> directory fs' = (directory fs)(src := None)))"
proof -
  have fd: "FormatPathLexically dst = dst" "is_absolute dst" by (simp_all add: dst_def FormatPathLexically_abs [OF abs])
  have core: "ns_core fs" using inv by (simp add: ns_inv_def)
  have a: "objs fs a \<noteq> None" using named_object(1) [OF core src] by simp
  have inv1: "ns_inv (hold_handle a fs)" by (rule hold_handle_inv [OF inv a])
  show ?thesis
  proof (cases "directory fs dst")
    case None
    then have "GetFileNoLock dst fs = None" by (simp add: GetFileNoLock_def directory_def fd)
    then obtain fs1 where r: "rename_entry be src dst a (hold_handle a fs) = Some (s, fs1)" "fs' = drop_handle be a fs1"
      using run by (auto simp: rename_zenfs_file_def dst_def [symmetric] bind_eq_Some_conv)
    have "ns_inv fs1 \<and> handles fs1 = handles (hold_handle a fs) \<and> next_file_id fs1 = next_file_id fs \<and> s = OK \<and>
        (directory fs1 = (directory fs)(src := None, dst \<mapsto> a) \<or> directory fs1 = directory fs)"
      using rename_entry_spec [OF inv1 _ _ fd(1) r(1)] a None src by simp
    moreover have "src \<noteq> dst" using None src by auto
    moreover have "(directory fs)(dst := None) = directory fs" using None by auto
    ultimately show ?thesis using drop_handle_inv [of fs1 be a] by (auto simp: r(2))
  next
    case (Some b)
    have b: "objs fs b \<noteq> None" using named_object(1) [OF core Some] by simp
    have inv2: "ns_inv (hold_handle b (hold_handle a fs))" by (rule hold_handle_inv [OF inv1]) (simp add: b)
    have "GetFileNoLock dst fs = Some b" using Some by (simp add: GetFileNoLock_def directory_def fd)
    then obtain s1 fs1 fs2 where r: "DeleteFileNoLock be ax dst (hold_handle b (hold_handle a fs)) = Some (s1, fs1)"
        "(if \<not> ok s1 then Some (s1, fs1) else rename_entry be src dst a fs1) = Some (s, fs2)"
        "fs' = drop_handle be a (drop_handle be b fs2)"
      using run by (auto simp: rename_zenfs_file_def dst_def [symmetric] bind_eq_Some_conv)
    have d: "ns_inv fs1 \<and> handles fs1 = handles (hold_handle b (hold_handle a fs)) \<and> next_file_id fs1 = next_file_id fs \<and>
        directory fs1 = (if ok s1 then (directory fs)(dst := None) else directory fs)"
      using DeleteFileNoLock_spec [OF inv2 fd(2) r(1)] Some by (simp add: fd(1))
    have fin: "ns_inv fs' \<and> handles fs' = handles fs \<and> next_file_id fs' = next_file_id fs2 \<and> directory fs' = directory fs2"
      if "ns_inv fs2" "handles fs2 = handles (hold_handle b (hold_handle a fs))"
      using that drop_handle_inv [OF drop_handle_inv [of fs2 be b], of be a] by (auto simp: r(3))
    show ?thesis
    proof (cases "ok s1")
      case False
      then show ?thesis using r(2) d fin by auto
    next
      case True
      have "handles fs1 a > 0" using d by simp
      then have oa: "objs fs1 a \<noteq> None" using d by (auto simp: ns_inv_def ns_core_def)
      have d1: "directory fs1 dst = None" using d True by simp
      have "rename_entry be src dst a fs1 = Some (s, fs2)" using r(2) True by simp
      from rename_entry_spec [OF conjunct1 [OF d] oa d1 fd(1) this]
      have e: "ns_inv fs2" "handles fs2 = handles fs1" "next_file_id fs2 = next_file_id fs1"
        "if directory fs1 src = Some a
         then s = OK \<and> (directory fs2 = (directory fs1)(src := None, dst \<mapsto> a) \<or> directory fs2 = directory fs1)
         else s = IOError \<and> directory fs2 = directory fs1" by simp_all
      show ?thesis
      proof (cases "src = dst")
        case same: True
        then show ?thesis using e d True fin by auto
      next
        case diff: False
        then have "((directory fs)(dst := None))(src := None, dst \<mapsto> a) = (directory fs)(src := None, dst \<mapsto> a)" by auto
        then show ?thesis using diff e d True fin src by auto
      qed
    qed
  qed
qed

section \<open>Linking\<close>

lemma LinkFile_spec:
  assumes inv: "ns_inv fs" and abs: "is_absolute file" "is_absolute link"
    and few: "\<And>a. directory fs (FormatPathLexically file) = Some a \<Longrightarrow> length (linkfiles (obj fs a)) + 1 < 2 ^ 32"
    and run: "LinkFile be ax file link fs = Some (s, fs')"
  defines "fname \<equiv> FormatPathLexically file" and "lname \<equiv> FormatPathLexically link"
  shows "ns_inv fs' \<and> handles fs' = handles fs \<and> next_file_id fs' = next_file_id fs \<and>
     (directory fs' = directory fs \<or>
      s = OK \<and> directory fs lname = None \<and> (\<exists>a. directory fs fname = Some a \<and> directory fs' = (directory fs)(lname \<mapsto> a)))"
proof -
  have g: "GetFileNoLock lname fs = directory fs lname" "GetFileNoLock fname fs = directory fs fname"
    using abs by (simp_all add: GetFileNoLock_abs lname_def fname_def)
  have core: "ns_core fs" using inv by (simp add: ns_inv_def)
  have fm: "map_inv (files fs)" using core by (simp add: ns_core_def)
  show ?thesis
  proof (cases "directory fs lname = None \<and> directory fs fname \<noteq> None")
    case False
    then have "same_names fs fs'"
      using run by (auto simp: LinkFile_def fname_def [symmetric] lname_def [symmetric] g bind_eq_Some_conv
          split: if_splits option.splits dest: on_aux_same)
    then show ?thesis using ns_inv_same [OF _ inv] directory_same by (auto simp: same_names_def)
  next
    case True
    then obtain a where a: "directory fs fname = Some a" by auto
    note o = named_object [OF core a]
    define l where "l = linkfiles (obj fs a) @ [lname]"
    define m where "m = minsert lname a (files fs)"
    let ?X = "upd_obj a (AddLinkName lname) (fs\<lparr>files := m\<rparr>)"
    have X: "?X = upd_obj a (\<lambda>_. AddLinkName lname (obj fs a)) (fs\<lparr>files := m\<rparr>)" by (simp add: upd_obj_def)
    have rX: "relinked fs a l False m ?X"
      unfolding X using o(5) by (intro relinked_upd) (simp_all add: AddLinkName_def l_def)
    have lX: "live ?X"
      using relinked_live [OF rX ns_core_live [OF core]] minsert_sub [of lname a "files fs"] by (simp add: m_def)
    have m: "map_inv m" "mfind n m = (if n = lname then Some a else directory fs n)" for n
      using fm True by (auto simp: m_def directory_def map_inv_minsert mfind_minsert)
    have nl: "lname \<notin> set (linkfiles (obj fs a))" using True o(7) by auto
    have eq: "LinkFile be ax file link fs =
        SyncFileMetadataNoLock be a False ?X \<bind> (\<lambda>(s, fs2).
          if \<not> ok s then
            (case RemoveLinkName lname (obj fs2 a) of
               (s', zf) \<Rightarrow> if \<not> ok s' then Some (s', fs2)
                 else Some (s', upd_obj a (\<lambda>_. zf) (fs2\<lparr>files := merase lname (files fs2)\<rparr>)))
          else Some (s, fs2))"
      using True a by (simp add: LinkFile_def fname_def [symmetric] lname_def [symmetric] g m_def)
    obtain y where y: "SyncFileMetadataNoLock be a False ?X = Some y"
      using run unfolding eq bind_eq_Some_conv by (elim exE conjE) (rule that)
    obtain s2 fs2 where p: "SyncFileMetadataNoLock be a False ?X = Some (s2, fs2)" using y by (cases y) simp
    note rest = run [unfolded eq p]
    have r2: "relinked fs a l False m fs2"
      using relinked_same [OF rX SyncFileMetadataNoLock_same [OF lX _ p]] by (simp add: upd_obj_def)
    note o2 = relinked_obj [OF r2]
    have fmt: "FormatPathLexically n = n" if "n \<in> set l" for n
      using that o(6) FormatPathLexically_abs [OF abs(2)] by (auto simp: l_def lname_def)
    show ?thesis
    proof (cases "ok s2")
      case ok: True
      have "ns_inv fs2"
      proof (rule relinked_inv [OF inv _ _ m(1) _ _ _ fmt])
        show "relinked fs a l (l = []) m fs2" using r2 by (simp add: l_def)
        show "mfind n m = Some b \<longleftrightarrow> (if b = a then n \<in> set l else directory fs n = Some b)" for n b
          using o(7) True by (auto simp: m(2) l_def)
        show "length l < 2 ^ 32" using few a by (simp add: l_def fname_def)
      qed (use o(1,3) nl in \<open>simp_all add: l_def\<close>)
      moreover have "directory fs2 = (directory fs)(lname \<mapsto> a)" using relinked_directory [OF r2] m(2) by auto
      ultimately show ?thesis using rest ok r2 a True by (simp add: relinked_def)
    next
      case failed: False
      define l3 where "l3 = linkfiles (obj fs a)"
      define m3 where "m3 = merase lname m"
      have "remove1 lname l = l3" using nl by (simp add: l_def l3_def remove1_append)
      then have "fs' = upd_obj a (\<lambda>zf. zf\<lparr>linkfiles := l3\<rparr>) (fs2\<lparr>files := m3\<rparr>)"
        using rest failed o2 r2 by (simp add: RemoveLinkName_def l_def m3_def relinked_def upd_obj_def obj_def split: if_splits)
      then have r3: "relinked fs a l3 False m3 fs'"
        using relinked_upd_again [OF r2, of "\<lambda>zf. zf\<lparr>linkfiles := l3\<rparr>" l3 False m3] o2 by simp
      have m3: "map_inv m3" "mfind n m3 = directory fs n" for n
        using m True by (auto simp: m3_def map_inv_merase mfind_merase)
      have ne: "l3 \<noteq> []" using o(2) by (auto simp: l3_def)
      have "ns_inv fs'"
      proof (rule relinked_inv [OF inv _ _ m3(1)])
        show "relinked fs a l3 (l3 = []) m3 fs'" using r3 ne by simp
        show "mfind n m3 = Some b \<longleftrightarrow> (if b = a then n \<in> set l3 else directory fs n = Some b)" for n b
          using o(7) by (simp add: m3(2) l3_def)
      qed (use o ne in \<open>simp_all add: l3_def\<close>)
      moreover have "directory fs' = directory fs" using relinked_directory [OF r3] m3(2) by auto
      ultimately show ?thesis using r3 by (simp add: relinked_def)
    qed
  qed
qed

end
