(* ===== verification/Zenfs_Reach.thy ===== *)
theory Zenfs_Reach
  imports Zenfs_Ops
begin

text \<open>
  Creating files, the operations on directories, and the states that any sequence of operations
  reaches: they all satisfy the invariant of the name space.
\<close>

section \<open>Creating\<close>

text \<open>The state with one more address and one more id handed out.\<close>

definition grown :: "('d, 'x) zenfs \<Rightarrow> ('d, 'x) zenfs" where
  "grown fs = fs\<lparr>next_obj := next_obj fs + 1, next_file_id := next_file_id fs + 1\<rparr>"

lemma fresh_object:
  assumes "ns_core fs"
  shows "objs fs (next_obj fs) = None" "links_of fs (next_obj fs) = []" "handles fs (next_obj fs) = 0"
proof -
  show n: "objs fs (next_obj fs) = None"
    using assms by (cases "objs fs (next_obj fs)") (auto simp: ns_core_def object_ok_def)
  then show "links_of fs (next_obj fs) = []" by (rule links_of_None)
  show "handles fs (next_obj fs) = 0" using assms n by (auto simp: ns_core_def)
qed

lemma less_Suc_word: "(x :: u64) < n \<Longrightarrow> n \<noteq> - 1 \<Longrightarrow> x < n + 1" "n \<noteq> - 1 \<Longrightarrow> (n :: u64) < n + 1"
proof -
  have n: "unat (n + 1) = unat n + 1" if "n \<noteq> - 1"
  proof -
    have "unat n \<noteq> unat (- 1 :: u64)" using that by (simp add: word_unat_eq_iff)
    moreover have "unat (- 1 :: u64) = 2 ^ 64 - 1" by (simp add: unsigned_minus_1_eq_mask mask_eq_exp_minus_1)
    ultimately have "unat n + unat (1 :: u64) < 2 ^ 64" using unat_lt2p [of n] by simp
    then show ?thesis using unat_add_no_wrap [of n 1] by simp
  qed
  then show "x < n + 1" if "x < n" "n \<noteq> - 1" using that by (simp add: word_less_nat_alt)
  show "n < n + 1" if "n \<noteq> - 1" using n that by (simp add: word_less_nat_alt)
qed

lemma grown_inv:
  assumes "ns_inv fs" and "next_file_id fs \<noteq> - 1"
  shows "ns_inv (grown fs)"
proof -
  have l: "links_of (grown fs) = links_of fs" by (auto simp: links_of_def grown_def)
  have "object_ok (grown fs) a zf" if "object_ok fs a zf" for a zf
    using that less_Suc_word(1) [OF _ assms(2)] by (auto simp: object_ok_def grown_def)
  then show ?thesis
    using assms(1) by (simp add: ns_inv_def ns_core_def held_def l) (simp add: grown_def unique_ids_def)
qed

lemma grown_sel [simp]:
  "directory (grown fs) = directory fs" "handles (grown fs) = handles fs" "next_file_id (grown fs) = next_file_id fs + 1"
  "files (grown fs) = files fs" "objs (grown fs) = objs fs"
  by (auto simp: grown_def directory_def)

text \<open>An object without a name, which a first name is then given to.\<close>

lemma unnamed_core:
  assumes inv: "ns_inv fs" and id: "next_file_id fs \<noteq> - 1"
    and zf: "linkfiles zf = []" "is_deleted zf" "file_id zf = next_file_id fs"
  shows "ns_core ((grown fs)\<lparr>objs := (objs fs)(next_obj fs \<mapsto> zf)\<rparr>)"
proof -
  let ?a = "next_obj fs" and ?fs = "(grown fs)\<lparr>objs := (objs fs)(next_obj fs \<mapsto> zf)\<rparr>"
  have core: "ns_core fs" "ns_core (grown fs)" using inv grown_inv [OF inv id] by (simp_all add: ns_inv_def)
  have l: "links_of ?fs b = links_of fs b" for b
    using fresh_object(2) [OF core(1)] zf(1) by (simp add: links_of_def grown_def)
  have ids: "file_id w < next_file_id fs" if "objs fs b = Some w" for b w
    using core(1) that by (simp add: ns_core_def object_ok_def)
  have "object_ok ?fs b w" if "objs ?fs b = Some w" for b w
  proof (cases "b = ?a")
    case True
    then show ?thesis using that zf less_Suc_word(2) [OF id] by (simp add: object_ok_def grown_def)
  next
    case False
    then have "object_ok (grown fs) b w" using core(2) that by (simp add: ns_core_def)
    then show ?thesis by (simp add: object_ok_def)
  qed
  moreover have "unique_ids ?fs"
    unfolding unique_ids_def
  proof (intro allI impI)
    fix b1 b2 w1 w2 assume w: "objs ?fs b1 = Some w1" "objs ?fs b2 = Some w2" "file_id w1 = file_id w2"
    then show "b1 = b2"
      using ids [of b1 w1] ids [of b2 w2] zf(3) core(1)
      by (auto simp: ns_core_def unique_ids_def split: if_splits)
  qed
  ultimately show ?thesis
    using core(1) by (auto simp: ns_core_def l)
qed

lemma create_file_spec:
  assumes inv: "ns_inv fs" and id: "next_file_id fs \<noteq> - 1"
    and free: "directory fs fname = None" "FormatPathLexically fname = fname"
    and run: "create_file cfg be fname direct fs = Some (s, res, fs')"
  shows "ns_inv fs' \<and>
     (if ok s then (\<exists>w. res = Some (next_obj fs, w)) \<and> directory fs' = (directory fs)(fname \<mapsto> next_obj fs) \<and> 0 < handles fs' (next_obj fs)
      else res = None \<and> directory fs' = directory fs)"
proof -
  let ?a = "next_obj fs"
  have core: "ns_core fs" using inv by (simp add: ns_inv_def)
  note fresh = fresh_object [OF core]
  define zf0 where "zf0 = AddLinkName fname ((newZoneFile (next_file_id fs))\<lparr>m_time := clock fs\<rparr>)"
  define zf where "zf = (if ends_with fname (str ''.log'')
                then (SetIOType kWAL zf0)\<lparr>is_sparse := \<not> direct\<rparr> else SetIOType kUnknown zf0)"
  have zf: "linkfiles zf = [fname]" "\<not> is_deleted zf" "file_id zf = next_file_id fs"
    by (simp_all add: zf_def zf0_def SetIOType_def AddLinkName_def newZoneFile_def)
  define fs1 where "fs1 = fs\<lparr>next_obj := ?a + 1, next_file_id := next_file_id fs + 1, objs := (objs fs)(?a \<mapsto> zf)\<rparr>"
  have nf: "new_file fname direct fs = (?a, fs1)"
    by (simp add: new_file_def Let_def fs1_def zf_def zf0_def)
  have l1: "live fs1" using ns_core_live [OF core] by (auto simp: live_def fs1_def)
  obtain y where y: "SyncFileMetadataNoLock be ?a False fs1 = Some y"
    using run unfolding create_file_def nf prod.case bind_eq_Some_conv by (elim exE conjE) (rule that)
  obtain s2 fs2 where p: "SyncFileMetadataNoLock be ?a False fs1 = Some (s2, fs2)" using y by (cases y) simp
  have s12: "same_names fs1 fs2" using SyncFileMetadataNoLock_same [OF l1 _ p] by (simp add: fs1_def)
  show ?thesis
  proof (cases "ok s2")
    case False
    have f: "s = s2" "res = None" "fs' = release be ?a fs2" using run False by (auto simp: create_file_def nf p)
    have "?a \<notin> snd ` set (files fs)" using ns_core_entry [OF core, of ?a] fresh(2) by simp
    then have "\<not> referenced ?a fs2"
      using s12 fresh(3) by (simp add: referenced_def same_names_def fs1_def)
    moreover have "objs fs2 ?a \<noteq> None" using same_names_None [OF s12, of ?a] by (simp add: fs1_def)
    ultimately have r: "fs' = fs2\<lparr>fs_dev := delete_ZoneFile be (obj fs2 ?a) (fs_dev fs2), objs := (objs fs2)(?a := None)\<rparr>"
      by (auto simp: f release_def obj_def)
    have "same_names (grown fs) fs'"
      using s12 fresh(1) unfolding r by (auto simp: same_names_def grown_def fs1_def)
    then show ?thesis
      using False f ns_inv_same grown_inv [OF inv id] directory_same by fastforce
  next
    case True
    obtain w zf' where w: "s = s2" "res = Some (?a, w)" "AcquireWRLock (obj fs2 ?a) = Some zf'"
        "fs' = hold_handle ?a (upd_obj ?a (\<lambda>_. zf') (fs2\<lparr>files := minsert fname ?a (files fs2)\<rparr>))"
      using run True by (auto simp: create_file_def nf p bind_eq_Some_conv)
    define fsN where "fsN = (grown fs)\<lparr>objs := (objs fs)(?a \<mapsto> zf\<lparr>linkfiles := [], is_deleted := True\<rparr>)\<rparr>"
    have coreN: "ns_core fsN" unfolding fsN_def by (rule unnamed_core [OF inv id]) (simp_all add: zf(3))
    have r2: "relinked fsN ?a [fname] False (files fs) fs2"
    proof (rule relinked_same [OF _ s12])
      show "relinked fsN ?a [fname] False (files fs) fs1"
        using zf by (simp add: relinked_def fsN_def fs1_def grown_def file_key_def obj_def)
    qed
    define m where "m = minsert fname ?a (files fs)"
    let ?X = "upd_obj ?a (\<lambda>_. zf') (fs2\<lparr>files := m\<rparr>)"
    have "files fs2 = files fs" using r2 by (simp add: relinked_def)
    then have fs': "fs' = hold_handle ?a ?X" using w(4) by (simp add: m_def)
    have k: "linkfiles zf' = [fname]" "\<not> is_deleted zf'" "file_id zf' = file_id (obj fs2 ?a)"
      using w(3) relinked_obj [OF r2] by (auto simp: AcquireWRLock_def split: if_splits)
    have rX: "relinked fsN ?a [fname] ([fname] = []) m ?X"
      using relinked_again [OF r2 relinked_upd [OF k(1) _ k(3), of False m]] k(2) by simp
    have fm: "map_inv (files fs)" using core by (simp add: ns_core_def)
    have m: "map_inv m" "mfind n m = (if n = fname then Some ?a else directory fs n)" for n
      using fm free(1) by (auto simp: m_def directory_def map_inv_minsert mfind_minsert)
    have dN: "directory fsN = directory fs" by (simp add: fsN_def)
    have na: "directory fs n \<noteq> Some ?a" for n
      using ns_core_find [OF core, of n ?a] fresh(2) by (simp add: directory_def)
    have "ns_core ?X"
    proof (rule relinked_core [OF coreN _ rX m(1)])
      show "objs fsN ?a \<noteq> None" by (simp add: fsN_def)
      show "mfind n m = Some b \<longleftrightarrow> (if b = ?a then n \<in> set [fname] else directory fsN n = Some b)" for n b
        using free(1) na by (auto simp: m(2) dN)
    qed (simp_all add: free(2))
    moreover have "held ?X b" for b
    proof (cases "b = ?a")
      case True
      then show ?thesis using relinked_links [OF rX, of b] by (simp add: held_def)
    next
      case False
      have "held fsN b" using inv False by (simp add: ns_inv_def held_def links_of_def fsN_def)
      then show ?thesis using False by (intro relinked_held [OF rX]) simp_all
    qed
    ultimately have "ns_inv ?X" by (simp add: ns_inv_def)
    then have "ns_inv fs'" unfolding fs' by (rule hold_handle_inv) (simp add: upd_obj_def)
    moreover have "directory fs' = (directory fs)(fname \<mapsto> ?a)"
      using relinked_directory [OF rX] m(2) by (auto simp: fs')
    ultimately show ?thesis using True w(1,2) by (auto simp: fs')
  qed
qed

lemma reset_unused_same: "reset_unused be fs = (s, fs') \<Longrightarrow> same_names fs fs'"
  by (auto simp: reset_unused_def split: prod.splits)

lemma AcquireWRLock_key: "AcquireWRLock zf = Some zf' \<Longrightarrow> file_key zf' = file_key zf"
  by (auto simp: AcquireWRLock_def split: if_splits)

lemma OpenWritableFile_inv:
  assumes inv: "ns_inv fs" and id: "next_file_id fs \<noteq> - 1" and abs: "is_absolute filename"
    and run: "OpenWritableFile cfg be ax filename direct reopen fs = Some (s, res, fs')"
  shows "ns_inv fs'"
proof -
  define fname where "fname = FormatPathLexically filename"
  have f: "FormatPathLexically fname = fname" "is_absolute fname" by (simp_all add: fname_def FormatPathLexically_abs [OF abs])
  have g: "GetFileNoLock fname fs = directory fs fname" by (simp add: GetFileNoLock_def directory_def f)
  have core: "ns_core fs" using inv by (simp add: ns_inv_def)
  show ?thesis
  proof (cases "directory fs fname")
    case None
    then have "create_file cfg be fname direct fs = Some (s, res, fs')"
      using run g by (simp add: OpenWritableFile_def fname_def [symmetric])
    then show ?thesis using create_file_spec [OF inv id None f(1)] by blast
  next
    case (Some a)
    show ?thesis
    proof (cases reopen)
      case True
      then obtain zf where z: "AcquireWRLock (obj fs a) = Some zf" "fs' = hold_handle a (upd_obj a (\<lambda>_. zf) fs)"
        using run g Some by (auto simp: OpenWritableFile_def fname_def [symmetric] bind_eq_Some_conv)
      have a: "objs fs a \<noteq> None" using named_object(1) [OF core Some] by simp
      have "same_names fs (upd_obj a (\<lambda>_. zf) fs)" using a AcquireWRLock_key [OF z(1)] by (rule same_names_upd_obj)
      then have "ns_inv (upd_obj a (\<lambda>_. zf) fs)" using inv by (rule ns_inv_same)
      then show ?thesis unfolding z(2) by (rule hold_handle_inv) (simp add: upd_obj_def)
    next
      case False
      then obtain s1 fs1 where d: "DeleteFileNoLock be ax fname fs = Some (s1, fs1)"
          and rest: "(if \<not> ok s1 then Some (s1, None, fs1)
             else create_file cfg be fname direct fs1 \<bind> (\<lambda>(s2, res, fs2).
               if \<not> ok s2 then Some (s2, res, fs2)
               else case reset_unused be fs2 of (s3, fs3) \<Rightarrow> Some (s3, res, fs3))) = Some (s, res, fs')"
        using run g Some by (auto simp: OpenWritableFile_def fname_def [symmetric] bind_eq_Some_conv)
      note del = DeleteFileNoLock_spec [OF inv f(2) d, unfolded f(1)]
      show ?thesis
      proof (cases "ok s1")
        case False
        then show ?thesis using rest del by simp
      next
        case True
        then have "directory fs1 fname = None" using del Some by simp
        note c = create_file_spec [OF conjunct1 [OF del] _ this f(1)]
        obtain s2 res2 fs2 where r: "create_file cfg be fname direct fs1 = Some (s2, res2, fs2)"
            "fs' = fs2 \<or> (\<exists>s3. reset_unused be fs2 = (s3, fs'))"
          using rest True by (auto simp: bind_eq_Some_conv split: if_splits prod.splits)
        have "ns_inv fs2" using c [OF _ r(1)] del id by simp
        then show ?thesis using r(2) reset_unused_same ns_inv_same by blast
      qed
    qed
  qed
qed

lemma DeleteFile_inv:
  assumes "ns_inv fs" and "is_absolute fname" and "DeleteFile be ax fname fs = Some (s, fs')"
  shows "ns_inv fs' \<and> next_file_id fs' = next_file_id fs \<and> handles fs' = handles fs"
proof -
  obtain s1 fs1 where d: "DeleteFileNoLock be ax fname fs = Some (s1, fs1)"
      "reset_unused be fs1 = (s, fs') \<or> fs' = fs1"
    using assms(3) by (auto simp: DeleteFile_def bind_eq_Some_conv split: if_splits)
  have s: "same_names fs1 fs'" using d(2) reset_unused_same by auto
  then show ?thesis
    using DeleteFileNoLock_spec [OF assms(1,2) d(1)] ns_inv_same [OF s] by (simp add: same_names_def)
qed

section \<open>Directories\<close>

text \<open>What the routines that call themselves are assumed to keep, and keep.\<close>

definition keeps :: "(('d, 'x) zenfs \<Rightarrow> (status \<times> ('d, 'x) zenfs) option) \<Rightarrow> bool" where
  "keeps f \<longleftrightarrow> (\<forall>fs s fs'. ns_inv fs \<longrightarrow> f fs = Some (s, fs') \<longrightarrow> ns_inv fs')"

lemma keepsD: "keeps f \<Longrightarrow> ns_inv fs \<Longrightarrow> f fs = Some (s, fs') \<Longrightarrow> ns_inv fs'"
  by (auto simp: keeps_def)

lemma on_aux_inv: "ns_inv fs \<Longrightarrow> on_aux f fs = (s, fs') \<Longrightarrow> ns_inv fs'"
  using on_aux_same ns_inv_same by blast

lemma DeleteDir_children_inv:
  assumes del: "\<And>f. is_absolute f \<Longrightarrow> keeps (del f)" and d: "is_absolute d"
  shows "ns_inv fs \<Longrightarrow> DeleteDir_children del be ax d cs fs = Some (s, fs') \<Longrightarrow> ns_inv fs'"
proof (induction cs arbitrary: fs)
  case (Cons c cs)
  have f: "is_absolute (path_append d c)" by (rule is_absolute_append [OF d])
  obtain s0 is_dir where i: "IsDirectoryNoLock ax (path_append d c) fs = Some (s0, is_dir)"
    using Cons.prems(2) by (auto simp: Let_def bind_eq_Some_conv)
  show ?case
  proof (cases "ok s0")
    case False
    then show ?thesis using Cons.prems i by simp
  next
    case True
    obtain s1 fs1 where r: "(if is_dir then del (path_append d c) fs else DeleteFileNoLock be ax (path_append d c) fs) = Some (s1, fs1)"
        "(if \<not> ok s1 then Some (s1, fs1) else DeleteDir_children del be ax d cs fs1) = Some (s, fs')"
      using Cons.prems(2) i True by (auto simp: Let_def bind_eq_Some_conv)
    have "ns_inv fs1"
      using r(1) keepsD [OF del [OF f] Cons.prems(1)] DeleteFileNoLock_spec [OF Cons.prems(1) f] by (cases is_dir) auto
    then show ?thesis using r(2) Cons.IH by (auto split: if_splits)
  qed
qed simp

lemma DeleteDirRecursiveNoLock_inv: "is_absolute dir \<Longrightarrow> keeps (DeleteDirRecursiveNoLock be ax n dir)"
proof (induction n arbitrary: dir)
  case 0
  then show ?case by (simp add: keeps_def)
next
  case (Suc n)
  have d: "is_absolute (FormatPathLexically dir)" by (rule FormatPathLexically_abs(1) [OF Suc.prems])
  show ?case
    unfolding keeps_def
  proof (intro allI impI)
    fix fs s fs' assume inv: "ns_inv fs" and run: "DeleteDirRecursiveNoLock be ax (Suc n) dir fs = Some (s, fs')"
    show "ns_inv fs'"
    proof (rule ccontr)
      assume no: "\<not> ns_inv fs'"
      obtain cs s1 fs1 where r: "DeleteDir_children (DeleteDirRecursiveNoLock be ax n) be ax (FormatPathLexically dir) cs fs = Some (s1, fs1)"
          "fs' = fs1 \<or> (\<exists>p. on_aux (aux_DeleteDir ax p) fs1 = (s, fs'))"
        using run no inv by (auto simp: Let_def bind_eq_Some_conv split: if_splits)
      have "ns_inv fs1" by (rule DeleteDir_children_inv [OF Suc.IH d inv r(1)])
      then show False using r(2) no on_aux_inv by blast
    qed
  qed
qed

lemma DeleteDirRecursive_inv: "is_absolute d \<Longrightarrow> keeps (DeleteDirRecursive be ax n d)"
  unfolding keeps_def
proof (intro allI impI)
  fix fs s fs' assume d: "is_absolute d" and inv: "ns_inv fs" and run: "DeleteDirRecursive be ax n d fs = Some (s, fs')"
  obtain s1 fs1 where r: "DeleteDirRecursiveNoLock be ax n d fs = Some (s1, fs1)" "reset_unused be fs1 = (s, fs') \<or> fs' = fs1"
    using run by (auto simp: DeleteDirRecursive_def bind_eq_Some_conv split: if_splits)
  have "ns_inv fs1" by (rule keepsD [OF DeleteDirRecursiveNoLock_inv [OF d] inv r(1)])
  then show "ns_inv fs'" using r(2) reset_unused_same ns_inv_same by blast
qed

definition renaming_keeps :: "('d, 'x) renaming \<Rightarrow> bool" where
  "renaming_keeps ren \<longleftrightarrow> (\<forall>p q. is_absolute p \<longrightarrow> is_absolute q \<longrightarrow> keeps (ren p q))"

lemma RenameChildNoLock_inv:
  "renaming_keeps ren \<Longrightarrow> is_absolute p \<Longrightarrow> is_absolute q \<Longrightarrow> ns_inv fs \<Longrightarrow>
   RenameChildNoLock ren p q c fs = Some (s, fs') \<Longrightarrow> ns_inv fs'"
  unfolding RenameChildNoLock_def renaming_keeps_def using is_absolute_append keepsD by metis

lemma Rollback_children_inv:
  assumes "renaming_keeps ren" "is_absolute p" "is_absolute q"
  shows "ns_inv fs \<Longrightarrow> Rollback_children ren p q cs fs = Some (s, fs') \<Longrightarrow> ns_inv fs'"
proof (induction cs arbitrary: fs)
  case (Cons c cs)
  obtain s1 fs1 where r: "RenameChildNoLock ren q p c fs = Some (s1, fs1)"
      "fs' = fs1 \<or> Rollback_children ren p q cs fs1 = Some (s, fs')"
    using Cons.prems(2) by (auto simp: bind_eq_Some_conv split: if_splits)
  have "ns_inv fs1" by (rule RenameChildNoLock_inv [OF assms(1,3,2) Cons.prems(1) r(1)])
  then show ?case using r(2) Cons.IH by blast
qed simp

lemma RollbackAuxDirRename_inv:
  assumes "renaming_keeps ren" "is_absolute p" "is_absolute q"
    and inv: "ns_inv fs" and run: "RollbackAuxDirRenameNoLock ren ax p q cs fs = Some (s, fs')"
  shows "ns_inv fs'"
proof -
  obtain s1 fs1 where r: "Rollback_children ren p q cs fs = Some (s1, fs1)"
      "fs' = fs1 \<or> (\<exists>f s2. on_aux f fs1 = (s2, fs'))"
    using run by (auto simp: RollbackAuxDirRenameNoLock_def bind_eq_Some_conv case_prod_beta split: if_splits)
      (metis prod.collapse)+
  have "ns_inv fs1" by (rule Rollback_children_inv [OF assms(1-3) inv r(1)])
  then show ?thesis using r(2) on_aux_inv by blast
qed

lemma RenameChildren_inv:
  assumes "renaming_keeps ren" "is_absolute p" "is_absolute q"
  shows "ns_inv fs \<Longrightarrow> RenameChildren ren ax p q cs done fs = Some (s, fs') \<Longrightarrow> ns_inv fs'"
proof (induction cs arbitrary: "done" fs)
  case (Cons c cs)
  obtain s1 fs1 where r: "RenameChildNoLock ren p q c fs = Some (s1, fs1)"
      "(\<exists>s2. RollbackAuxDirRenameNoLock ren ax p q done fs1 = Some (s2, fs'))
       \<or> RenameChildren ren ax p q cs (done @ [c]) fs1 = Some (s, fs')"
    using Cons.prems(2) by (auto simp: bind_eq_Some_conv split: if_splits)
  have "ns_inv fs1" by (rule RenameChildNoLock_inv [OF assms Cons.prems(1) r(1)])
  then show ?case using r(2) Cons.IH RollbackAuxDirRename_inv [OF assms] by blast
qed simp

lemma RenameFile_step_inv:
  assumes "renaming_keeps ren"
  shows "renaming_keeps (RenameFile_step ren be ax)"
  unfolding renaming_keeps_def keeps_def
proof (intro allI impI)
  fix p q fs s fs'
  assume abs: "is_absolute p" "is_absolute q" and inv: "ns_inv fs" and run: "RenameFile_step ren be ax p q fs = Some (s, fs')"
  let ?p = "FormatPathLexically p" and ?q = "FormatPathLexically q"
  note pq = FormatPathLexically_abs(1) [OF abs(1)] FormatPathLexically_abs(1) [OF abs(2)]
  show "ns_inv fs'"
  proof (cases "directory fs ?p")
    case (Some a)
    then have "rename_zenfs_file be ax ?p ?q a fs = Some (s, fs')"
      using run GetFileNoLock_abs [OF abs(1), of fs] by (simp add: RenameFile_step_def Let_def)
    then show ?thesis using rename_zenfs_file_spec [OF inv abs(2) Some] by blast
  next
    case None
    then obtain f s1 fs1 where r: "on_aux f fs = (s1, fs1)"
        "fs' = fs1 \<or> (\<exists>cs. RenameChildren ren ax ?p ?q cs [] fs1 = Some (s, fs'))"
      using run GetFileNoLock_abs [OF abs(1), of fs]
      by (auto simp: RenameFile_step_def RenameAuxPathNoLock_def Let_def bind_eq_Some_conv case_prod_beta split: if_splits)
        (metis prod.collapse)+
    have "ns_inv fs1" by (rule on_aux_inv [OF inv r(1)])
    then show ?thesis using r(2) RenameChildren_inv [OF assms pq] by blast
  qed
qed

lemma RenameFileNoLock_inv: "renaming_keeps (RenameFileNoLock be ax n)"
proof (induction n)
  case 0
  have "renaming_keeps (\<lambda>src dst fs. None)" by (simp add: renaming_keeps_def keeps_def)
  from RenameFile_step_inv [OF this] show ?case by simp
qed (simp add: RenameFile_step_inv)

lemma RenameFile_inv:
  assumes "is_absolute p" "is_absolute q" and inv: "ns_inv fs" and run: "RenameFile be ax n p q fs = Some (s, fs')"
  shows "ns_inv fs'"
proof -
  obtain s1 fs1 where r: "RenameFileNoLock be ax n p q fs = Some (s1, fs1)" "reset_unused be fs1 = (s, fs') \<or> fs' = fs1"
    using run by (auto simp: RenameFile_def bind_eq_Some_conv split: if_splits)
  have "keeps (RenameFileNoLock be ax n p q)"
    using RenameFileNoLock_inv [of be ax n] assms(1,2) by (simp add: renaming_keeps_def)
  then have "ns_inv fs1" using inv r(1) by (rule keepsD)
  then show ?thesis using r(2) reset_unused_same ns_inv_same by blast
qed

section \<open>Reachable states\<close>

text \<open>
  The operations RocksDB calls, with the absolute names it uses; \<open>a\<close> is the object behind an open
  file. The limits are those of the counters: ids have 64 bits, the number of links 32.
\<close>

inductive fs_step :: "config \<Rightarrow> 'd backend \<Rightarrow> 'x aux_fs \<Rightarrow> ('d, 'x) zenfs \<Rightarrow> ('d, 'x) zenfs \<Rightarrow> bool"
  for cfg be ax where
  open_writable: "OpenWritableFile cfg be ax p direct reopen fs = Some (s, res, fs') \<Longrightarrow> is_absolute p \<Longrightarrow>
     next_file_id fs \<noteq> - 1 \<Longrightarrow> fs_step cfg be ax fs fs'"
| open_sequential: "NewSequentialFile p direct fs = (s, res, fs') \<Longrightarrow> fs_step cfg be ax fs fs'"
| append: "handles fs a > 0 \<Longrightarrow>
     ZonedWritableFile_Append cfg be (Persist be a) data w (enter a fs) = Some (s, w', st) \<Longrightarrow> fs_step cfg be ax fs (leave a st)"
| sync: "handles fs a > 0 \<Longrightarrow>
     Fsync cfg be (Persist be a) w (enter a fs) = Some (s, w', st) \<Longrightarrow> fs_step cfg be ax fs (leave a st)"
| close: "handles fs a > 0 \<Longrightarrow> CloseHandle cfg be a w fs = Some fs' \<Longrightarrow> fs_step cfg be ax fs fs'"
| close_sequential: "handles fs a > 0 \<Longrightarrow> fs_step cfg be ax fs (drop_handle be a fs)"
| delete: "DeleteFile be ax p fs = Some (s, fs') \<Longrightarrow> is_absolute p \<Longrightarrow> fs_step cfg be ax fs fs'"
| delete_dir: "DeleteDirRecursive be ax n p fs = Some (s, fs') \<Longrightarrow> is_absolute p \<Longrightarrow> fs_step cfg be ax fs fs'"
| link: "LinkFile be ax p q fs = Some (s, fs') \<Longrightarrow> is_absolute p \<Longrightarrow> is_absolute q \<Longrightarrow>
     \<forall>a zf. objs fs a = Some zf \<longrightarrow> length (linkfiles zf) + 1 < 2 ^ 32 \<Longrightarrow> fs_step cfg be ax fs fs'"
| rename: "RenameFile be ax n p q fs = Some (s, fs') \<Longrightarrow> is_absolute p \<Longrightarrow> is_absolute q \<Longrightarrow> fs_step cfg be ax fs fs'"

inductive fs_reach :: "config \<Rightarrow> 'd backend \<Rightarrow> 'x aux_fs \<Rightarrow> ('d, 'x) zenfs \<Rightarrow> ('d, 'x) zenfs \<Rightarrow> bool"
  for cfg be ax fs0 where
  start: "fs_reach cfg be ax fs0 fs0"
| step: "fs_reach cfg be ax fs0 fs \<Longrightarrow> fs_step cfg be ax fs fs' \<Longrightarrow> fs_reach cfg be ax fs0 fs'"

text \<open>A file system without files.\<close>

definition no_files :: "('d, 'x) zenfs \<Rightarrow> bool" where
  "no_files fs \<longleftrightarrow> files fs = [] \<and> objs fs = Map.empty \<and> handles fs = (\<lambda>_. 0)"

lemma no_files_inv: "no_files fs \<Longrightarrow> ns_inv fs"
  by (simp add: no_files_def ns_inv_def ns_core_def held_def links_of_def unique_ids_def)

lemma handle_object: "ns_inv fs \<Longrightarrow> handles fs a > 0 \<Longrightarrow> objs fs a \<noteq> None \<and> live fs"
  using ns_core_live [of fs] by (auto simp: ns_inv_def) (simp add: ns_core_def)

lemma kept_inv: "names_kept a fs st \<Longrightarrow> ns_inv fs \<Longrightarrow> ns_inv (leave a st)"
  by (auto simp: names_kept_def intro: ns_inv_same)

lemma fs_step_inv: "fs_step cfg be ax fs fs' \<Longrightarrow> ns_inv fs \<Longrightarrow> ns_inv fs'"
proof (induction rule: fs_step.induct)
  case (open_sequential p direct fs s res fs')
  then show ?case
    by (auto simp: NewSequentialFile_def GetFile_def GetFileNoLock_def directory_def [symmetric] ns_inv_def
        intro!: hold_handle_inv [unfolded ns_inv_def] dest: named_object(1) split: option.splits)
next
  case (append fs a data w s w' st)
  then show ?case
    using handle_object [of fs a] zenfs_writer.ZonedWritableFile_Append_inv [OF names_kept_enter] kept_inv by blast
next
  case (sync fs a w s w' st)
  then show ?case
    using handle_object [of fs a] zenfs_writer.Fsync_inv [OF names_kept_enter] kept_inv by blast
next
  case (close fs a w fs')
  then obtain st where st: "delete_ZonedWritableFile cfg be (Persist be a) w (enter a fs) = Some st" "fs' = drop_handle be a (leave a st)"
    by (auto simp: CloseHandle_def)
  have "names_kept a fs (enter a fs)" using handle_object close names_kept_enter by blast
  then have "ns_inv (leave a st)"
    using zenfs_writer.delete_ZonedWritableFile_inv [OF _ st(1)] kept_inv close.prems by blast
  then show ?case by (simp add: st(2) drop_handle_inv)
next
  case (link p q fs s fs')
  then show ?case
    using LinkFile_spec [OF link.prems link(2,3) _ link(1)] named_object(1) [of fs] by (auto simp: ns_inv_def)
qed (auto intro: OpenWritableFile_inv drop_handle_inv RenameFile_inv keepsD [OF DeleteDirRecursive_inv]
    dest: DeleteFile_inv)

lemma fs_reach_inv: "fs_reach cfg be ax fs0 fs \<Longrightarrow> ns_inv fs0 \<Longrightarrow> ns_inv fs"
  by (induction rule: fs_reach.induct) (auto intro: fs_step_inv)

end
