(* ===== verification/Zenfs_Names_Props.thy ===== *)
theory Zenfs_Names_Props
  imports Zenfs_Reach Meta_Log_Props File_Codec
begin

text \<open>
  The properties of the name space, and a file system in memory with one file for their concrete
  instances.
\<close>

section \<open>A file system in memory\<close>

text \<open>A device whose writes fail.\<close>

definition failing_backend :: "(u64 \<Rightarrow> byte) backend" where
  "failing_backend = (ram_backend 16384)\<lparr>be_Write := (\<lambda>data pos d. (- 1, d))\<rparr>"

definition no_aux :: "unit aux_fs" where
  "no_aux =
     \<lparr> aux_FileExists = (\<lambda>_ _. NotFound), aux_DeleteFile = (\<lambda>_ _. (NotFound, ())),
       aux_RenameFile = (\<lambda>_ _ _. (NotFound, ())), aux_LinkFile = (\<lambda>_ _ _. (NotFound, ())),
       aux_GetChildren = (\<lambda>_ _. (NotFound, [])), aux_IsDirectory = (\<lambda>_ _. (NotFound, False)),
       aux_DeleteDir = (\<lambda>_ _. (NotFound, ())), aux_CreateDirIfMissing = (\<lambda>_ _. (OK, ())),
       aux_GetFileSize = (\<lambda>_ _. (NotFound, 0)), aux_GetFileModificationTime = (\<lambda>_ _. (NotFound, 0)),
       aux_NumFileLinks = (\<lambda>_ _. (NotFound, 0)), aux_AreFilesSame = (\<lambda>_ _ _. (NotFound, False)) \<rparr>"

definition empty_fs :: "(u64 \<Rightarrow> byte, unit) zenfs" where
  "empty_fs =
     \<lparr> fs_dev = meta_dev, files = [], objs = Map.empty, next_obj = 0, handles = (\<lambda>_. 0), next_file_id = 0,
       meta_log = Some \<lparr> ml_read_pos = 4096, ml_zone = MetaZ 0 \<rparr>, superblock = None, run_gc_worker = False,
       aux = (), clock = 0 \<rparr>"

definition file_a :: ZoneFile where
  "file_a = AddLinkName (str ''/a'') (newZoneFile 0)"

definition one_file_fs :: "(u64 \<Rightarrow> byte, unit) zenfs" where
  "one_file_fs = empty_fs\<lparr>files := [(str ''/a'', 0)], objs := [0 \<mapsto> file_a], next_obj := 1, next_file_id := 1\<rparr>"

lemma path_a: "is_absolute (str ''/a'')" "FormatPathLexically (str ''/a'') = str ''/a''"
  by code_simp+

lemma path_b: "is_absolute (str ''/b'')" "FormatPathLexically (str ''/b'') = str ''/b''"
  by code_simp+

lemma path_a_b: "str ''/a'' \<noteq> str ''/b''"
  by code_simp

lemma empty_fs_inv: "no_files empty_fs" "ns_inv empty_fs"
  by (simp_all add: no_files_def empty_fs_def no_files_inv)

lemma one_file_fs_inv: "ns_inv one_file_fs" "directory one_file_fs = [str ''/a'' \<mapsto> 0]"
proof -
  have l: "links_of one_file_fs b = (if b = 0 then [str ''/a''] else [])" for b
    by (simp add: links_of_def one_file_fs_def empty_fs_def file_a_def AddLinkName_def newZoneFile_def)
  show "ns_inv one_file_fs"
    unfolding ns_inv_def ns_core_def held_def l
    by (auto simp: one_file_fs_def empty_fs_def file_a_def AddLinkName_def newZoneFile_def object_ok_def unique_ids_def
        map_inv_def mfind_def path_a split: if_splits)
  show "directory one_file_fs = [str ''/a'' \<mapsto> 0]"
    by (auto simp: directory_def one_file_fs_def mfind_def)
qed

text \<open>Appending to the memory device succeeds, to the failing one it does not.\<close>

lemma ram_append:
  assumes "of_nat (length data) \<le> z_capacity z"
  shows "Zone_Append (ram_backend zsz) data z w d =
     Some (OK, if data = [] then z else advance (int (length data)) z, w + of_nat (length data), if data = [] then d else blit d (z_wp z) data)"
proof -
  have "Zone_Append_loop (ram_backend zsz) [] z' w' d' = Some (OK, z', w', d')" for z' w' d'
    by (simp add: Zone_Append_loop.simps)
  moreover have "be_Write (ram_backend zsz) data (z_wp z) d = (int (length data), blit d (z_wp z) data)"
    by (simp add: ram_backend_def)
  ultimately show ?thesis
    using assms leD [OF assms] by (simp add: Zone_Append_def Zone_Append_loop.simps [of _ data] Let_def)
qed

definition one_block :: "bytes \<Rightarrow> bool" where
  "one_block rec \<longleftrightarrow> length rec \<le> 4088"

lemma length_one_block: "one_block rec \<Longrightarrow> length (meta_record (ram_backend zsz) rec) = 4096"
proof -
  assume o: "one_block rec"
  have "whole_blocks 4096 (length rec + 8) = 4096"
    using o by (cases "length rec = 4088") (simp_all add: whole_blocks_def one_block_def)
  then show ?thesis using o length_meta_record [of "ram_backend zsz" rec] by (simp add: ram_backend_def one_block_def)
qed

text \<open>Persisting a small record in the memory device, when the log has room for it.\<close>

lemma ram_PersistRecord:
  assumes "one_block rec" and "meta_log fs = Some ml" and "4096 \<le> z_capacity (zone_at (fs_dev fs) (ml_zone ml))"
  shows "\<exists>dev. PersistRecord (ram_backend zsz) rec fs = Some (OK, fs\<lparr>fs_dev := dev\<rparr>)"
  using assms length_one_block [OF assms(1), of zsz]
  by (auto simp: PersistRecord_def AddRecord_def append_to_def ram_append Let_def status_eq_def)

lemma ram_SyncFileMetadata:
  assumes "\<not> is_deleted (obj fs a)" and "meta_log fs = Some ml"
    and "one_block (update_record False ((obj fs a)\<lparr>m_time := clock fs\<rparr>))"
    and "4096 \<le> z_capacity (zone_at (fs_dev fs) (ml_zone ml))"
  shows "\<exists>dev. SyncFileMetadataNoLock (ram_backend zsz) a False fs =
     Some (OK, upd_obj a (\<lambda>zf. MetadataSynced (zf\<lparr>m_time := clock fs\<rparr>)) (fs\<lparr>fs_dev := dev\<rparr>))"
proof -
  let ?fs = "upd_obj a (\<lambda>zf. zf\<lparr>m_time := clock fs\<rparr>) fs"
  have "obj ?fs a = (obj fs a)\<lparr>m_time := clock fs\<rparr>" by (simp add: obj_def upd_obj_def)
  then obtain dev where "PersistRecord (ram_backend zsz) (update_record False (obj ?fs a)) ?fs = Some (OK, ?fs\<lparr>fs_dev := dev\<rparr>)"
    using ram_PersistRecord [of "update_record False (obj ?fs a)" ?fs ml zsz] assms by (auto simp: upd_obj_def)
  moreover have "upd_obj a MetadataSynced (?fs\<lparr>fs_dev := dev\<rparr>) = upd_obj a (\<lambda>zf. MetadataSynced (zf\<lparr>m_time := clock fs\<rparr>)) (fs\<lparr>fs_dev := dev\<rparr>)"
    by (simp add: upd_obj_def obj_def)
  ultimately show ?thesis using assms(1) by (intro exI [of _ dev]) (simp add: SyncFileMetadataNoLock_def)
qed

lemma failing_PersistRecord:
  assumes "meta_log fs = Some ml" and "fs_dev fs = meta_dev" and "ml_zone ml = MetaZ 0" and "one_block rec"
  shows "\<exists>fs'. PersistRecord failing_backend rec fs = Some (NoSpace, fs')"
proof -
  have len: "length (meta_record failing_backend rec) = 4096"
    using length_one_block [OF assms(4), of 16384] by (simp add: meta_record_def failing_backend_def)
  then have "meta_record failing_backend rec \<noteq> []" by (metis list.size(3) zero_neq_numeral)
  then have "AddRecord failing_backend rec ml meta_dev = Some (IOError, put_zone (MetaZ 0) (zone_at meta_dev (MetaZ 0)) meta_dev)"
    using assms(3) len
    by (simp add: AddRecord_def append_to_def Zone_Append_def Zone_Append_loop.simps failing_backend_def Let_def meta_dev_def)
  then show ?thesis
    using assms
    by (simp add: PersistRecord_def Let_def status_eq_def RollMetaZoneLocked_def AllocateMetaZone_def meta_dev_def)
qed

section \<open>Properties\<close>

text \<open>
  C2. Whatever RocksDB does with a file system that had no files (creating, opening, writing, syncing,
  closing, linking, renaming, deleting files and directories, in any order and with any failures of
  the device), the table of files and the link names stored in the file objects agree; the table has
  its keys in order and formatted; an object exists exactly as long as it has a name or is open; it is
  marked deleted exactly when it has no name left; and no two objects have the same file id.
\<close>

theorem namespace_consistent:
  assumes "no_files fs0" and "fs_reach cfg be ax fs0 fs"
  shows "map_inv (files fs) \<and>
     (\<forall>n a. mfind n (files fs) = Some a \<longleftrightarrow> (\<exists>zf. objs fs a = Some zf \<and> n \<in> set (linkfiles zf))) \<and>
     (\<forall>a. objs fs a \<noteq> None \<longleftrightarrow> referenced a fs) \<and>
     (\<forall>a zf. objs fs a = Some zf \<longrightarrow>
        is_deleted zf = (linkfiles zf = []) \<and> distinct (linkfiles zf) \<and>
        (\<forall>n \<in> set (linkfiles zf). FormatPathLexically n = n)) \<and>
     (\<forall>a b za zb. objs fs a = Some za \<longrightarrow> objs fs b = Some zb \<longrightarrow> file_id za = file_id zb \<longrightarrow> a = b)"
proof -
  have inv: "ns_inv fs" by (rule fs_reach_inv [OF assms(2) no_files_inv [OF assms(1)]])
  then have core: "ns_core fs" by (simp add: ns_inv_def)
  have "n \<in> set (links_of fs a) \<longleftrightarrow> (\<exists>zf. objs fs a = Some zf \<and> n \<in> set (linkfiles zf))" for n a
    by (cases "objs fs a") (simp_all add: links_of_def)
  moreover have "objs fs a \<noteq> None \<longleftrightarrow> referenced a fs" for a
    using inv core referenced_iff [OF core, of a] links_of_None [of fs a]
    by (auto simp: ns_inv_def held_def ns_core_def)
  ultimately show ?thesis
    using core by (simp add: ns_core_def object_ok_def unique_ids_def)
qed

lemma create_a:
  "\<exists>res fs'. OpenWritableFile small_config (ram_backend 16384) no_aux (str ''/a'') False False empty_fs = Some (OK, res, fs')"
proof -
  let ?be = "ram_backend 16384"
  obtain a fs1 where n: "new_file (str ''/a'') False empty_fs = (a, fs1)" by force
  then have f: "a = 0" "obj fs1 a = (SetIOType kUnknown file_a)" "meta_log fs1 = Some \<lparr> ml_read_pos = 4096, ml_zone = MetaZ 0 \<rparr>"
      "fs_dev fs1 = meta_dev" "clock fs1 = 0" "files fs1 = []"
    by (auto simp: new_file_def Let_def empty_fs_def obj_def file_a_def ends_with_def str_def SetIOType_def newZoneFile_def AddLinkName_def)
  have d: "\<not> is_deleted (SetIOType kUnknown file_a)" "\<not> open_for_wr (SetIOType kUnknown file_a)"
    by (simp_all add: SetIOType_def file_a_def AddLinkName_def newZoneFile_def)
  have b: "one_block (update_record False ((SetIOType kUnknown file_a)\<lparr>m_time := 0\<rparr>))"
    unfolding one_block_def by code_simp
  obtain dev where s: "SyncFileMetadataNoLock ?be a False fs1 =
      Some (OK, upd_obj a (\<lambda>zf. MetadataSynced (zf\<lparr>m_time := 0\<rparr>)) (fs1\<lparr>fs_dev := dev\<rparr>))"
    using ram_SyncFileMetadata [of fs1 a "\<lparr> ml_read_pos = 4096, ml_zone = MetaZ 0 \<rparr>" 16384] f d b by (auto simp: meta_dev_def)
  have "obj (upd_obj a (\<lambda>zf. MetadataSynced (zf\<lparr>m_time := 0\<rparr>)) (fs1\<lparr>fs_dev := dev\<rparr>)) a
      = MetadataSynced ((SetIOType kUnknown file_a)\<lparr>m_time := 0\<rparr>)"
    using f(2) by (simp add: upd_obj_def obj_def)
  then have "\<exists>res fs'. create_file small_config ?be (str ''/a'') False empty_fs = Some (OK, res, fs')"
    using d(2) by (simp add: create_file_def n s AcquireWRLock_def MetadataSynced_def)
  then show ?thesis
    by (simp add: OpenWritableFile_def path_a GetFileNoLock_def Let_def) (simp add: empty_fs_def)
qed

theorem namespace_consistent_witness:
  "\<exists>fs. fs_reach small_config (ram_backend 16384) no_aux empty_fs fs \<and>
     (\<exists>a zf. mfind (str ''/a'') (files fs) = Some a \<and> objs fs a = Some zf \<and> str ''/a'' \<in> set (linkfiles zf) \<and> \<not> is_deleted zf)"
proof -
  obtain res fs where o: "OpenWritableFile small_config (ram_backend 16384) no_aux (str ''/a'') False False empty_fs = Some (OK, res, fs)"
    using create_a by blast
  have "fs_step small_config (ram_backend 16384) no_aux empty_fs fs"
    by (rule fs_step.open_writable [OF o path_a(1)]) (simp add: empty_fs_def)
  then have r: "fs_reach small_config (ram_backend 16384) no_aux empty_fs fs"
    by (rule fs_reach.step [OF fs_reach.start])
  have g: "directory empty_fs (str ''/a'') = None" by (simp add: directory_def empty_fs_def)
  then have cr: "create_file small_config (ram_backend 16384) (str ''/a'') False empty_fs = Some (OK, res, fs)"
    using o by (simp add: OpenWritableFile_def path_a GetFileNoLock_def directory_def Let_def)
  have "next_file_id empty_fs \<noteq> - 1" by (simp add: empty_fs_def)
  from create_file_spec [OF empty_fs_inv(2) this g path_a(2) cr]
  have f: "mfind (str ''/a'') (files fs) = Some (next_obj empty_fs)" by (simp add: directory_def fun_eq_iff)
  note c = namespace_consistent [OF empty_fs_inv(1) r]
  then have "\<exists>zf. objs fs (next_obj empty_fs) = Some zf \<and> str ''/a'' \<in> set (linkfiles zf)"
    using f by (elim conjE) simp
  then obtain zf where z: "objs fs (next_obj empty_fs) = Some zf" "str ''/a'' \<in> set (linkfiles zf)" by blast
  moreover have "\<not> is_deleted zf" using c z by (elim conjE) auto
  ultimately show ?thesis using r f by (intro exI [of _ fs] conjI) simp_all
qed

text \<open>
  C17. Deleting a file: when the deletion is reported as done, exactly this name is gone from the
  directory; otherwise the directory is as it was. Names that are not files of the zoned device are
  passed on to the auxiliary file system and change nothing here. Open files keep their objects.
\<close>

theorem delete_file_directory:
  assumes "ns_inv fs" and "is_absolute p" and "DeleteFileNoLock be ax p fs = Some (s, fs')"
  shows "directory fs' =
       (if directory fs (FormatPathLexically p) \<noteq> None \<and> s = OK
        then (directory fs)(FormatPathLexically p := None) else directory fs) \<and>
     handles fs' = handles fs \<and> (\<forall>a. handles fs a > 0 \<longrightarrow> objs fs' a \<noteq> None) \<and> ns_inv fs'"
  using DeleteFileNoLock_spec [OF assms] by (auto simp: ns_inv_def ns_core_def)

lemma delete_a:
  "\<exists>fs'. DeleteFileNoLock (ram_backend 16384) no_aux (str ''/a'') (hold_handle 0 (hold_handle 0 one_file_fs)) = Some (OK, fs')"
  "\<exists>fs'. DeleteFileNoLock (ram_backend 16384) no_aux (str ''/a'') one_file_fs = Some (OK, fs')"
proof -
  have o: "obj one_file_fs 0 = file_a" by (simp add: obj_def one_file_fs_def)
  have l: "linkfiles file_a = [str ''/a'']" by (simp add: file_a_def AddLinkName_def newZoneFile_def)
  have b: "one_block (EncodeFileDeletionTo (file_a\<lparr>linkfiles := []\<rparr>) [] (str ''/a''))"
    unfolding one_block_def by code_simp
  have run: "\<exists>fs'. DeleteFileNoLock (ram_backend 16384) no_aux (str ''/a'') fs = Some (OK, fs')"
    if fs: "files fs = [(str ''/a'', 0)]" "obj fs 0 = file_a" "meta_log fs = Some \<lparr> ml_read_pos = 4096, ml_zone = MetaZ 0 \<rparr>" "fs_dev fs = meta_dev"
    for fs :: "(u64 \<Rightarrow> byte, unit) zenfs"
  proof -
    let ?fs = "upd_obj 0 (\<lambda>_. file_a\<lparr>linkfiles := []\<rparr>) (fs\<lparr>files := []\<rparr>)"
    obtain dev where p: "PersistRecord (ram_backend 16384) (EncodeFileDeletionTo (file_a\<lparr>linkfiles := []\<rparr>) [] (str ''/a'')) ?fs
        = Some (OK, ?fs\<lparr>fs_dev := dev\<rparr>)"
      using ram_PersistRecord [OF b, of ?fs "\<lparr> ml_read_pos = 4096, ml_zone = MetaZ 0 \<rparr>" 16384] fs(3,4)
      by (auto simp: upd_obj_def meta_dev_def)
    have "\<not> ends_with (str ''/a'') (str ''.log'')" by code_simp
    then show ?thesis
      using fs(1,2) p l
      by (simp add: DeleteFileNoLock_def path_a GetFileNoLock_def mfind_def merase_def RemoveLinkName_def Let_def
          GetNrLinks_def drop_object_def)
  qed
  show "\<exists>fs'. DeleteFileNoLock (ram_backend 16384) no_aux (str ''/a'') one_file_fs = Some (OK, fs')"
    by (rule run) (simp_all add: o, simp_all add: one_file_fs_def empty_fs_def)
  show "\<exists>fs'. DeleteFileNoLock (ram_backend 16384) no_aux (str ''/a'') (hold_handle 0 (hold_handle 0 one_file_fs)) = Some (OK, fs')"
    using o by (intro run) (simp_all add: one_file_fs_def empty_fs_def hold_handle_def obj_def)
qed

theorem delete_file_directory_witness:
  "\<exists>fs'. DeleteFileNoLock (ram_backend 16384) no_aux (str ''/a'') one_file_fs = Some (OK, fs') \<and> directory fs' = Map.empty"
proof -
  obtain fs' where d: "DeleteFileNoLock (ram_backend 16384) no_aux (str ''/a'') one_file_fs = Some (OK, fs')"
    using delete_a(2) by blast
  then show ?thesis
    using delete_file_directory [OF one_file_fs_inv(1) path_a(1) d] by (simp add: path_a one_file_fs_inv(2))
qed

text \<open>
  C38. Renaming a file onto its own name deletes it: the file with the new name, which is this file, is
  deleted first, and then there is no name left to change. The caller gets an error and the file is gone.
\<close>

theorem rename_onto_itself_deletes:
  assumes "ns_inv fs" and "is_absolute p" and "directory fs (FormatPathLexically p) = Some a"
    and "DeleteFileNoLock be ax (FormatPathLexically p) (hold_handle a (hold_handle a fs)) = Some (OK, fs1)"
  shows "\<exists>fs'. RenameFileNoLock be ax n p p fs = Some (IOError, fs') \<and>
     directory fs' = (directory fs)(FormatPathLexically p := None)"
proof -
  let ?p = "FormatPathLexically p"
  note p = FormatPathLexically_abs [OF assms(2)]
  have core: "ns_core fs" using assms(1) by (simp add: ns_inv_def)
  have a: "objs fs a \<noteq> None" using named_object(1) [OF core assms(3)] by simp
  have g: "GetFileNoLock ?p fs = Some a" using assms(3) by (simp add: GetFileNoLock_abs [OF assms(2)])
  have i2: "ns_inv (hold_handle a (hold_handle a fs))"
    using hold_handle_inv [OF hold_handle_inv [OF assms(1) a]] a by simp
  have d: "ns_inv fs1" "handles fs1 = handles (hold_handle a (hold_handle a fs))" "directory fs1 = (directory fs)(?p := None)"
    using DeleteFileNoLock_spec [OF i2 p(1) assms(4)] assms(3) by (simp_all add: p(2))
  have "handles fs1 a > 0" using d(2) by simp
  then have oa: "objs fs1 a \<noteq> None" using d(1) by (auto simp: ns_inv_def ns_core_def)
  have "?p \<notin> set (linkfiles (obj fs1 a))"
  proof
    assume m: "?p \<in> set (linkfiles (obj fs1 a))"
    have "ns_core fs1" using d(1) by (simp add: ns_inv_def)
    moreover have "?p \<in> set (links_of fs1 a)" using m oa by (auto simp: links_of_def obj_def)
    ultimately have "mfind ?p (files fs1) = Some a" by (simp add: ns_core_find)
    then show False using d(3) by (simp add: directory_def fun_eq_iff)
  qed
  then have "rename_entry be ?p ?p a fs1 = Some (IOError, fs1)" by (simp add: rename_entry_def RenameLink_def)
  then have "RenameFile_step ren be ax p p fs = Some (IOError, drop_handle be a (drop_handle be a fs1))" for ren
    using g assms(4) by (simp add: RenameFile_step_def rename_zenfs_file_def Let_def)
  then show ?thesis using d(3) by (cases n) simp_all
qed

theorem rename_onto_itself_deletes_witness:
  "\<exists>fs'. RenameFileNoLock (ram_backend 16384) no_aux 0 (str ''/a'') (str ''/a'') one_file_fs = Some (IOError, fs') \<and>
     directory one_file_fs (str ''/a'') = Some 0 \<and> directory fs' = Map.empty"
proof -
  obtain fs1 where d: "DeleteFileNoLock (ram_backend 16384) no_aux (str ''/a'') (hold_handle 0 (hold_handle 0 one_file_fs)) = Some (OK, fs1)"
    using delete_a(1) by blast
  have "directory one_file_fs (FormatPathLexically (str ''/a'')) = Some 0" by (simp add: path_a one_file_fs_inv(2))
  from rename_onto_itself_deletes [OF one_file_fs_inv(1) path_a(1) this, of "ram_backend 16384" no_aux fs1 0] d
  show ?thesis by (simp add: path_a one_file_fs_inv(2))
qed


text \<open>What persisting the renamed file does in the two devices.\<close>

definition renamed_a :: "(u64 \<Rightarrow> byte, unit) zenfs" where
  "renamed_a = renamed_fs (str ''/a'') (str ''/b'') 0 (hold_handle 0 one_file_fs)"

definition file_b :: ZoneFile where
  "file_b = file_a\<lparr>linkfiles := [str ''/b'']\<rparr>"

lemma renamed_a_sel: "obj renamed_a 0 = file_b" "meta_log renamed_a = Some \<lparr> ml_read_pos = 4096, ml_zone = MetaZ 0 \<rparr>"
  "fs_dev renamed_a = meta_dev" "clock renamed_a = 0" "\<not> is_deleted file_b" "one_block (update_record False (file_b\<lparr>m_time := 0\<rparr>))"
proof -
  show "one_block (update_record False (file_b\<lparr>m_time := 0\<rparr>))" unfolding one_block_def by code_simp
qed (simp_all add: renamed_a_def renamed_fs_def upd_obj_def obj_def hold_handle_def one_file_fs_def empty_fs_def
    file_a_def file_b_def AddLinkName_def newZoneFile_def)

lemma renamed_a_synced:
  "\<exists>fs'. SyncFileMetadataNoLock (ram_backend 16384) 0 False renamed_a = Some (OK, fs')"
  "\<exists>fs'. SyncFileMetadataNoLock failing_backend 0 False renamed_a = Some (NoSpace, fs')"
proof -
  show "\<exists>fs'. SyncFileMetadataNoLock (ram_backend 16384) 0 False renamed_a = Some (OK, fs')"
    using ram_SyncFileMetadata [of renamed_a 0 "\<lparr> ml_read_pos = 4096, ml_zone = MetaZ 0 \<rparr>" 16384] renamed_a_sel
    by (auto simp: meta_dev_def)
  let ?fs = "upd_obj 0 (\<lambda>zf. zf\<lparr>m_time := 0\<rparr>) renamed_a"
  have "obj ?fs 0 = file_b\<lparr>m_time := 0\<rparr>" using renamed_a_sel(1) by (simp add: obj_def upd_obj_def)
  then obtain fs' where "PersistRecord failing_backend (update_record False (obj ?fs 0)) ?fs = Some (NoSpace, fs')"
    using failing_PersistRecord [of ?fs "\<lparr> ml_read_pos = 4096, ml_zone = MetaZ 0 \<rparr>" "update_record False (obj ?fs 0)"] renamed_a_sel
    by (auto simp: upd_obj_def)
  then show "\<exists>fs'. SyncFileMetadataNoLock failing_backend 0 False renamed_a = Some (NoSpace, fs')"
    using renamed_a_sel by (simp add: SyncFileMetadataNoLock_def)
qed

lemma rename_a_step:
  assumes "SyncFileMetadataNoLock be 0 False renamed_a = Some (s2, fs2)"
  shows "\<exists>s fs'. RenameFileNoLock be no_aux n (str ''/a'') (str ''/b'') one_file_fs = Some (s, fs')"
proof -
  have l: "linkfiles (obj (hold_handle 0 one_file_fs) 0) = [str ''/a'']"
    by (simp add: obj_def hold_handle_def one_file_fs_def file_a_def AddLinkName_def newZoneFile_def)
  have g: "GetFileNoLock (str ''/a'') one_file_fs = Some 0" "GetFileNoLock (str ''/b'') one_file_fs = None"
    using one_file_fs_inv(2) path_a_b by (simp_all add: GetFileNoLock_def directory_def fun_eq_iff path_a path_b)
  have x: "upd_obj 0 (\<lambda>_. (obj (hold_handle 0 one_file_fs) 0)\<lparr>linkfiles := [str ''/b'']\<rparr>)
      ((hold_handle 0 one_file_fs)\<lparr>files := minsert (str ''/b'') 0 (merase (str ''/a'') (files (hold_handle 0 one_file_fs)))\<rparr>) = renamed_a"
    using l by (simp add: renamed_a_def renamed_fs_def upd_obj_def)
  have "rename_entry be (str ''/a'') (str ''/b'') 0 (hold_handle 0 one_file_fs) \<noteq> None"
    using assms l x by (simp add: rename_entry_def RenameLink_def Let_def)
  then obtain s3 fs3 where "rename_entry be (str ''/a'') (str ''/b'') 0 (hold_handle 0 one_file_fs) = Some (s3, fs3)"
    by auto
  then have "rename_zenfs_file be no_aux (str ''/a'') (str ''/b'') 0 one_file_fs = Some (s3, drop_handle be 0 fs3)"
    using g by (simp add: rename_zenfs_file_def)
  then show ?thesis
    using g by (cases n) (simp_all add: RenameFile_step_def Let_def path_a path_b)
qed


text \<open>
  C39. A rename whose metadata could not be written is rolled back, but reported as done: the status the
  caller gets is that of putting the old name back, OK, while the file still has its old name.
\<close>

theorem rename_failure_reports_ok:
  assumes "ns_inv fs" and "is_absolute p" and "is_absolute q"
    and "directory fs (FormatPathLexically p) = Some a" and "directory fs (FormatPathLexically q) = None"
    and "SyncFileMetadataNoLock be a False
           (renamed_fs (FormatPathLexically p) (FormatPathLexically q) a (hold_handle a fs)) = Some (s2, fs2)"
    and "\<not> ok s2" and "RenameFileNoLock be ax n p q fs = Some (s, fs')"
  shows "s = OK \<and> directory fs' = directory fs"
proof -
  let ?p = "FormatPathLexically p" and ?q = "FormatPathLexically q"
  have core: "ns_core fs" using assms(1) by (simp add: ns_inv_def)
  have a: "objs fs a \<noteq> None" using named_object(1) [OF core assms(4)] by simp
  have g: "GetFileNoLock ?p fs = Some a" "GetFileNoLock ?q fs = None"
    using assms(4,5) by (simp_all add: GetFileNoLock_abs [OF assms(2)] GetFileNoLock_abs [OF assms(3)])
  have r: "rename_zenfs_file be ax ?p ?q a fs = Some (s, fs')"
    using assms(8) g by (cases n) (simp_all add: RenameFile_step_def Let_def)
  obtain fs1 where e: "rename_entry be ?p ?q a (hold_handle a fs) = Some (s, fs1)" "fs' = drop_handle be a fs1"
    using r g by (auto simp: rename_zenfs_file_def bind_eq_Some_conv)
  have "directory fs1 = directory fs \<and> s = OK"
    using rename_entry_outcome [OF hold_handle_inv [OF assms(1) a] _ _ FormatPathLexically_abs(2) [OF assms(3)] e(1)] a assms(4-7)
    by auto
  then show ?thesis by (simp add: e(2))
qed

theorem rename_failure_reports_ok_witness:
  "\<exists>fs'. RenameFileNoLock failing_backend no_aux 0 (str ''/a'') (str ''/b'') one_file_fs = Some (OK, fs') \<and>
     directory fs' = [str ''/a'' \<mapsto> 0]"
proof -
  obtain fs2 where s: "SyncFileMetadataNoLock failing_backend 0 False renamed_a = Some (NoSpace, fs2)"
    using renamed_a_synced(2) by blast
  obtain s fs' where r: "RenameFileNoLock failing_backend no_aux 0 (str ''/a'') (str ''/b'') one_file_fs = Some (s, fs')"
    using rename_a_step [OF s] by blast
  have "s = OK \<and> directory fs' = directory one_file_fs"
    using path_a_b s
    by (intro rename_failure_reports_ok [OF one_file_fs_inv(1) path_a(1) path_b(1) _ _ _ _ r, where a = 0 and ?s2.0 = NoSpace and ?fs2.0 = fs2])
      (simp_all add: path_a path_b one_file_fs_inv(2) renamed_a_def)
  then show ?thesis using r by (simp add: one_file_fs_inv(2))
qed

text \<open>
  C20. Opening a name that does not exist for writing creates it: on success the caller gets a handle on
  a new object, which the name leads to, and no other name has changed; on failure there is no handle
  and no name has changed.
\<close>

theorem create_file_directory:
  assumes "ns_inv fs" and "is_absolute p" and "directory fs (FormatPathLexically p) = None"
    and "next_file_id fs \<noteq> - 1"
    and "OpenWritableFile cfg be ax p direct reopen fs = Some (s, res, fs')"
  shows "ns_inv fs' \<and> objs fs (next_obj fs) = None \<and>
     (if s = OK
      then (\<exists>w. res = Some (next_obj fs, w)) \<and> handles fs' (next_obj fs) > 0 \<and>
           directory fs' = (directory fs)(FormatPathLexically p \<mapsto> next_obj fs)
      else res = None \<and> directory fs' = directory fs)"
proof -
  have core: "ns_core fs" using assms(1) by (simp add: ns_inv_def)
  have "create_file cfg be (FormatPathLexically p) direct fs = Some (s, res, fs')"
    using assms(3,5) by (simp add: OpenWritableFile_def GetFileNoLock_abs [OF assms(2)] Let_def)
  from create_file_spec [OF assms(1,4,3) FormatPathLexically_abs(2) [OF assms(2)] this] show ?thesis
    using fresh_object(1) [OF core] by auto
qed

theorem create_file_directory_witness:
  "\<exists>res fs'. OpenWritableFile small_config (ram_backend 16384) no_aux (str ''/a'') False False empty_fs = Some (OK, res, fs') \<and>
     (\<exists>w. res = Some (0, w)) \<and> directory fs' (str ''/a'') = Some 0"
proof -
  obtain res fs' where o: "OpenWritableFile small_config (ram_backend 16384) no_aux (str ''/a'') False False empty_fs = Some (OK, res, fs')"
    using create_a by blast
  have n: "directory empty_fs (FormatPathLexically (str ''/a'')) = None" "next_file_id empty_fs \<noteq> - 1" "next_obj empty_fs = 0"
    by (simp_all add: directory_def empty_fs_def)
  show ?thesis using create_file_directory [OF empty_fs_inv(2) path_a(1) n(1,2) o] o by (simp add: path_a n(3))
qed

end
