(* ===== verification/Zenfs_Recover.thy ===== *)
theory Zenfs_Recover
  imports Zenfs
begin

text \<open>
  Recovery (\<^verbatim>\<open>class ZenFS\<close>): decoding of snapshots, updates and deletions, replay of a metadata log,
  repair of files that were being written, mounting, and creating a file system.
\<close>

section \<open>Decoding records\<close>

definition see_id :: "u64 \<Rightarrow> ('d, 'x) zenfs \<Rightarrow> ('d, 'x) zenfs" where
  "see_id fid fs = (if fid \<ge> next_file_id fs then fs\<lparr>next_file_id := fid + 1\<rparr> else fs)"

definition insert_links :: "nat \<Rightarrow> bytes list \<Rightarrow> ('d, 'x) zenfs \<Rightarrow> ('d, 'x) zenfs" where
  "insert_links a ns fs = fs\<lparr>files := fold (\<lambda>n. minsert n a) ns (files fs)\<rparr>"

definition add_object :: "ZoneFile \<Rightarrow> ('d, 'x) zenfs \<Rightarrow> nat \<times> ('d, 'x) zenfs" where
  "add_object zf fs =
     (next_obj fs, fs\<lparr>next_obj := next_obj fs + 1, objs := (objs fs)(next_obj fs \<mapsto> zf)\<rparr>)"

text \<open>Decoding into a fresh object, which is destroyed if that fails.\<close>

definition decode_file ::
    "config \<Rightarrow> 'd backend \<Rightarrow> bytes \<Rightarrow> ('d, 'x) zenfs \<Rightarrow> status \<times> ZoneFile \<times> ('d, 'x) zenfs" where
  "decode_file cfg be data fs =
     (case ZoneFile_DecodeFrom cfg be data (newZoneFile 0) (fs_dev fs) of
        (s, zf, dev) \<Rightarrow>
          (s, zf, fs\<lparr>fs_dev := (if ok s then dev else delete_ZoneFile be zf dev)\<rparr>))"

definition delete_temp :: "'d backend \<Rightarrow> ZoneFile \<Rightarrow> ('d, 'x) zenfs \<Rightarrow> ('d, 'x) zenfs" where
  "delete_temp be zf fs = fs\<lparr>fs_dev := delete_ZoneFile be zf (fs_dev fs)\<rparr>"

text \<open>The old names of an updated file leave the table; a missing one is an error.\<close>

fun erase_links :: "bytes list \<Rightarrow> ('d, 'x) zenfs \<Rightarrow> bool \<times> ('d, 'x) zenfs" where
  "erase_links [] fs = (True, fs)"
| "erase_links (n # ns) fs =
     (if mfind n (files fs) \<noteq> None then erase_links ns (fs\<lparr>files := merase n (files fs)\<rparr>)
      else (False, fs))"

definition find_by_id :: "u64 \<Rightarrow> ('d, 'x) zenfs \<Rightarrow> nat option" where
  "find_by_id fid fs = map_option snd (List.find (\<lambda>(n, a). file_id (obj fs a) = fid) (files fs))"

text \<open>A file that is not known yet gets one name, whatever its number of links.\<close>

definition DecodeFileUpdateFrom ::
    "config \<Rightarrow> 'd backend \<Rightarrow> bytes \<Rightarrow> bool \<Rightarrow> ('d, 'x) zenfs \<Rightarrow> (status \<times> ('d, 'x) zenfs) option" where
  "DecodeFileUpdateFrom cfg be data replace fs =
     (case decode_file cfg be data fs of
        (s, update, fs1) \<Rightarrow>
          if \<not> ok s then Some (s, fs1)
          else
            (let fs2 = see_id (file_id update) fs1 in
             case find_by_id (file_id update) fs2 of
               Some a \<Rightarrow>
                 (case erase_links (linkfiles (obj fs2 a)) fs2 of
                    (found, fs3) \<Rightarrow>
                      if \<not> found then Some (Corruption, release be a (delete_temp be update fs3))
                      else
                        (case MergeUpdate update replace (obj fs3 a) (fs_dev fs3) of
                           (s4, zf, dev) \<Rightarrow>
                             let fs4 = delete_temp be update (upd_obj a (\<lambda>_. zf) (fs3\<lparr>fs_dev := dev\<rparr>)) in
                             if \<not> ok s4 then Some (s4, release be a fs4)
                             else Some (OK, release be a (insert_links a (linkfiles zf) fs4))))
             | None \<Rightarrow>
                 (case linkfiles update of
                    [] \<Rightarrow> None
                  | n # ns \<Rightarrow>
                      (case add_object update fs2 of
                         (a, fs3) \<Rightarrow> Some (OK, release be a (fs3\<lparr>files := minsert n a (files fs3)\<rparr>))))))"

lemma GetLengthPrefixedSlice_less:
  "GetLengthPrefixedSlice input = (Some v, r) \<Longrightarrow> length r < length input"
  by (auto simp: GetLengthPrefixedSlice_def GetVarint32_def GetVarint32Ptr_eq GetVarint32PtrFallback_def
      split: prod.splits option.splits if_splits dest!: GetVarint32PtrFallback_loop_rest)

function DecodeSnapshotFrom ::
    "config \<Rightarrow> 'd backend \<Rightarrow> bytes \<Rightarrow> ('d, 'x) zenfs \<Rightarrow> status \<times> ('d, 'x) zenfs" where
  "DecodeSnapshotFrom cfg be input fs =
     (case GetLengthPrefixedSlice input of
        (None, r) \<Rightarrow> (OK, fs)
      | (Some data, r) \<Rightarrow>
          (case decode_file cfg be data fs of
             (s, zf, fs1) \<Rightarrow>
               if \<not> ok s then (s, fs1)
               else
                 (case add_object zf (see_id (file_id zf) fs1) of
                    (a, fs2) \<Rightarrow>
                      DecodeSnapshotFrom cfg be r (release be a (insert_links a (linkfiles zf) fs2)))))"
  by pat_completeness auto
termination
  by (relation "measure (\<lambda>(cfg, be, input, fs). length input)")
    (auto dest: GetLengthPrefixedSlice_less [OF sym])

declare DecodeSnapshotFrom.simps [simp del]

definition DecodeFileDeletionFrom ::
    "'d backend \<Rightarrow> bytes \<Rightarrow> ('d, 'x) zenfs \<Rightarrow> status \<times> ('d, 'x) zenfs" where
  "DecodeFileDeletionFrom be input fs =
     (case GetFixed64 input of
        (None, r) \<Rightarrow> (Corruption, fs)
      | (Some fid, r) \<Rightarrow>
          (case GetLengthPrefixedSlice r of
             (None, r') \<Rightarrow> (Corruption, fs)
           | (Some name, r') \<Rightarrow>
               (case mfind name (files fs) of
                  None \<Rightarrow> (Corruption, fs)
                | Some a \<Rightarrow>
                    if file_id (obj fs a) \<noteq> fid then (Corruption, fs)
                    else
                      (let fs1 = fs\<lparr>files := merase name (files fs)\<rparr> in
                       case RemoveLinkName name (obj fs1 a) of
                         (s, zf) \<Rightarrow>
                           if \<not> ok s then (Corruption, release be a fs1)
                           else (OK, release be a (upd_obj a (\<lambda>_. zf) fs1))))))"

section \<open>Replay\<close>

text \<open>Every reference of the table is dropped, object by object.\<close>

definition ClearFiles :: "'d backend \<Rightarrow> ('d, 'x) zenfs \<Rightarrow> ('d, 'x) zenfs" where
  "ClearFiles be fs = fold (\<lambda>(n, a). release be a) (files fs) (fs\<lparr>files := []\<rparr>)"

definition replay_record ::
    "config \<Rightarrow> 'd backend \<Rightarrow> u32 \<Rightarrow> bytes \<Rightarrow> ('d, 'x) zenfs \<Rightarrow> (status \<times> ('d, 'x) zenfs) option" where
  "replay_record cfg be tag data fs =
     (if tag = kCompleteFilesSnapshot then Some (DecodeSnapshotFrom cfg be data (ClearFiles be fs))
      else if tag = kFileUpdate then DecodeFileUpdateFrom cfg be data False fs
      else if tag = kFileReplace then DecodeFileUpdateFrom cfg be data True fs
      else if tag = kFileDeletion then Some (DecodeFileDeletionFrom be data fs)
      else Some (Corruption, fs))"

text \<open>One record: the status, whether the log ends here, whether it was a snapshot, and the state.\<close>

definition RecoverFrom_step ::
    "config \<Rightarrow> 'd backend \<Rightarrow> ZenMetaLog \<Rightarrow> ('d, 'x) zenfs \<Rightarrow>
     (status \<times> bool \<times> bool \<times> ZenMetaLog \<times> ('d, 'x) zenfs) option" where
  "RecoverFrom_step cfg be log fs =
     do {
       (rs, rec, log1, dev) \<leftarrow> ReadRecord be log (fs_dev fs);
       let fs1 = fs\<lparr>fs_dev := dev\<rparr>;
       (if \<not> ok rs then Some (Corruption, True, False, log1, fs1)
        else case GetFixed32 rec of
          (None, r) \<Rightarrow> Some (OK, True, False, log1, fs1)
        | (Some tag, r) \<Rightarrow>
            if tag = kEndRecord then Some (OK, True, False, log1, fs1)
            else case GetLengthPrefixedSlice r of
              (None, r') \<Rightarrow> Some (Corruption, True, False, log1, fs1)
            | (Some data, r') \<Rightarrow>
                do {
                  (s, fs2) \<leftarrow> replay_record cfg be tag data fs1;
                  Some (s, \<not> ok s, ok s \<and> tag = kCompleteFilesSnapshot, log1, fs2)
                })
     }"

partial_function (option) RecoverFrom_loop ::
    "config \<Rightarrow> 'd backend \<Rightarrow> bool \<Rightarrow> ZenMetaLog \<Rightarrow> ('d, 'x) zenfs \<Rightarrow>
     (status \<times> ZenMetaLog \<times> ('d, 'x) zenfs) option" where
  "RecoverFrom_loop cfg be seen log fs =
     Option.bind (RecoverFrom_step cfg be log fs)
       (\<lambda>x. let log1 = fst (snd (snd (snd x))); fs1 = snd (snd (snd (snd x))); seen1 = (seen \<or> fst (snd (snd x))) in
            if \<not> fst (snd x) then RecoverFrom_loop cfg be seen1 log1 fs1
            else Some (if \<not> ok (fst x) then fst x else if seen then OK else NotFound, log1, fs1))"

definition RecoverFrom ::
    "config \<Rightarrow> 'd backend \<Rightarrow> ZenMetaLog \<Rightarrow> ('d, 'x) zenfs \<Rightarrow>
     (status \<times> ZenMetaLog \<times> ('d, 'x) zenfs) option" where
  "RecoverFrom cfg be log fs = RecoverFrom_loop cfg be False log fs"

text \<open>Files that were being written when the system went down.\<close>

fun Repair_loop ::
    "'d backend \<Rightarrow> nat name_map \<Rightarrow> ('d, 'x) zenfs \<Rightarrow> (status \<times> ('d, 'x) zenfs) option" where
  "Repair_loop be [] fs = Some (OK, fs)"
| "Repair_loop be ((n, a) # m) fs =
     (if HasActiveExtent (obj fs a) then
        do {
          (s, zf, dev) \<leftarrow> ZoneFile_Recover be (obj fs a) (fs_dev fs);
          let fs1 = upd_obj a (\<lambda>_. zf) (fs\<lparr>fs_dev := dev\<rparr>);
          (if \<not> ok s then Some (s, fs1) else Repair_loop be m fs1)
        }
      else Repair_loop be m fs)"

definition Repair :: "'d backend \<Rightarrow> ('d, 'x) zenfs \<Rightarrow> (status \<times> ('d, 'x) zenfs) option" where
  "Repair be fs = Repair_loop be (files fs) fs"

section \<open>Mounting\<close>

text \<open>
  The first loop of \<^verbatim>\<open>Mount\<close>: the valid superblocks with their logs, in the order of the zones. The
  logs that are not kept release their zones; so do all of them when the loop fails.
\<close>

definition drop_logs :: "ZenMetaLog list \<Rightarrow> 'd zbd \<Rightarrow> 'd zbd" where
  "drop_logs logs dev = fold delete_ZenMetaLog logs dev"

fun find_superblocks ::
    "'d backend \<Rightarrow> nat list \<Rightarrow> (Superblock \<times> ZenMetaLog) list \<Rightarrow> 'd zbd \<Rightarrow>
     (status \<times> (Superblock \<times> ZenMetaLog) list \<times> 'd zbd) option" where
  "find_superblocks be [] valid dev = Some (OK, valid, dev)"
| "find_superblocks be (i # is) valid dev =
     (case Acquire (zone_at dev (MetaZ i)) of
        (False, z) \<Rightarrow> Some (Aborted, [], drop_logs (map snd valid) dev)
      | (True, z) \<Rightarrow>
          (let dev1 = put_zone (MetaZ i) z dev; log = newZenMetaLog (MetaZ i) dev1 in
           do {
             (s, rec, log1, dev2) \<leftarrow> ReadRecord be log dev1;
             (if \<not> ok s \<or> rec = [] then find_superblocks be is valid (delete_ZenMetaLog log1 dev2)
              else
                (case Superblock_DecodeFrom rec of
                   (s1, sb) \<Rightarrow>
                     (let s2 = (if ok s1 then CompatibleWith be (the sb) else s1) in
                      if \<not> ok s2
                      then Some (s2, [], drop_logs (map snd valid) (delete_ZenMetaLog log1 dev2))
                      else find_superblocks be is (valid @ [(the sb, log1)]) dev2)))
           }))"

text \<open>By decreasing sequence number; of equal ones, the later zone first.\<close>

definition seq_order :: "(Superblock \<times> ZenMetaLog) list \<Rightarrow> nat list" where
  "seq_order valid =
     rev (sort_key (\<lambda>i. sb_sequence (fst (valid ! i))) [0..<length valid])"

text \<open>The second loop: the log that could be replayed, by its index.\<close>

fun recover_first ::
    "config \<Rightarrow> 'd backend \<Rightarrow> (Superblock \<times> ZenMetaLog) list \<Rightarrow> nat list \<Rightarrow> ('d, 'x) zenfs \<Rightarrow>
     (status \<times> (nat \<times> ZenMetaLog) option \<times> ('d, 'x) zenfs) option" where
  "recover_first cfg be valid [] fs = Some (IOError, None, fs)"
| "recover_first cfg be valid (i # is) fs =
     do {
       (s, log, fs1) \<leftarrow> RecoverFrom cfg be (snd (valid ! i)) fs;
       (if ok s then Some (OK, Some (i, log), fs1)
        else
          (let fs2 = fs1\<lparr>fs_dev := delete_ZenMetaLog log (fs_dev fs1)\<rparr> in
           if IsNotFound s then recover_first cfg be valid is fs2
           else Some (s, None, fs2\<lparr>fs_dev := drop_logs (map (\<lambda>j. snd (valid ! j)) is) (fs_dev fs2)\<rparr>)))
     }"

text \<open>What follows once the metadata is loaded.\<close>

definition Mount_rw :: "'d backend \<Rightarrow> ('d, 'x) zenfs \<Rightarrow> (status \<times> ('d, 'x) zenfs) option" where
  "Mount_rw be fs =
     do {
       (s, fs1) \<leftarrow> Repair be fs;
       (if \<not> ok s then Some (s, fs1)
        else
          do {
            (s2, fs2) \<leftarrow> RollMetaZoneLocked be fs1;
            (if \<not> ok s2 then Some (s2, fs2)
             else
               (case reset_unused be fs2 of
                  (s3, fs3) \<Rightarrow>
                    if \<not> ok s3 then Some (s3, fs3)
                    else Some (OK, fs3\<lparr>run_gc_worker :=
                           (case superblock fs3 of
                              Some sb \<Rightarrow> if IsGCEnabled sb then True else run_gc_worker fs3
                            | None \<Rightarrow> run_gc_worker fs3)\<rparr>)))
          })
     }"

definition Mount ::
    "config \<Rightarrow> 'd backend \<Rightarrow> 'x aux_fs \<Rightarrow> bool \<Rightarrow> ('d, 'x) zenfs \<Rightarrow> (status \<times> ('d, 'x) zenfs) option" where
  "Mount cfg be ax readonly fs =
     (if length (meta_zones (fs_dev fs)) < 2 then Some (NotSupported, fs)
      else
        do {
          (s, valid, dev1) \<leftarrow> find_superblocks be [0..<length (meta_zones (fs_dev fs))] [] (fs_dev fs);
          let fs1 = fs\<lparr>fs_dev := dev1\<rparr>;
          (if \<not> ok s then Some (s, fs1)
           else if valid = [] then Some (NotFound, fs1)
           else
             do {
               (s2, found, fs2) \<leftarrow> recover_first cfg be valid (seq_order valid) fs1;
               (case found of
                  None \<Rightarrow> Some (s2, fs2)
                | Some (r, log) \<Rightarrow>
                    (let sb = fst (valid ! r);
                         others = map snd (map (\<lambda>j. valid ! j)
                           (tl (dropWhile (\<lambda>j. j \<noteq> r) (seq_order valid))));
                         fs3 = fs2\<lparr>meta_log := Some log, superblock := Some sb,
                           fs_dev := (fs_dev fs2)\<lparr>finish_threshold := sb_finish_treshold sb\<rparr>\<rparr> in
                     case on_aux (aux_CreateDirIfMissing ax (GetAuxFsPath sb)) fs3 of
                       (s4, fs4) \<Rightarrow>
                         (let fs5 = fs4\<lparr>fs_dev := drop_logs others (fs_dev fs4)\<rparr> in
                          if \<not> ok s4 then Some (s4, fs5)
                          else if readonly then Some (OK, fs5)
                          else Mount_rw be fs5)))
             })
        })"

section \<open>Creating a file system\<close>

text \<open>All metadata zones are reset; the first one that could be is kept.\<close>

fun reset_meta_zones ::
    "'d backend \<Rightarrow> nat list \<Rightarrow> nat option \<Rightarrow> 'd zbd \<Rightarrow> status \<times> nat option \<times> 'd zbd" where
  "reset_meta_zones be [] meta dev = (OK, meta, dev)"
| "reset_meta_zones be (i # is) meta dev =
     (case Acquire (zone_at dev (MetaZ i)) of
        (False, z) \<Rightarrow> (Aborted, meta, dev)
      | (True, z) \<Rightarrow>
          (case reset_zone be (MetaZ i) (put_zone (MetaZ i) z dev) of
             (s, dev1) \<Rightarrow>
               (let meta1 = (if ok s \<and> meta = None then Some i else meta) in
                if meta1 \<noteq> Some i then
                  (case Release (zone_at dev1 (MetaZ i)) of
                     (r, z1) \<Rightarrow>
                       if \<not> r then (Aborted, meta1, dev1)
                       else reset_meta_zones be is meta1 (put_zone (MetaZ i) z1 dev1))
                else reset_meta_zones be is meta1 dev1)))"

text \<open>\<open>uuid\<close> is the identifier the environment generates.\<close>

definition MkFS ::
    "'d backend \<Rightarrow> bytes \<Rightarrow> bytes \<Rightarrow> u32 \<Rightarrow> bool \<Rightarrow> ('d, 'x) zenfs \<Rightarrow> (status \<times> ('d, 'x) zenfs) option" where
  "MkFS be uuid aux_fs_p threshold enable_gc fs =
     (let aux_fs_path = FormatPathLexically aux_fs_p in
      if length aux_fs_path > 255 then Some (InvalidArgument, fs)
      else
        (case reset_unused be (ClearFiles be fs) of
           (s, fs1) \<Rightarrow>
             if \<not> ok s then Some (s, fs1)
             else
               (case reset_meta_zones be [0..<length (meta_zones (fs_dev fs1))] None (fs_dev fs1) of
                  (s2, meta, dev2) \<Rightarrow>
                    (let fs2 = fs1\<lparr>fs_dev := dev2\<rparr> in
                     if \<not> ok s2 then Some (s2, fs2)
                     else case meta of
                       None \<Rightarrow> Some (IOError, fs2)
                     | Some i \<Rightarrow>
                         do {
                           let log = newZenMetaLog (MetaZ i) dev2;
                           let (super_string, sb) = Superblock_EncodeTo (newSuperblock be uuid aux_fs_path threshold enable_gc);
                           (s3, dev3) \<leftarrow> AddRecord be super_string log dev2;
                           let fs3 = fs2\<lparr>fs_dev := dev3\<rparr>;
                           (if \<not> ok s3 then Some (s3, fs3\<lparr>fs_dev := delete_ZenMetaLog log dev3\<rparr>)
                            else
                              do {
                                (s4, fs4) \<leftarrow> PersistSnapshot be log fs3;
                                Some (if \<not> ok s4 then IOError else OK,
                                      fs4\<lparr>fs_dev := delete_ZenMetaLog log (fs_dev fs4)\<rparr>)
                              })
                         }))))"

end
