(* ===== verification/Zenfs_GC.thy ===== *)
theory Zenfs_GC
  imports Zenfs
begin

text \<open>
  Garbage collection (\<^verbatim>\<open>class ZenFS\<close>, \<^verbatim>\<open>snapshot.h\<close>): snapshots of the file system, the choice of the
  zones to clean, and the migration of extents to other zones.
\<close>

section \<open>Snapshots\<close>

record ZoneExtentSnapshot =
  xs_start :: u64
  xs_length :: u64
  xs_zone_start :: u64
  xs_filename :: bytes

definition newZoneExtentSnapshot :: "'d zbd \<Rightarrow> bytes \<Rightarrow> ZoneExtent \<Rightarrow> ZoneExtentSnapshot" where
  "newZoneExtentSnapshot dev fname e =
     \<lparr> xs_start = e_start e, xs_length = e_length e, xs_zone_start = z_start (zone_at dev (e_zone e)),
       xs_filename = fname \<rparr>"

record ZoneFileSnapshot =
  fsn_file_id :: u64
  fsn_filename :: bytes
  fsn_extents :: "ZoneExtentSnapshot list"

definition newZoneFileSnapshot :: "'d zbd \<Rightarrow> ZoneFile \<Rightarrow> ZoneFileSnapshot" where
  "newZoneFileSnapshot dev zf =
     (let fname = hd (linkfiles zf) in
      \<lparr> fsn_file_id = file_id zf, fsn_filename = fname,
        fsn_extents = map (newZoneExtentSnapshot dev fname) (extents zf) \<rparr>)"

record ZenFSSnapshot =
  sn_zbd :: "ZBDSnapshot option"
  sn_zones :: "ZoneSnapshot list"
  sn_zone_files :: "ZoneFileSnapshot list"
  sn_extents :: "ZoneExtentSnapshot list"

text \<open>Files open for writing are skipped. A file with several names is listed once per name.\<close>

definition snapshot_files :: "('d, 'x) zenfs \<Rightarrow> ZoneFile list" where
  "snapshot_files fs = filter (\<lambda>zf. fst (TryAcquireWRLock zf)) (map (\<lambda>(n, a). obj fs a) (files fs))"

definition GetZenFSSnapshot :: "bool \<Rightarrow> bool \<Rightarrow> bool \<Rightarrow> ('d, 'x) zenfs \<Rightarrow> ZenFSSnapshot" where
  "GetZenFSSnapshot opt_zbd opt_zone opt_zone_file fs =
     (let dev = fs_dev fs; zfs = (if opt_zone_file then snapshot_files fs else []) in
      \<lparr> sn_zbd = (if opt_zbd then Some (newZBDSnapshot dev) else None),
        sn_zones = (if opt_zone then GetZoneSnapshot dev else []),
        sn_zone_files = map (newZoneFileSnapshot dev) zfs,
        sn_extents = concat (map (\<lambda>zf. map (newZoneExtentSnapshot dev (hd (linkfiles zf))) (extents zf)) zfs) \<rparr>)"

section \<open>Migration\<close>

definition to_migrate :: "ZoneExtentSnapshot list \<Rightarrow> ZoneExtent \<Rightarrow> bool" where
  "to_migrate exts e \<longleftrightarrow> list_ex (\<lambda>x. xs_start x = e_start e \<and> xs_length x = e_length e) exts"

text \<open>Copying one extent: the status of \<^verbatim>\<open>MigrateData\<close> is dropped.\<close>

definition copy_extent ::
    "'d backend \<Rightarrow> ZoneFile \<Rightarrow> ZoneExtent \<Rightarrow> zref \<Rightarrow> 'd zbd \<Rightarrow> (u64 \<times> 'd zbd) option" where
  "copy_extent be zf e target dev =
     (let wp = z_wp (zone_at dev target) in
      if is_sparse zf then
        (let hdr = header_size zf in
         map_option (\<lambda>(s, dev1). (wp + hdr, AddGCBytesWritten (e_length e + hdr) dev1))
           (MigrateData be (e_start e - hdr) (ucast (e_length e + hdr)) target dev))
      else
        map_option (\<lambda>(s, dev1). (wp, AddGCBytesWritten (e_length e) dev1))
          (MigrateData be (e_start e) (ucast (e_length e)) target dev))"

text \<open>
  One extent of the list. It stays where it is when it is not to be migrated or when no zone is found
  for it.
\<close>

definition migrate_extent ::
    "'d backend \<Rightarrow> ZoneFile \<Rightarrow> ZoneExtentSnapshot list \<Rightarrow> ZoneExtent \<Rightarrow> 'd zbd \<Rightarrow> (ZoneExtent \<times> 'd zbd) option" where
  "migrate_extent be zf exts e dev =
     (if \<not> to_migrate exts e then Some (e, dev)
      else
        do {
          (s, zone, dev1) \<leftarrow> TakeMigrateZone (zf_lifetime zf) (ucast (e_length e)) dev;
          (if \<not> ok s then Some (e, dev1)
           else case zone of
             None \<Rightarrow> Some (e, snd (ReleaseMigrateZone None dev1))
           | Some i \<Rightarrow>
               do {
                 (start, dev2) \<leftarrow> copy_extent be zf e (IoZ i) dev1;
                 let dev3 = add_used (IoZ i) (e_length e) dev2;
                 Some (e\<lparr>e_start := start, e_zone := IoZ i\<rparr>, snd (ReleaseMigrateZone (Some i) dev3))
               })
        })"

text \<open>The loop over the extents returns the new list.\<close>

fun MigrateFileExtents_loop ::
    "'d backend \<Rightarrow> ZoneFile \<Rightarrow> ZoneExtentSnapshot list \<Rightarrow> ZoneExtent list \<Rightarrow> 'd zbd \<Rightarrow>
     (ZoneExtent list \<times> 'd zbd) option" where
  "MigrateFileExtents_loop be zf exts [] dev = Some ([], dev)"
| "MigrateFileExtents_loop be zf exts (e # es) dev =
     do {
       (e1, dev1) \<leftarrow> migrate_extent be zf exts e dev;
       (es', dev2) \<leftarrow> MigrateFileExtents_loop be zf exts es dev1;
       Some (e1 # es', dev2)
     }"

definition MigrateFileExtents ::
    "'d backend \<Rightarrow> bytes \<Rightarrow> ZoneExtentSnapshot list \<Rightarrow> ('d, 'x) zenfs \<Rightarrow> (status \<times> ('d, 'x) zenfs) option" where
  "MigrateFileExtents be fname exts fs =
     (case GetFile fname fs of
        None \<Rightarrow> Some (OK, fs)
      | Some a \<Rightarrow>
          (case TryAcquireWRLock (obj fs a) of
             (False, zf) \<Rightarrow> Some (OK, fs)
           | (True, zf) \<Rightarrow>
               do {
                 let fs1 = upd_obj a (\<lambda>_. zf) fs;
                 (new_extents, dev) \<leftarrow> MigrateFileExtents_loop be zf exts (extents zf) (fs_dev fs1);
                 (s, fs2) \<leftarrow> SyncFileExtents be a new_extents (fs1\<lparr>fs_dev := dev\<rparr>);
                 Some (OK, upd_obj a ReleaseWRLock fs2)
               }))"

text \<open>The extents of one file together, the files in the order of their names; SST files only.\<close>

definition by_file :: "ZoneExtentSnapshot list \<Rightarrow> (bytes \<times> ZoneExtentSnapshot list) list" where
  "by_file exts =
     (let sst = filter (\<lambda>x. ends_with (xs_filename x) (str ''.sst'')) exts;
          fnames = map fst (fold (\<lambda>x m. minsert (xs_filename x) () m) sst [])
      in map (\<lambda>n. (n, filter (\<lambda>x. xs_filename x = n) sst)) fnames)"

fun MigrateExtents_loop ::
    "'d backend \<Rightarrow> (bytes \<times> ZoneExtentSnapshot list) list \<Rightarrow> ('d, 'x) zenfs \<Rightarrow>
     (status \<times> ('d, 'x) zenfs) option" where
  "MigrateExtents_loop be [] fs = Some (OK, fs)"
| "MigrateExtents_loop be ((n, exts) # m) fs =
     do {
       (s, fs1) \<leftarrow> MigrateFileExtents be n exts fs;
       (if \<not> ok s then Some (s, fs1)
        else case reset_unused be fs1 of
          (s2, fs2) \<Rightarrow> if \<not> ok s2 then Some (s2, fs2) else MigrateExtents_loop be m fs2)
     }"

definition MigrateExtents ::
    "'d backend \<Rightarrow> ZoneExtentSnapshot list \<Rightarrow> ('d, 'x) zenfs \<Rightarrow> (status \<times> ('d, 'x) zenfs) option" where
  "MigrateExtents be exts fs = MigrateExtents_loop be (by_file exts) fs"

section \<open>The collector\<close>

definition GC_START_LEVEL :: u64 where "GC_START_LEVEL = 20"
definition GC_SLOPE :: u64 where "GC_SLOPE = 3"

definition gc_free_percent :: "'d zbd \<Rightarrow> u64" where
  "gc_free_percent dev =
     (let non_free = GetUsedSpace dev + GetReclaimableSpace dev; free = GetFreeSpace dev
      in 100 * free div (free + non_free))"

definition gc_threshold :: "u64 \<Rightarrow> u64" where
  "gc_threshold free_percent = 100 - GC_SLOPE * (GC_START_LEVEL - free_percent)"

definition gc_zone :: "u64 \<Rightarrow> ZoneSnapshot \<Rightarrow> bool" where
  "gc_zone threshold z \<longleftrightarrow>
     zs_capacity z = 0 \<and>
     (let garbage = 100 - 100 * zs_used_capacity z div zs_max_capacity z
      in garbage > threshold \<and> garbage < 100)"

definition gc_extents :: "ZenFSSnapshot \<Rightarrow> u64 \<Rightarrow> ZoneExtentSnapshot list" where
  "gc_extents sn threshold =
     (let starts = map zs_start (filter (gc_zone threshold) (sn_zones sn))
      in filter (\<lambda>x. xs_zone_start x \<in> set starts) (sn_extents sn))"

text \<open>
  One round of \<^verbatim>\<open>GCWorker\<close>, without the sleep. A device with no space at all divides by zero, and so
  does a full zone that can hold nothing.
\<close>

definition GCWorker_round :: "'d backend \<Rightarrow> ('d, 'x) zenfs \<Rightarrow> ('d, 'x) zenfs option" where
  "GCWorker_round be fs =
     (let dev = fs_dev fs in
      if GetFreeSpace dev + (GetUsedSpace dev + GetReclaimableSpace dev) = 0 then None
      else
        (let free_percent = gc_free_percent dev in
         if free_percent > GC_START_LEVEL then Some fs
         else if list_ex (\<lambda>z. zs_capacity z = 0 \<and> zs_max_capacity z = 0) (GetZoneSnapshot dev) then None
         else
           (let exts = gc_extents (GetZenFSSnapshot False True True fs) (gc_threshold free_percent) in
            if exts = [] then Some fs else map_option snd (MigrateExtents be exts fs))))"

end
