(* ===== verification/Zenfs_GC_Props.thy ===== *)
theory Zenfs_GC_Props
  imports Zenfs_GC File_Content
begin

text \<open>
  Garbage collection keeps the data: copying an extent to another zone keeps its bytes, and the
  content of the file that is migrated, and of every other file, is the same afterwards.
\<close>

section \<open>Copying\<close>

text \<open>A device whose writes do not fail. They may still be short.\<close>

definition never_fails :: "'d backend \<Rightarrow> bool" where
  "never_fails be \<longleftrightarrow> (\<forall>data pos d. 0 \<le> fst (be_Write be data pos d))"

lemma Zone_Append_loop_ok:
  assumes "never_fails be" and "Zone_Append_loop be data z w d = Some res"
  shows "fst res = OK"
proof (rule Zone_Append_loop.raw_induct [OF _ assms(2), where P = "\<lambda>e data z w d res. e = be \<longrightarrow> fst res = OK",
      THEN mp, OF _ refl], intro impI)
  fix loop e data z w d res
  assume IH: "\<And>e data z w d res. loop e data z w d = Some res \<Longrightarrow> e = be \<longrightarrow> fst res = OK"
    and run: "(if data = [] then Some (OK, z, w, d)
        else let rd = be_Write e data (z_wp z) d; ret = fst rd in
             if ret < 0 then Some (IOError, z, w, snd rd)
             else if nat ret > length data then None
             else loop e (drop (nat ret) data) (advance ret z) (w + of_int ret) (snd rd)) = Some res"
    and e: "e = be"
  have "\<not> fst (be_Write be data (z_wp z) d) < 0" using assms(1) by (simp add: never_fails_def not_less)
  then show "fst res = OK"
    using run IH e by (auto simp: Let_def split: if_splits)
qed

lemma append_to_ok:
  assumes "never_fails be" and "append_to be r data dev = Some (s, dev')" and "length data \<le> unat (z_capacity (zone_at dev r))"
  shows "s = OK"
proof -
  have "unat (z_capacity (zone_at dev r)) < 2 ^ 64" using unat_lt2p [of "z_capacity (zone_at dev r)"] by simp
  then have "unat (of_nat (length data) :: u64) = length data" using assms(3) by (intro unat_of_nat_small) simp
  then have "\<not> z_capacity (zone_at dev r) < of_nat (length data)" using assms(3) by (simp add: word_less_nat_alt)
  then obtain z w d where "Zone_Append_loop be data (zone_at dev r) (bytes_written dev) (world dev) = Some (s, z, w, d)"
    using assms(2) by (auto simp: append_to_def Zone_Append_def)
  from Zone_Append_loop_ok [OF assms(1) this] show ?thesis by simp
qed

text \<open>What a copy of \<open>n\<close> bytes does: the target zone has the bytes at its old write pointer.\<close>

definition copied :: "('d \<Rightarrow> u64 \<Rightarrow> byte) \<Rightarrow> zref \<Rightarrow> bytes \<Rightarrow> 'd zbd \<Rightarrow> 'd zbd \<Rightarrow> bool" where
  "copied content r data dev dev' \<longleftrightarrow>
     length data \<le> unat (z_capacity (zone_at dev r)) \<and>
     zone_at dev' r = advance (int (length data)) (zone_at dev r) \<and>
     (\<forall>r'. r' \<noteq> r \<longrightarrow> zone_at dev' r' = zone_at dev r') \<and> (\<forall>r'. zone_valid dev' r' = zone_valid dev r') \<and>
     content (world dev') = blit (content (world dev)) (z_wp (zone_at dev r)) data"

lemma copied_append:
  assumes "write_law be content" "write_progress be" "never_fails be" "zone_wf be (zone_at dev r)" "zone_valid dev r"
    and "length data \<le> unat (z_capacity (zone_at dev r))"
  shows "\<exists>dev'. append_to be r data dev = Some (OK, dev') \<and> copied content r data dev dev'"
proof -
  obtain s dev' n where a: "append_to be r data dev = Some (s, dev')" "n \<le> length data"
      "zone_at dev' r = advance (int n) (zone_at dev r)" "\<forall>r'. r' \<noteq> r \<longrightarrow> zone_at dev' r' = zone_at dev r'"
      "\<forall>r'. zone_valid dev' r' = zone_valid dev r'"
      "s = OK \<and> n = length data \<and> content (world dev') = blit (content (world dev)) (z_wp (zone_at dev r)) data \<or> s = IOError"
    using append_to_spec [OF assms(1,2,4,5,6)] by (elim exE conjE) (rule that)
  have "s = OK" by (rule append_to_ok [OF assms(3) a(1) assms(6)])
  then show ?thesis using a assms(6) by (intro exI [of _ dev']) (simp add: copied_def)
qed

lemma copied_trans:
  assumes wf: "zone_wf be (zone_at dev r)" and 1: "copied content r xs dev dev1" and 2: "copied content r ys dev1 dev2"
  shows "copied content r (xs @ ys) dev dev2"
proof -
  let ?z = "zone_at dev r"
  have n: "length xs \<le> unat (z_capacity ?z)" and z1: "zone_at dev1 r = advance (int (length xs)) ?z"
    using 1 by (simp_all add: copied_def)
  note adv = zone_wf_advance [OF wf n]
  have "length ys \<le> unat (z_capacity ?z) - length xs"
    using 2 adv(3) by (simp add: copied_def z1 advance_nat)
  moreover have "zone_at dev2 r = advance (int (length xs + length ys)) ?z"
    using 2 by (simp add: copied_def z1 advance_advance)
  moreover have "content (world dev2) = blit (content (world dev)) (z_wp ?z) (xs @ ys)"
    using 1 2 blit_append [OF adv(2), of "content (world dev)" ys] by (simp add: copied_def z1 advance_nat)
  ultimately show ?thesis using 1 2 n by (simp add: copied_def)
qed

text \<open>The source of the copy is away from what is written of the target.\<close>

lemma away_bytes:
  assumes "away be z e" and "unat (z_wp z) + length data \<le> unat (z_start z) + unat (zone_sz be)"
    and "unat (e_start e) + unat (e_length e) < 2 ^ 62"
  shows "ext_bytes (blit c (z_wp z) data) e = ext_bytes c e"
  using file_bytes_blit [of "[e]" be z data c] assms by (simp add: extents_ok_def)

definition copy_pre :: "'d backend \<Rightarrow> zref \<Rightarrow> u64 \<Rightarrow> u32 \<Rightarrow> 'd zbd \<Rightarrow> bool" where
  "copy_pre be r offset len dev \<longleftrightarrow>
     zone_valid dev r \<and> zone_wf be (zone_at dev r) \<and> unat len + unat (block_sz be) < 2 ^ 32 \<and>
     unat (block_sz be) dvd unat (z_capacity (zone_at dev r)) \<and> unat len \<le> unat (z_capacity (zone_at dev r)) \<and>
     away be (zone_at dev r) \<lparr> e_start = offset, e_length = ucast len, e_zone = r \<rparr> \<and> unat offset + unat len < 2 ^ 62"

text \<open>One round.\<close>

lemma MigrateData_round:
  assumes law: "write_law be content" "write_progress be" "read_law be content" "never_fails be"
    and b: "block_sz be \<noteq> 0" "read_sz \<noteq> 0" and pre: "copy_pre be r offset len dev" and len: "len \<noteq> 0"
    and rs: "rs = (if len > read_sz then read_sz else len)" and pad: "pad = unat (pad_size (block_sz be) rs)"
  shows "\<exists>dev1. copied content r (bytes_at (content (world dev)) offset (unat rs + pad)) dev dev1 \<and>
     MigrateData_loop be r offset len read_sz dev
     = MigrateData_loop be r (offset + of_nat (unat rs + pad)) (len - rs) rs dev1 \<and>
     unat (block_sz be) dvd unat rs + pad"
proof -
  let ?b = "unat (block_sz be)" and ?z = "zone_at dev r" and ?c = "content (world dev)"
  have p: "zone_valid dev r" "zone_wf be ?z" "unat len + ?b < 2 ^ 32" "?b dvd unat (z_capacity ?z)" "unat len \<le> unat (z_capacity ?z)"
    using pre by (simp_all add: copy_pre_def)
  have urs: "unat rs = min (unat len) (unat read_sz)" by (auto simp: rs word_less_nat_alt)
  have rs0: "0 < unat rs" using len b(2) by (simp add: urs unat_gt_0)
  have pb: "pad < ?b" using pad_size_bound [OF b(1), of rs] by (simp add: pad word_less_nat_alt)
  have whole: "?b dvd unat rs + pad" using pad_size_whole [OF b(1), of rs] by (simp add: pad mod_eq_0_iff_dvd)
  have sum: "unat (rs + pad_size (block_sz be) rs) = unat rs + pad"
    unfolding pad using p(3) pb by (subst unat_add_no_wrap) (simp_all add: urs pad)
  let ?bs = "bytes_at ?c offset (unat rs + pad)"
  have fit: "length ?bs \<le> unat (z_capacity ?z)"
  proof (rule ccontr)
    assume over: "\<not> length ?bs \<le> unat (z_capacity ?z)"
    have "?b dvd (unat rs + pad) - unat (z_capacity ?z)" using whole p(4) by (rule dvd_diff_nat)
    then have "?b \<le> (unat rs + pad) - unat (z_capacity ?z)" using over by (intro dvd_imp_le) simp_all
    then show False using p(5) urs pb over by simp
  qed
  have rd: "zbd_Read be offset (unat (rs + pad_size (block_sz be) rs)) True (world dev) = Some (RData ?bs, world dev)"
    using rs0 unfolding sum by (intro zbd_Read_law [OF law(3)]) simp
  obtain dev1 where ap: "append_to be r ?bs dev = Some (OK, dev1)" "copied content r ?bs dev dev1"
    using copied_append [OF law(1,2,4) p(2,1) fit] by (elim exE conjE) (rule that)
  have "MigrateData_loop be r offset len read_sz dev
      = MigrateData_loop be r (offset + of_nat (unat rs + pad)) (len - rs) rs dev1"
    using len ap(1) rd
    by (simp add: MigrateData_loop.simps [of be r offset len read_sz dev] Let_def rs [symmetric])
  then show ?thesis using ap(2) whole by (intro exI [of _ dev1]) simp
qed

text \<open>After a full round the rest can be copied from where the round ended.\<close>

lemma copy_pre_rest:
  assumes pre: "copy_pre be r offset len dev" and lt: "read_sz < len" and dvd: "unat (block_sz be) dvd unat read_sz"
    and c: "copied content r bs dev dev1" "length bs = unat read_sz"
  shows "copy_pre be r (offset + ucast read_sz) (len - read_sz) dev1 \<and>
     bytes_at (content (world dev1)) (offset + ucast read_sz) (unat (len - read_sz))
     = bytes_at (content (world dev)) (offset + ucast read_sz) (unat (len - read_sz))"
proof -
  let ?b = "unat (block_sz be)" and ?z = "zone_at dev r"
  have p: "zone_valid dev r" "zone_wf be ?z" "unat len + ?b < 2 ^ 32" "?b dvd unat (z_capacity ?z)" "unat len \<le> unat (z_capacity ?z)"
      "away be ?z \<lparr> e_start = offset, e_length = ucast len, e_zone = r \<rparr>" "unat offset + unat len < 2 ^ 62"
    using pre by (simp_all add: copy_pre_def)
  have n: "unat read_sz < unat len" using lt by (simp add: word_less_nat_alt)
  have l1: "unat (len - read_sz) = unat len - unat read_sz" using n by (simp add: unat_diff_le word_le_nat_alt)
  have o1: "unat (offset + ucast read_sz) = unat offset + unat read_sz"
    using p(7) n by (simp add: unat_add_no_wrap unat_ucast_up)
  have fit: "unat read_sz \<le> unat (z_capacity ?z)" using p(5) n by simp
  note adv = zone_wf_advance [OF p(2) fit]
  have z1: "zone_at dev1 r = advance (int (unat read_sz)) ?z" "zone_valid dev1 r"
    using c p(1) by (simp_all add: copied_def)
  have cap1: "unat (z_capacity (zone_at dev1 r)) = unat (z_capacity ?z) - unat read_sz"
    using adv(3) unfolding z1(1) advance_nat by simp
  let ?e = "\<lparr> e_start = offset + ucast read_sz, e_length = ucast (len - read_sz), e_zone = r \<rparr>"
  have ul: "unat (ucast (len - read_sz) :: u64) = unat len - unat read_sz" by (simp add: unat_ucast_up l1)
  have away1: "away be ?z ?e" using p(6) n by (auto simp: away_def o1 ul unat_ucast_up)
  then have away2: "away be (zone_at dev1 r) ?e" using adv(2) unfolding z1(1) advance_nat by (auto simp: away_def)
  have lim: "unat len - unat read_sz + ?b < 2 ^ 32" "unat len - unat read_sz \<le> unat (z_capacity ?z) - unat read_sz"
    using p(3,5) n by linarith+
  have "copy_pre be r (offset + ucast read_sz) (len - read_sz) dev1"
    unfolding copy_pre_def cap1 o1 l1
    using lim z1(2) away2 dvd_diff_nat [OF p(4) dvd] p(3,5,7) n adv(1) unfolding z1(1) advance_nat by simp
  moreover have "unat (z_wp ?z) + length bs \<le> unat (z_start ?z) + unat (zone_sz be)"
    using zone_wf_wp_capacity [OF p(2)] fit c(2) by simp
  from away_bytes [OF away1 this, of "content (world dev)"]
  have "bytes_at (content (world dev1)) (offset + ucast read_sz) (unat (len - read_sz))
     = bytes_at (content (world dev)) (offset + ucast read_sz) (unat (len - read_sz))"
    using p(7) n c(1) by (simp add: ext_bytes_def copied_def ul l1 o1)
  ultimately show ?thesis by simp
qed

lemma MigrateData_loop_copy:
  assumes law: "write_law be content" "write_progress be" "read_law be content" "never_fails be"
    and b: "block_sz be \<noteq> 0" "read_sz \<noteq> 0" "unat (block_sz be) dvd unat read_sz"
  shows "copy_pre be r offset len dev \<Longrightarrow>
     \<exists>dev' data. MigrateData_loop be r offset len read_sz dev = Some (OK, dev') \<and> copied content r data dev dev' \<and>
       unat len \<le> length data \<and> take (unat len) data = bytes_at (content (world dev)) offset (unat len) \<and>
       unat (block_sz be) dvd length data"
proof (induction "unat len" arbitrary: len offset dev rule: less_induct)
  case less
  let ?b = "unat (block_sz be)" and ?c = "content (world dev)"
  show ?case
  proof (cases "len = 0")
    case True
    have "copied content r [] dev dev" by (simp add: copied_def advance_def)
    then show ?thesis using True by (intro exI [of _ dev] exI [of _ "[]"]) (simp add: MigrateData_loop.simps)
  next
    case False
    define rs where "rs = (if len > read_sz then read_sz else len)"
    define pad where "pad = unat (pad_size (block_sz be) rs)"
    let ?bs = "bytes_at ?c offset (unat rs + pad)"
    obtain dev1 where r: "copied content r ?bs dev dev1" "?b dvd unat rs + pad"
        "MigrateData_loop be r offset len read_sz dev = MigrateData_loop be r (offset + of_nat (unat rs + pad)) (len - rs) rs dev1"
      using MigrateData_round [OF law b(1,2) less.prems False rs_def pad_def] by (elim exE conjE) (rule that)
    show ?thesis
    proof (cases "read_sz < len")
      case False
      then have rs: "rs = len" by (simp add: rs_def)
      then have "MigrateData_loop be r offset len read_sz dev = Some (OK, dev1)"
        unfolding r(3) by (simp add: MigrateData_loop.simps)
      moreover have "take (unat len) ?bs = bytes_at ?c offset (unat len)" by (simp add: rs bytes_at_take)
      ultimately show ?thesis
        using r(1,2) rs by (intro exI [of _ dev1] exI [of _ ?bs]) simp
    next
      case True
      then have rs: "rs = read_sz" and lt: "unat read_sz < unat len" by (simp_all add: rs_def word_less_nat_alt)
      have pad0: "pad = 0" using b(1,3) by (simp add: pad_def rs pad_size_def word_unat_eq_iff unat_mod dvd_eq_mod_eq_0)
      let ?bs = "bytes_at ?c offset (unat read_sz)"
      have c: "copied content r ?bs dev dev1" using r(1) by (simp add: rs pad0)
      have l1: "unat (len - read_sz) = unat len - unat read_sz" using lt by (simp add: unat_diff_le word_le_nat_alt)
      have pre: "copy_pre be r (offset + ucast read_sz) (len - read_sz) dev1"
        and same: "bytes_at (content (world dev1)) (offset + ucast read_sz) (unat (len - read_sz))
           = bytes_at ?c (offset + ucast read_sz) (unat (len - read_sz))"
        using copy_pre_rest [OF less.prems True b(3) c] by simp_all
      have "0 < unat read_sz" using b(2) by (simp add: unat_gt_0)
      then have "unat (len - read_sz) < unat len" using lt unfolding l1 by simp
      from less.hyps [OF this pre]
      obtain dev2 data where more: "MigrateData_loop be r (offset + ucast read_sz) (len - read_sz) read_sz dev1 = Some (OK, dev2)"
          "copied content r data dev1 dev2" "unat (len - read_sz) \<le> length data"
          "take (unat (len - read_sz)) data = bytes_at (content (world dev1)) (offset + ucast read_sz) (unat (len - read_sz))"
          "?b dvd length data"
        by (elim exE conjE) (rule that)
      have "zone_wf be (zone_at dev r)" using less.prems by (simp add: copy_pre_def)
      from copied_trans [OF this c more(2)] have "copied content r (?bs @ data) dev dev2" .
      moreover have "take (unat len) (?bs @ data) = bytes_at ?c offset (unat len)"
        using more(4) same lt bytes_at_add [of ?c offset "unat read_sz" "unat len - unat read_sz"] unfolding l1 by simp
      moreover have "MigrateData_loop be r offset len read_sz dev = Some (OK, dev2)"
        using more(1) unfolding r(3) by (simp add: pad0 rs)
      ultimately show ?thesis
        using more(3,5) b(3) l1 by (intro exI [of _ dev2] exI [of _ "?bs @ data"]) simp
    qed
  qed
qed

section \<open>The layout of the device\<close>

text \<open>What the position of data depends on of a zone.\<close>

definition zgeo :: "Zone \<Rightarrow> u64 \<times> u64 \<times> u64 \<times> u64" where
  "zgeo z = (z_start z, z_wp z, z_capacity z, z_max_capacity z)"

text \<open>Zones are well-formed, hold whole blocks and do not overlap.\<close>

definition layout :: "'d backend \<Rightarrow> Zone list \<Rightarrow> bool" where
  "layout be zs \<longleftrightarrow>
     (\<forall>i < length zs. zone_wf be (zs ! i) \<and> unat (z_start (zs ! i)) + unat (zone_sz be) < 2 ^ 62 \<and>
        unat (block_sz be) dvd unat (z_capacity (zs ! i)) \<and> unat (block_sz be) dvd unat (z_wp (zs ! i))) \<and>
     (\<forall>i < length zs. \<forall>j < length zs. i \<noteq> j \<longrightarrow>
        unat (z_start (zs ! i)) + unat (zone_sz be) \<le> unat (z_start (zs ! j)) \<or>
        unat (z_start (zs ! j)) + unat (zone_sz be) \<le> unat (z_start (zs ! i)))"

text \<open>An extent of written data: at a block boundary, away from what can still be written.\<close>

definition placed :: "'d backend \<Rightarrow> Zone list \<Rightarrow> ZoneExtent \<Rightarrow> bool" where
  "placed be zs e \<longleftrightarrow>
     (\<forall>i < length zs. away be (zs ! i) e) \<and> unat (block_sz be) dvd unat (e_start e) \<and>
     unat (e_length e) + unat (block_sz be) < 2 ^ 32 \<and> unat (e_start e) + unat (e_length e) < 2 ^ 62"

lemma zgeo_eq:
  assumes "map zgeo zs = map zgeo zs'" and "i < length zs"
  shows "z_start (zs ! i) = z_start (zs' ! i)" "z_wp (zs ! i) = z_wp (zs' ! i)"
    "z_capacity (zs ! i) = z_capacity (zs' ! i)" "zone_wf be (zs ! i) = zone_wf be (zs' ! i)" "away be (zs ! i) e = away be (zs' ! i) e"
proof -
  have "zgeo (zs ! i) = zgeo (zs' ! i)"
    using assms by (metis map_eq_imp_length_eq nth_map)
  then show "z_start (zs ! i) = z_start (zs' ! i)" "z_wp (zs ! i) = z_wp (zs' ! i)"
    "z_capacity (zs ! i) = z_capacity (zs' ! i)" "zone_wf be (zs ! i) = zone_wf be (zs' ! i)" "away be (zs ! i) e = away be (zs' ! i) e"
    by (simp_all add: zgeo_def zone_wf_def away_def)
qed

lemma zgeo_update: "zgeo z = zgeo (zs ! i) \<Longrightarrow> map zgeo (zs[i := z]) = map zgeo zs"
  by (metis list_update_id map_update)

lemma zgeo_busy:
  "zgeo (z\<lparr>z_busy := b\<rparr>) = zgeo z" "zgeo (z\<lparr>z_used_capacity := n\<rparr>) = zgeo z" "zgeo (snd (CheckRelease z)) = zgeo z"
  by (simp_all add: zgeo_def CheckRelease_def Release_def)

lemma layout_cong: "map zgeo zs = map zgeo zs' \<Longrightarrow> layout be zs \<Longrightarrow> layout be zs'"
  unfolding layout_def using map_eq_imp_length_eq [of zgeo zs zgeo zs'] by (simp add: zgeo_eq [of zs zs'])

lemma placed_cong: "map zgeo zs = map zgeo zs' \<Longrightarrow> placed be zs e \<Longrightarrow> placed be zs' e"
  unfolding placed_def using map_eq_imp_length_eq [of zgeo zs zgeo zs'] by (simp add: zgeo_eq [of zs zs'])

text \<open>Writing whole blocks to one zone keeps the layout and the place of every extent.\<close>

lemma layout_advance:
  assumes l: "layout be zs" and i: "i < length zs" "n \<le> unat (z_capacity (zs ! i))" "unat (block_sz be) dvd n"
  shows "layout be (zs[i := advance (int n) (zs ! i)])"
    and "placed be zs e \<Longrightarrow> placed be (zs[i := advance (int n) (zs ! i)]) e"
proof -
  have wf: "zone_wf be (zs ! i)" and d: "unat (block_sz be) dvd unat (z_capacity (zs ! i))" "unat (block_sz be) dvd unat (z_wp (zs ! i))"
    using l i(1) by (simp_all add: layout_def)
  note adv = zone_wf_advance [OF wf i(2)]
  have z: "zone_wf be (advance (int n) (zs ! i))" "z_start (advance (int n) (zs ! i)) = z_start (zs ! i)"
      "unat (z_wp (advance (int n) (zs ! i))) = unat (z_wp (zs ! i)) + n"
      "unat (z_capacity (advance (int n) (zs ! i))) = unat (z_capacity (zs ! i)) - n"
    unfolding advance_nat using adv by simp_all
  have "unat (block_sz be) dvd unat (z_capacity (zs ! i)) - n" "unat (block_sz be) dvd unat (z_wp (zs ! i)) + n"
    using d i(3) by (simp_all add: dvd_diff_nat)
  then show "layout be (zs[i := advance (int n) (zs ! i)])"
    using l i(1) unfolding layout_def by (simp add: nth_list_update z)
  show "placed be (zs[i := advance (int n) (zs ! i)]) e" if "placed be zs e"
  proof -
    have "away be (advance (int n) (zs ! i)) e"
      using that i(1) unfolding placed_def away_def z by auto
    then show ?thesis using that using i(1) by (simp add: placed_def nth_list_update)
  qed
qed

text \<open>The new extent is placed.\<close>

lemma placed_new:
  assumes l: "layout be zs" and i: "i < length zs" "n \<le> unat (z_capacity (zs ! i))" "unat (e_length e) \<le> n"
    and e: "e_start e = z_wp (zs ! i)" "unat (e_length e) + unat (block_sz be) < 2 ^ 32"
  shows "placed be (zs[i := advance (int n) (zs ! i)]) e"
proof -
  let ?z = "zs ! i"
  have wf: "zone_wf be ?z" "unat (z_start ?z) + unat (zone_sz be) < 2 ^ 62" "unat (block_sz be) dvd unat (z_wp ?z)"
    using l i(1) by (simp_all add: layout_def)
  note adv = zone_wf_advance [OF wf(1) i(2)]
  have fit: "unat (z_wp ?z) + unat (e_length e) \<le> unat (z_start ?z) + unat (zone_sz be)"
    using zone_wf_wp_capacity [OF wf(1)] i(2,3) by simp
  have lo: "unat (z_start ?z) \<le> unat (z_wp ?z)" using wf(1) by (simp add: zone_wf_def)
  have "away be (zs[i := advance (int n) ?z] ! j) e" if j: "j < length zs" for j
  proof (cases "j = i")
    case True
    then show ?thesis using i(1,3) adv(2) e(1) by (simp add: away_def advance_nat)
  next
    case False
    then have "unat (z_start ?z) + unat (zone_sz be) \<le> unat (z_start (zs ! j)) \<or>
        unat (z_start (zs ! j)) + unat (zone_sz be) \<le> unat (z_start ?z)"
      using l i(1) j by (auto simp: layout_def)
    moreover have "unat (z_start (zs ! j)) \<le> unat (z_wp (zs ! j))" using l j by (simp add: layout_def zone_wf_def)
    ultimately show ?thesis using False fit lo e(1) by (auto simp: away_def)
  qed
  then show ?thesis using e fit wf(2,3) by (simp add: placed_def)
qed

section \<open>Migrating extents\<close>

text \<open>The zone that is taken: its busy flag is set, and it has room for the extent.\<close>

lemma TakeMigrateZone_run:
  assumes "\<not> migrating dev"
  shows "(\<exists>dev1. TakeMigrateZone lt n dev = Some (OK, None, dev1) \<and> map zgeo (io_zones dev1) = map zgeo (io_zones dev) \<and>
       world dev1 = world dev) \<or>
     (\<exists>i dev1. TakeMigrateZone lt n dev = Some (OK, Some i, dev1) \<and> map zgeo (io_zones dev1) = map zgeo (io_zones dev) \<and>
       world dev1 = world dev \<and> i < length (io_zones dev) \<and> ucast n \<le> z_capacity (io_zones dev ! i))"
proof -
  obtain best v where g: "GetBestOpenZoneMatch lt n (dev\<lparr>migrating := True\<rparr>)
        = (OK, best, v, dev\<lparr>migrating := True, io_zones := hold (io_zones dev) v\<rparr>)"
      and k: "\<And>k. v = Some k \<Longrightarrow> fillable (ucast n) (io_zones dev) k"
    by (rule GetBestOpenZoneMatch_run [of lt n "dev\<lparr>migrating := True\<rparr>"]) auto
  have geo: "map zgeo (hold (io_zones dev) v) = map zgeo (io_zones dev)"
    by (cases v) (simp_all add: hold_def zgeo_update zgeo_busy)
  show ?thesis
  proof (cases v)
    case None
    then show ?thesis using g assms by (simp add: TakeMigrateZone_def)
  next
    case (Some i)
    then show ?thesis using g k [OF Some] geo assms by (simp add: TakeMigrateZone_def fillable_def)
  qed
qed

text \<open>What a step of the migration keeps: the layout, every extent in its place with its bytes.\<close>

definition keeps_data :: "'d backend \<Rightarrow> ('d \<Rightarrow> u64 \<Rightarrow> byte) \<Rightarrow> 'd zbd \<Rightarrow> 'd zbd \<Rightarrow> bool" where
  "keeps_data be content dev dev' \<longleftrightarrow>
     layout be (io_zones dev') \<and> \<not> migrating dev' \<and>
     (\<forall>e. placed be (io_zones dev) e \<longrightarrow>
        placed be (io_zones dev') e \<and> ext_bytes (content (world dev')) e = ext_bytes (content (world dev)) e)"

lemma keeps_data_geo:
  "layout be (io_zones dev) \<Longrightarrow> map zgeo (io_zones dev') = map zgeo (io_zones dev) \<Longrightarrow> world dev' = world dev \<Longrightarrow>
   \<not> migrating dev' \<Longrightarrow> keeps_data be content dev dev'"
  unfolding keeps_data_def by (metis layout_cong placed_cong)

lemma keeps_data_trans:
  "keeps_data be content dev dev1 \<Longrightarrow> keeps_data be content dev1 dev2 \<Longrightarrow> keeps_data be content dev dev2"
  by (simp add: keeps_data_def)

lemma length_io_zones_valid:
  assumes "\<forall>r. zone_valid dev' r = zone_valid dev r"
  shows "length (io_zones dev') = length (io_zones dev)"
proof -
  have "j < length (io_zones dev') \<longleftrightarrow> j < length (io_zones dev)" for j
    using assms [THEN spec, of "IoZ j"] by simp
  then show ?thesis by (metis less_irrefl nat_neq_iff)
qed

lemma copied_io_zones:
  assumes "copied content (IoZ i) data dev dev'" and "i < length (io_zones dev)"
  shows "io_zones dev' = (io_zones dev)[i := advance (int (length data)) (io_zones dev ! i)]"
proof (rule nth_equalityI)
  have v: "\<forall>r. zone_valid dev' r = zone_valid dev r" using assms(1) by (simp add: copied_def)
  show len: "length (io_zones dev') = length ((io_zones dev)[i := advance (int (length data)) (io_zones dev ! i)])"
    using length_io_zones_valid [OF v] by simp
  fix j assume "j < length (io_zones dev')"
  then have j: "j < length (io_zones dev)" using len by simp
  show "io_zones dev' ! j = (io_zones dev)[i := advance (int (length data)) (io_zones dev ! i)] ! j"
  proof (cases "j = i")
    case True
    then show ?thesis using assms by (simp add: copied_def)
  next
    case False
    have "\<forall>r'. r' \<noteq> IoZ i \<longrightarrow> zone_at dev' r' = zone_at dev r'" using assms(1) unfolding copied_def by blast
    from this [THEN spec, of "IoZ j"] have "io_zones dev' ! j = io_zones dev ! j" using False by simp
    then show ?thesis using False by simp
  qed
qed

lemma keeps_data_copied:
  assumes l: "layout be (io_zones dev)" and c: "copied content (IoZ i) data dev dev'" and i: "i < length (io_zones dev)"
    and d: "unat (block_sz be) dvd length data"
    and g: "map zgeo (io_zones dev2) = map zgeo (io_zones dev')" "world dev2 = world dev'" "\<not> migrating dev2"
  shows "keeps_data be content dev dev2"
proof -
  let ?z = "io_zones dev ! i"
  have n: "length data \<le> unat (z_capacity ?z)" and cont: "content (world dev') = blit (content (world dev)) (z_wp ?z) data"
    using c by (simp_all add: copied_def)
  have wf: "zone_wf be ?z" using l i by (simp add: layout_def)
  have fit: "unat (z_wp ?z) + length data \<le> unat (z_start ?z) + unat (zone_sz be)"
    using zone_wf_wp_capacity [OF wf] n by simp
  note zs = copied_io_zones [OF c i]
  have "layout be (io_zones dev2)"
    using layout_cong [OF g(1) [symmetric]] layout_advance(1) [OF l i n d] by (simp add: zs)
  moreover have "placed be (io_zones dev2) e" "ext_bytes (content (world dev2)) e = ext_bytes (content (world dev)) e"
    if "placed be (io_zones dev) e" for e
  proof -
    show "placed be (io_zones dev2) e"
      using placed_cong [OF g(1) [symmetric]] layout_advance(2) [OF l i n d that] by (simp add: zs)
    have "away be ?z e" "unat (e_start e) + unat (e_length e) < 2 ^ 62" using that i by (simp_all add: placed_def)
    from away_bytes [OF this(1) fit this(2)] show "ext_bytes (content (world dev2)) e = ext_bytes (content (world dev)) e"
      by (simp add: g(2) cont)
  qed
  ultimately show ?thesis using g(3) by (simp add: keeps_data_def)
qed

lemma zgeo_nth: "map zgeo zs = map zgeo zs' \<Longrightarrow> i < length zs \<Longrightarrow> zgeo (zs ! i) = zgeo (zs' ! i)"
  by (metis map_eq_imp_length_eq nth_map)

text \<open>The counters and flags that are set around a copy do not move data.\<close>

lemma released_geo:
  assumes dev': "dev' = snd (ReleaseMigrateZone (Some i) (add_used (IoZ i) n (AddGCBytesWritten m dev)))"
  shows "map zgeo (io_zones dev') = map zgeo (io_zones dev)" "world dev' = world dev" "\<not> migrating dev'"
proof -
  define dev1 where "dev1 = (add_used (IoZ i) n (AddGCBytesWritten m dev))\<lparr>migrating := False\<rparr>"
  have d: "dev' = put_zone (IoZ i) (snd (CheckRelease (io_zones dev1 ! i))) dev1"
    by (simp add: dev' dev1_def ReleaseMigrateZone_def Let_def case_prod_beta)
  have "map zgeo (io_zones dev1) = map zgeo (io_zones dev)"
    by (simp add: dev1_def add_used_def AddGCBytesWritten_def zgeo_update zgeo_busy)
  then show "map zgeo (io_zones dev') = map zgeo (io_zones dev)"
    by (simp add: d zgeo_update zgeo_busy)
  show "world dev' = world dev" "\<not> migrating dev'"
    by (simp_all add: d) (simp_all add: dev1_def AddGCBytesWritten_def)
qed

lemma keeps_data_from_geo:
  "map zgeo (io_zones dev) = map zgeo (io_zones dev1) \<Longrightarrow> world dev1 = world dev \<Longrightarrow>
   keeps_data be content dev1 dev2 \<Longrightarrow> keeps_data be content dev dev2"
  unfolding keeps_data_def by (metis placed_cong)

text \<open>The copy of an extent has its bytes.\<close>

lemma copied_extent:
  assumes l: "layout be (io_zones dev)" and i: "i < length (io_zones dev)" and p: "placed be (io_zones dev) e"
    and c: "copied content (IoZ i) data dev dev'" "unat (e_length e) \<le> length data"
      "take (unat (e_length e)) data = ext_bytes (content (world dev)) e"
    and g: "map zgeo (io_zones dev2) = map zgeo (io_zones dev')" "world dev2 = world dev'"
  shows "placed be (io_zones dev2) (e\<lparr>e_start := z_wp (io_zones dev ! i), e_zone := r\<rparr>) \<and>
     ext_bytes (content (world dev2)) (e\<lparr>e_start := z_wp (io_zones dev ! i), e_zone := r\<rparr>) = ext_bytes (content (world dev)) e"
proof -
  let ?z = "io_zones dev ! i" and ?e = "e\<lparr>e_start := z_wp (io_zones dev ! i), e_zone := r\<rparr>"
  have n: "length data \<le> unat (z_capacity ?z)" and cont: "content (world dev') = blit (content (world dev)) (z_wp ?z) data"
    using c(1) by (simp_all add: copied_def)
  have "placed be ((io_zones dev)[i := advance (int (length data)) ?z]) ?e"
    by (rule placed_new [OF l i n]) (use c(2) p in \<open>simp_all add: placed_def\<close>)
  then have "placed be (io_zones dev2) ?e"
    using placed_cong [OF g(1) [symmetric]] copied_io_zones [OF c(1) i] by simp
  moreover have z: "zone_wf be ?z" "unat (z_start ?z) + unat (zone_sz be) < 2 ^ 62" using l i by (simp_all add: layout_def)
  have "bytes_at (blit (content (world dev)) (z_wp ?z) data) (z_wp ?z) (length data) = data"
    by (rule bytes_at_blit) (use zone_wf_wp_capacity [OF z(1)] n z(2) in simp)
  then have "bytes_at (content (world dev2)) (z_wp ?z) (unat (e_length e)) = take (unat (e_length e)) data"
    using bytes_at_take [OF c(2), of "content (world dev2)" "z_wp ?z"] by (simp add: g(2) cont)
  then have "ext_bytes (content (world dev2)) ?e = ext_bytes (content (world dev)) e" by (simp add: ext_bytes_def c(3) [unfolded ext_bytes_def])
  ultimately show ?thesis by simp
qed

text \<open>Copying an extent to the zone that was taken for it.\<close>

lemma copy_extent_copied:
  assumes law: "write_law be content" "write_progress be" "read_law be content" "never_fails be"
    and b: "block_sz be \<noteq> 0" "unat (block_sz be) dvd 131072"
    and zf: "\<not> is_sparse zf" and l: "layout be (io_zones dev)" and p: "placed be (io_zones dev) e"
    and i: "i < length (io_zones dev)" "e_length e \<le> z_capacity (io_zones dev ! i)"
  shows "\<exists>dev' data. copy_extent be zf e (IoZ i) dev = Some (z_wp (io_zones dev ! i), AddGCBytesWritten (e_length e) dev') \<and>
     copied content (IoZ i) data dev dev' \<and> unat (e_length e) \<le> length data \<and>
     take (unat (e_length e)) data = ext_bytes (content (world dev)) e \<and> unat (block_sz be) dvd length data"
proof -
  let ?z = "io_zones dev ! i" and ?n = "ucast (e_length e) :: u32"
  have e: "away be ?z e" "unat (block_sz be) dvd unat (e_start e)" "unat (e_length e) + unat (block_sz be) < 2 ^ 32"
      "unat (e_start e) + unat (e_length e) < 2 ^ 62"
    using p i(1) by (simp_all add: placed_def)
  have n: "unat ?n = unat (e_length e)" using e(3) by (simp add: unsigned_ucast_eq take_bit_nat_eq_self)
  then have w: "ucast ?n = e_length e" by (simp add: word_unat_eq_iff unat_ucast_up)
  have pre: "copy_pre be (IoZ i) (e_start e) ?n dev"
    using e l i by (simp add: copy_pre_def n w layout_def word_le_nat_alt away_def)
  have "(e_start e mod ucast (block_sz be)) = 0"
    using e(2) by (simp add: word_unat_eq_iff unat_mod unat_ucast_up dvd_eq_mod_eq_0)
  then have M: "MigrateData be (e_start e) ?n (IoZ i) dev = MigrateData_loop be (IoZ i) (e_start e) ?n migrate_step dev"
    by (simp add: MigrateData_def)
  have st: "migrate_step \<noteq> 0" "unat (block_sz be) dvd unat migrate_step" using b(2) by (simp_all add: migrate_step_def)
  obtain dev' data where r: "MigrateData_loop be (IoZ i) (e_start e) ?n migrate_step dev = Some (OK, dev')"
      "copied content (IoZ i) data dev dev'" "unat ?n \<le> length data"
      "take (unat ?n) data = bytes_at (content (world dev)) (e_start e) (unat ?n)" "unat (block_sz be) dvd length data"
    using MigrateData_loop_copy [OF law b(1) st pre] by (elim exE conjE) (rule that)
  have "copy_extent be zf e (IoZ i) dev = Some (z_wp ?z, AddGCBytesWritten (e_length e) dev')"
    using zf r(1) by (simp add: copy_extent_def M)
  then show ?thesis
    using r(2-5) by (intro exI [of _ dev'] exI [of _ data]) (simp add: n ext_bytes_def)
qed

lemma migrate_extent_keeps:
  assumes law: "write_law be content" "write_progress be" "read_law be content" "never_fails be"
    and b: "block_sz be \<noteq> 0" "unat (block_sz be) dvd 131072"
    and zf: "\<not> is_sparse zf" and l: "layout be (io_zones dev)" "\<not> migrating dev" and p: "placed be (io_zones dev) e"
  shows "\<exists>e1 dev1. migrate_extent be zf exts e dev = Some (e1, dev1) \<and> keeps_data be content dev dev1 \<and>
     e_length e1 = e_length e \<and> placed be (io_zones dev1) e1 \<and>
     ext_bytes (content (world dev1)) e1 = ext_bytes (content (world dev)) e"
proof -
  have stay: ?thesis if run: "migrate_extent be zf exts e dev = Some (e, dev1)" and k: "keeps_data be content dev dev1" for dev1
    using k p by (intro exI [of _ e] exI [of _ dev1]) (simp add: run keeps_data_def)
  show ?thesis
  proof (cases "to_migrate exts e")
    case False
    then show ?thesis using l by (intro stay [of dev]) (simp_all add: migrate_extent_def keeps_data_geo)
  next
    case True
    have ul: "unat (e_length e) < 2 ^ 32" using p by (simp add: placed_def)
    from TakeMigrateZone_run [OF l(2), of "zf_lifetime zf" "ucast (e_length e)"] show ?thesis
    proof
      assume "\<exists>dev1. TakeMigrateZone (zf_lifetime zf) (ucast (e_length e)) dev = Some (OK, None, dev1) \<and>
         map zgeo (io_zones dev1) = map zgeo (io_zones dev) \<and> world dev1 = world dev"
      then obtain dev1 where t: "TakeMigrateZone (zf_lifetime zf) (ucast (e_length e)) dev = Some (OK, None, dev1)"
          "map zgeo (io_zones dev1) = map zgeo (io_zones dev)" "world dev1 = world dev" by (elim exE conjE) (rule that)
      show ?thesis
        using True t l
        by (intro stay [of "dev1\<lparr>migrating := False\<rparr>"]) (simp_all add: migrate_extent_def ReleaseMigrateZone_def keeps_data_geo)
    next
      assume "\<exists>i dev1. TakeMigrateZone (zf_lifetime zf) (ucast (e_length e)) dev = Some (OK, Some i, dev1) \<and>
         map zgeo (io_zones dev1) = map zgeo (io_zones dev) \<and> world dev1 = world dev \<and>
         i < length (io_zones dev) \<and> ucast (ucast (e_length e) :: u32) \<le> z_capacity (io_zones dev ! i)"
      then obtain i dev1 where t: "TakeMigrateZone (zf_lifetime zf) (ucast (e_length e)) dev = Some (OK, Some i, dev1)"
          "map zgeo (io_zones dev1) = map zgeo (io_zones dev)" "world dev1 = world dev"
          "i < length (io_zones dev)" "ucast (ucast (e_length e) :: u32) \<le> z_capacity (io_zones dev ! i)"
        by (elim exE conjE) (rule that)
      let ?z = "io_zones dev1 ! i"
      have geo: "map zgeo (io_zones dev) = map zgeo (io_zones dev1)" using t(2) by simp
      have l1: "layout be (io_zones dev1)" and p1: "placed be (io_zones dev1) e" and i1: "i < length (io_zones dev1)"
        using layout_cong [OF geo l(1)] placed_cong [OF geo p] t(4) map_eq_imp_length_eq [OF geo] by simp_all
      have "unat (ucast (e_length e) :: u32) = unat (e_length e)" using ul by (simp add: unsigned_ucast_eq take_bit_nat_eq_self)
      then have "ucast (ucast (e_length e) :: u32) = e_length e" by (simp add: word_unat_eq_iff unat_ucast_up)
      then have cap: "e_length e \<le> z_capacity ?z" using t(5) zgeo_eq(3) [OF geo t(4)] by simp
      obtain dev2 data where c: "copy_extent be zf e (IoZ i) dev1 = Some (z_wp ?z, AddGCBytesWritten (e_length e) dev2)"
          "copied content (IoZ i) data dev1 dev2" "unat (e_length e) \<le> length data"
          "take (unat (e_length e)) data = ext_bytes (content (world dev1)) e" "unat (block_sz be) dvd length data"
        using copy_extent_copied [OF law b zf l1 p1 i1 cap] by (elim exE conjE) (rule that)
      define dev3 where "dev3 = snd (ReleaseMigrateZone (Some i) (add_used (IoZ i) (e_length e) (AddGCBytesWritten (e_length e) dev2)))"
      note geo3 = released_geo [OF dev3_def]
      let ?e1 = "e\<lparr>e_start := z_wp ?z, e_zone := IoZ i\<rparr>"
      have "migrate_extent be zf exts e dev = Some (?e1, dev3)"
        using True t(1) c(1) by (simp add: migrate_extent_def dev3_def)
      moreover have "keeps_data be content dev1 dev3" by (rule keeps_data_copied [OF l1 c(2) i1 c(5) geo3])
      then have "keeps_data be content dev dev3" by (rule keeps_data_from_geo [OF geo t(3)])
      moreover have "placed be (io_zones dev3) ?e1" "ext_bytes (content (world dev3)) ?e1 = ext_bytes (content (world dev)) e"
        using copied_extent [OF l1 i1 p1 c(2,3,4) geo3(1,2)] t(3) by simp_all
      ultimately show ?thesis by (intro exI [of _ ?e1] exI [of _ dev3]) simp
    qed
  qed
qed

lemma MigrateFileExtents_loop_keeps:
  assumes law: "write_law be content" "write_progress be" "read_law be content" "never_fails be"
    and b: "block_sz be \<noteq> 0" "unat (block_sz be) dvd 131072" and zf: "\<not> is_sparse zf"
  shows "layout be (io_zones dev) \<Longrightarrow> \<not> migrating dev \<Longrightarrow> \<forall>e \<in> set es. placed be (io_zones dev) e \<Longrightarrow>
     \<exists>es' dev'. MigrateFileExtents_loop be zf exts es dev = Some (es', dev') \<and> keeps_data be content dev dev' \<and>
       map e_length es' = map e_length es \<and> (\<forall>e \<in> set es'. placed be (io_zones dev') e) \<and>
       file_bytes (content (world dev')) es' = file_bytes (content (world dev)) es"
proof (induction es arbitrary: dev)
  case Nil
  then show ?case by (simp add: keeps_data_def)
next
  case (Cons e es)
  have p: "placed be (io_zones dev) e" using Cons.prems(3) by simp
  obtain e1 dev1 where m: "migrate_extent be zf exts e dev = Some (e1, dev1)" "keeps_data be content dev dev1"
      "e_length e1 = e_length e" "placed be (io_zones dev1) e1" "ext_bytes (content (world dev1)) e1 = ext_bytes (content (world dev)) e"
    using migrate_extent_keeps [OF law b zf Cons.prems(1,2) p, of exts] by (elim exE conjE) (rule that)
  have l1: "layout be (io_zones dev1)" "\<not> migrating dev1" and p1: "\<forall>e \<in> set es. placed be (io_zones dev1) e"
    using m(2) Cons.prems(3) by (simp_all add: keeps_data_def)
  have same: "file_bytes (content (world dev1)) es = file_bytes (content (world dev)) es"
    using m(2) Cons.prems(3) unfolding file_bytes_def keeps_data_def by (intro arg_cong [of _ _ concat] map_cong) auto
  obtain es' dev2 where r: "MigrateFileExtents_loop be zf exts es dev1 = Some (es', dev2)" "keeps_data be content dev1 dev2"
      "map e_length es' = map e_length es" "\<forall>e \<in> set es'. placed be (io_zones dev2) e"
      "file_bytes (content (world dev2)) es' = file_bytes (content (world dev1)) es"
    using Cons.IH [OF l1 p1] by (elim exE conjE) (rule that)
  have "placed be (io_zones dev2) e1" "ext_bytes (content (world dev2)) e1 = ext_bytes (content (world dev)) e"
    using r(2) m(4,5) by (simp_all add: keeps_data_def)
  then show ?case
    using m(1,3) r same keeps_data_trans [OF m(2) r(2)] by (intro exI [of _ "e1 # es'"] exI [of _ dev2]) simp
qed

section \<open>Properties\<close>


text \<open>A full zone with two extents of a file, and a zone with room.\<close>

definition gc_dev :: "(u64 \<Rightarrow> byte) zbd" where
  "gc_dev = two_zone_dev\<lparr>io_zones :=
     [\<lparr> z_busy = False, z_start = 0, z_capacity = 0, z_max_capacity = 16384, z_wp = 16384,
        z_lifetime = WLTH_MEDIUM, z_used_capacity = 8 \<rparr>,
      \<lparr> z_busy = False, z_start = 16384, z_capacity = 12288, z_max_capacity = 16384, z_wp = 20480,
        z_lifetime = WLTH_LONG, z_used_capacity = 5 \<rparr>], world := (\<lambda>a. if a < 16384 then ucast a + 7 else 0)\<rparr>"

definition gc_file :: ZoneFile where
  "gc_file = (newZoneFile 5)\<lparr>linkfiles := [str ''/7.sst''], zf_lifetime := WLTH_MEDIUM,
     extents := [\<lparr> e_start = 0, e_length = 5, e_zone = IoZ 0 \<rparr>, \<lparr> e_start = 4096, e_length = 3, e_zone = IoZ 0 \<rparr>],
     file_size := 8\<rparr>"

definition gc_snapshot :: "ZoneExtentSnapshot list" where
  "gc_snapshot = [\<lparr> xs_start = 0, xs_length = 5, xs_zone_start = 0, xs_filename = str ''/7.sst'' \<rparr>]"

lemma gc_layout: "layout (ram_backend 16384) (io_zones gc_dev)"
  by (simp add: layout_def gc_dev_def zone_wf_def ram_backend_def less_Suc_eq all_conj_distrib)

lemma gc_placed: "\<forall>e \<in> set (extents gc_file). placed (ram_backend 16384) (io_zones gc_dev) e"
  by (simp add: placed_def away_def gc_dev_def gc_file_def ram_backend_def newZoneFile_def less_Suc_eq all_conj_distrib)


text \<open>A device on which every write fails, and what \<^verbatim>\<open>MigrateData\<close> makes of it.\<close>

definition always_fails :: "'d backend \<Rightarrow> bool" where
  "always_fails be \<longleftrightarrow> (\<forall>data pos d. be_Write be data pos d = (-1, d))"

lemma put_zone_same: "put_zone r (zone_at dev r) dev = dev"
  by (cases r) simp_all

lemma append_to_fails:
  assumes "always_fails be" and "data \<noteq> []"
  shows "\<exists>s. append_to be r data dev = Some (s, dev) \<and> s \<noteq> OK"
  using assms by (auto simp: append_to_def Zone_Append_def Zone_Append_loop.simps always_fails_def put_zone_same)

lemma MigrateData_loop_fails:
  assumes "always_fails be" and "read_law be content" and "block_sz be \<noteq> 0"
  shows "unat len + unat (block_sz be) < 2 ^ 32 \<Longrightarrow> read_sz \<noteq> 0 \<Longrightarrow> MigrateData_loop be r offset len read_sz dev = Some (OK, dev)"
proof (induction "unat len" arbitrary: len offset read_sz rule: less_induct)
  case less
  show ?case
  proof (cases "len = 0")
    case True
    then show ?thesis by (simp add: MigrateData_loop.simps)
  next
    case False
    define rs where "rs = (if len > read_sz then read_sz else len)"
    have rs: "rs \<noteq> 0" "rs \<le> len" using False less.prems(2) by (auto simp: rs_def)
    have urs: "0 < unat rs" "unat rs \<le> unat len" using rs by (simp_all add: unat_gt_0 word_le_nat_alt)
    have "unat (pad_size (block_sz be) rs) < unat (block_sz be)"
      using pad_size_bound [OF assms(3), of rs] by (simp add: word_less_nat_alt)
    then have "unat (rs + pad_size (block_sz be) rs) = unat rs + unat (pad_size (block_sz be) rs)"
      using less.prems(1) urs by (subst unat_add_no_wrap) simp_all
    then have pos: "0 < unat (rs + pad_size (block_sz be) rs)" using urs by simp
    define bs where "bs = bytes_at (content (world dev)) offset (unat (rs + pad_size (block_sz be) rs))"
    have ne: "bs \<noteq> []" using pos length_bytes_at unfolding bs_def by (metis length_greater_0_conv)
    have rd: "zbd_Read be offset (unat (rs + pad_size (block_sz be) rs)) True (world dev) = Some (RData bs, world dev)"
      unfolding bs_def by (rule zbd_Read_law [OF assms(2) pos])
    obtain s where s: "append_to be r bs dev = Some (s, dev)" using append_to_fails [OF assms(1) ne, of r dev] by blast
    have l1: "unat (len - rs) = unat len - unat rs" using rs(2) by (simp add: unat_diff_le)
    have "MigrateData_loop be r (offset + of_nat (length bs)) (len - rs) rs dev = Some (OK, dev)"
      by (rule less.hyps) (use urs less.prems(1) rs(1) l1 in simp_all)
    then show ?thesis
      using False rd s by (simp add: MigrateData_loop.simps [of be r offset len read_sz dev] Let_def rs_def [symmetric])
  qed
qed



end
