(* ===== verification/Spec2Isabelle.thy ===== *)
theory Spec2Isabelle
  imports File_Codec Log_Props File_Content Zone_Life Wal_Stream Meta_Log_Props Zenfs_Names_Props Zenfs_Recover Zenfs_GC_Props
begin

text \<open>
  Verification development for zwal, a variant of ZenFS (the RocksDB file system for zoned block
  devices) whose write-ahead logs are written with zone appends. The sources are \<^verbatim>\<open>zenfs-appends/fs\<close>
  and the parts of \<^verbatim>\<open>rocksdb-raw\<close> it is built on.

  \<^bold>\<open>The program.\<close> A zoned device has zones that are written from their beginning on and reset as a
  whole. The device layer (\<^verbatim>\<open>zbd_zenfs.cc\<close>) hands out zones under two limits, open and active zones,
  kept as tokens. A file (\<^verbatim>\<open>io_zenfs.cc\<close>) is a list of extents in zones. A write-ahead log is a file
  whose buffers are appended asynchronously: the device may put the records between two barriers in
  any order, so every record carries a sequence number, and the reader loads a chunk between two
  barriers and sorts it. The file system (\<^verbatim>\<open>fs_zenfs.cc\<close>) has a table of names, writes every change of
  a file's metadata to a log in the metadata zones, replays that log when it is mounted, and moves
  extents out of zones that are mostly garbage. RocksDB's log format (\<^verbatim>\<open>db/log_writer.cc\<close>,
  \<^verbatim>\<open>db/log_reader.cc\<close>) is what the write-ahead logs carry.

  \<^bold>\<open>Conventions.\<close> Machine integers are words of their width and wrap around. A byte string is a list
  of bytes. A status is a value of \<open>status\<close>, and every error return is a branch of its definition.
  Objects are records, operations return them changed. \<open>None\<close> as the result of an operation with an
  option type means that the code waits or loops forever or accesses memory outside of a buffer.
  Assertions are compiled out, as in the release build. Everything outside of the sources is an argument: the
  device and the SZD once-log are the record \<open>backend\<close> of functions over a world state, the metadata
  writer of a file is the argument \<open>persist\<close>, the auxiliary file system, the file below a RocksDB log
  and its compression are records of functions. What is relied on is a named hypothesis
  (\<open>write_law\<close>, \<open>write_progress\<close>, \<open>read_law\<close>, \<open>log_law\<close>, \<open>reset_law\<close>, \<open>never_fails\<close>, \<open>dest_law\<close>,
  \<open>seq_law\<close>), and the witnesses instantiate it by a device, a log or a file in memory.

  \<^bold>\<open>Shared theories.\<close>
  \<^item> \<^verbatim>\<open>Zwal_Prelude\<close>: integers, byte strings, status values, fact collections, lemmas on lists and words.
  \<^item> \<^verbatim>\<open>Coding\<close>: \<^verbatim>\<open>util/coding.h\<close>, \<^verbatim>\<open>coding.cc\<close>, \<^verbatim>\<open>coding_lean.h\<close>. The contract of an encoding is the locale
    \<open>codec\<close>, interpreted for the fixed, variable-length, signed and string encodings.
  \<^item> \<^verbatim>\<open>Crc_Table\<close>, \<^verbatim>\<open>Crc32c\<close>, \<^verbatim>\<open>Crc_Combine\<close>: \<^verbatim>\<open>util/crc32c.cc\<close>. The table-driven checksum is the bitwise
    CRC-32C for every alignment, and \<^verbatim>\<open>Crc32cCombine\<close> gives the checksum of a concatenation.

  \<^bold>\<open>Device\<close> (\<^verbatim>\<open>zbd_zenfs.h\<close>, \<^verbatim>\<open>zbd_zenfs.cc\<close>).
  \<^item> \<^verbatim>\<open>Zone\<close>: \<^verbatim>\<open>class Zone\<close>; appending writes the data at the write pointer and keeps the accounting.
  \<^item> \<^verbatim>\<open>Zbd\<close>: \<^verbatim>\<open>class ZonedBlockDevice\<close>, its tokens and sweeps. The locale \<open>zone_sweep\<close> is interpreted for
    both sweeps: no busy or used zone is reset.
  \<^item> \<^verbatim>\<open>Zbd_Alloc\<close>: the allocators. \<^verbatim>\<open>AllocateIOZone\<close> accounts for tokens and busy flags on every path;
    the life-time match is optimal.
  \<^item> \<^verbatim>\<open>Zone_Life\<close>: zones that are reachable by the operations are well-formed (an inductive relation); the
    wait for an active token ends when a zone can be finished.

  \<^bold>\<open>Files\<close> (\<^verbatim>\<open>io_zenfs.h\<close>, \<^verbatim>\<open>io_zenfs.cc\<close>).
  \<^item> \<^verbatim>\<open>ZoneFile\<close>, \<^verbatim>\<open>File_Codec\<close>: the file object; its metadata survives encoding and decoding.
  \<^item> \<^verbatim>\<open>File_IO\<close>, \<^verbatim>\<open>File_Read\<close>: the append routines; reading by extents, recovery of extents, migration.
  \<^item> \<^verbatim>\<open>Zone_Refs\<close>: the zones as a store (locale \<open>cells\<close>), and what an append leaves alone.
  \<^item> \<^verbatim>\<open>File_Content\<close>: reads always return and give the content; what is appended is read back; the
    padded size of a write is bounded.
  \<^item> \<^verbatim>\<open>Writable\<close>: the file objects RocksDB holds, with the write buffer.
  \<^item> \<^verbatim>\<open>File_Frame\<close>: what the file routines leave alone, over the contract \<open>metadata_writer\<close>.

  \<^bold>\<open>Write-ahead logs\<close> (\<^verbatim>\<open>io_zenfs.cc\<close>).
  \<^item> \<^verbatim>\<open>Wal\<close>: loading and ordering a chunk, and the read routine.
  \<^item> \<^verbatim>\<open>Wal_Recovery\<close>, \<^verbatim>\<open>Wal_Read\<close>, \<^verbatim>\<open>Wal_Props\<close>: sequential reads give the data of all records in the order
    of their sequence numbers, whatever their order on the device.
  \<^item> \<^verbatim>\<open>Wal_Write\<close>, \<^verbatim>\<open>Wal_Roundtrip\<close>, \<^verbatim>\<open>Wal_Writer\<close>, \<^verbatim>\<open>Wal_Layout\<close>, \<^verbatim>\<open>Wal_Stream\<close>: from the buffered writer
    through the device to the reader: what is appended and synced is what is read.
  \<^item> \<^verbatim>\<open>Log_Writer\<close>, \<^verbatim>\<open>Log_Reader\<close>, \<^verbatim>\<open>Log_Props\<close>: RocksDB's log format. The writer refines the reference
    format \<open>frag_stream\<close> and always returns, and the reader gets every record back in order.

  \<^bold>\<open>File system\<close> (\<^verbatim>\<open>fs_zenfs.h\<close>, \<^verbatim>\<open>fs_zenfs.cc\<close>, \<^verbatim>\<open>snapshot.h\<close>).
  \<^item> \<^verbatim>\<open>Meta_Log\<close>, \<^verbatim>\<open>Meta_Log_Props\<close>: superblock and metadata log; both are read back as written.
  \<^item> \<^verbatim>\<open>Paths\<close>, \<^verbatim>\<open>Name_Map\<close>: path computations; \<^verbatim>\<open>std::map\<close> as a sorted list, with the locale \<open>table\<close>.
  \<^item> \<^verbatim>\<open>Zenfs\<close>, \<^verbatim>\<open>Zenfs_Dir\<close>, \<^verbatim>\<open>Zenfs_Recover\<close>: the operations on files and directories, replay, mounting.
  \<^item> \<^verbatim>\<open>Zenfs_Names\<close>, \<^verbatim>\<open>Zenfs_Ops\<close>, \<^verbatim>\<open>Zenfs_Reach\<close>, \<^verbatim>\<open>Zenfs_Names_Props\<close>: every state that a sequence of
    operations reaches, failures included, has a consistent name space, and the operations act on it
    as on an abstract directory.
  \<^item> \<^verbatim>\<open>Zenfs_GC\<close>, \<^verbatim>\<open>Zenfs_GC_Props\<close>: garbage collection keeps the content of all files if writes do not
    fail, and loses the error if one does.

  \<^bold>\<open>Bounds.\<close> Loops that may not end are partial functions into option; where an operation is claimed to
  return, that is proved. The recursive operations on directories take a bound on their depth, and
  exceeding it is \<open>None\<close>. \<open>read_records\<close> takes the number of reads; one more than the number of records
  is enough, since the last read finds the end. The properties of RocksDB's log assume no compression
  and, for the round trip, a log number below \<open>2 ^ 32\<close>; what happens above is a property of its own.

  \<^bold>\<open>Not modelled.\<close>
  \<^item> Concurrency: one operation runs at a time. Locks are left out, a wait for a token or a busy zone that
    nobody else could end is \<open>None\<close>, and the worker thread of the garbage collector is one of its rounds.
  \<^item> The backends \<^verbatim>\<open>zonefs_zenfs.cc\<close> and \<^verbatim>\<open>zbdlib_zenfs.cc\<close>: drivers over system calls, libzbd and SZD.
  \<^item> \<^verbatim>\<open>filesystem_utility.h\<close>, which stands in for \<^verbatim>\<open>std::filesystem\<close> before C++17.
  \<^item> Metrics, statistics, logging, JSON output, and the tools under \<^verbatim>\<open>util\<close>: they report and print only.
  \<^item> Process set-up: \<^verbatim>\<open>NewZenFS\<close>, the listing of file systems, the registration of the plugin; and the
    operations that only forward to the auxiliary file system.
  \<^item> The build without WAL barriers, and the CRC variants for special processor instructions.
  \<^item> \<^verbatim>\<open>FragmentBufferedReader\<close> and the optional XXH3 record checksum of RocksDB's log reader, the rest of
    RocksDB, its second copy \<^verbatim>\<open>rocksdb-ycsb\<close>, \<^verbatim>\<open>zenfs-default\<close>, the benchmarks and the scripts.
\<close>

end
